(* ===== verification/SG_Prelude.thy ===== *)
theory SG_Prelude
  imports Main "HOL-Library.AList" "HOL-Library.Char_ord" "HOL-Library.List_Lexorder"
    "HOL-Library.Sublist"
begin

section \<open>Prelude: Go values shared by the components\<close>

text \<open>
  What every component of the gateway uses of the Go language and its standard library:
  instants and durations (package \<^verbatim>\<open>time\<close>), 64-bit wrap-around, maps, the string functions of
  package \<^verbatim>\<open>strings\<close>, and the generic facts on them. A byte slice and a string are both a
  \<open>char list\<close>, one \<open>char\<close> per byte; a slice whose \<^verbatim>\<open>nil\<close> is told apart from the empty slice is an
  option of one.
\<close>

named_theorems go_defs \<open>definitions of the small Go helpers, for unfolding in evaluation\<close>
named_theorems wf_intros \<open>every operation keeps its component's well-formedness\<close>

type_synonym bytes = string

subsection \<open>Instants and durations\<close>

text \<open>
  A \<^verbatim>\<open>time.Time\<close> is the number of nanoseconds since Go's zero instant (1 January of year 1), so the
  zero value is 0. A \<^verbatim>\<open>time.Duration\<close> is a number of nanoseconds. \<^verbatim>\<open>t.Sub(u)\<close> saturates at the
  bounds of \<^verbatim>\<open>int64\<close>, as documented; \<^verbatim>\<open>t.Unix()\<close> counts whole seconds since 1970, rounding down.
\<close>

type_synonym time = int
type_synonym duration = int

definition second :: duration where "second = 1000000000"
definition millisecond :: duration where "millisecond = 1000000"
definition minute :: duration where "minute = 60 * second"
definition hour :: duration where "hour = 3600 * second"

definition max_int64 :: int where "max_int64 = 9223372036854775807"
definition min_int64 :: int where "min_int64 = - 9223372036854775808"

definition wrap64 :: "int \<Rightarrow> int" where
  "wrap64 x = (x + 9223372036854775808) mod 18446744073709551616 - 9223372036854775808"

definition IsZero :: "time \<Rightarrow> bool" where "IsZero t \<longleftrightarrow> t = 0"
definition time_Sub :: "time \<Rightarrow> time \<Rightarrow> duration" where
  "time_Sub t u = max min_int64 (min max_int64 (t - u))"
definition unix_epoch :: int where "unix_epoch = 62135596800"
definition Unix :: "time \<Rightarrow> int" where "Unix t = t div second - unix_epoch"
definition time_Unix :: "int \<Rightarrow> time" where "time_Unix sec = (sec + unix_epoch) * second"

declare second_def [go_defs] millisecond_def [go_defs] minute_def [go_defs] hour_def [go_defs]
  IsZero_def [go_defs] time_Sub_def [go_defs] unix_epoch_def [go_defs] Unix_def [go_defs]
  time_Unix_def [go_defs] max_int64_def [go_defs] min_int64_def [go_defs] wrap64_def [go_defs]

lemma second_pos [simp]: "0 < second"
  by (simp add: second_def)

lemma Unix_time_Unix [simp]: "Unix (time_Unix s) = s"
  by (simp add: Unix_def time_Unix_def second_def)

lemma Unix_ge_iff: "s \<le> Unix t \<longleftrightarrow> time_Unix s \<le> t"
proof -
  define q r where "q = t div 1000000000" and "r = t mod 1000000000"
  have t: "t = q * 1000000000 + r" and r: "0 \<le> r" "r < 1000000000"
    by (simp_all add: q_def r_def)
  have "s + unix_epoch \<le> q \<longleftrightarrow> (s + unix_epoch) * 1000000000 \<le> t"
    using r unfolding t by auto
  then show ?thesis by (simp add: Unix_def time_Unix_def second_def le_diff_eq q_def)
qed

lemma Unix_mono: "t \<le> u \<Longrightarrow> Unix t \<le> Unix u"
  unfolding Unix_def second_def by (simp add: zdiv_mono1)

lemma time_Sub_less_0_iff: "time_Sub t u < 0 \<longleftrightarrow> t < u"
  by (auto simp: time_Sub_def min_int64_def max_int64_def min_def max_def)

lemma time_Sub_exact: "min_int64 \<le> t - u \<Longrightarrow> t - u \<le> max_int64 \<Longrightarrow> time_Sub t u = t - u"
  by (simp add: time_Sub_def)

lemma wrap64_id: "min_int64 \<le> x \<Longrightarrow> x \<le> max_int64 \<Longrightarrow> wrap64 x = x"
  by (simp add: wrap64_def min_int64_def max_int64_def)

lemma wrap64_underflow:
  "min_int64 - 18446744073709551616 \<le> x \<Longrightarrow> x < min_int64 \<Longrightarrow> wrap64 x = x + 18446744073709551616"
proof -
  assume a: "min_int64 - 18446744073709551616 \<le> x" "x < min_int64"
  have "(x + 9223372036854775808) mod 18446744073709551616
      = (x + 9223372036854775808 + 18446744073709551616) mod 18446744073709551616"
    by (rule mod_add_self2 [symmetric])
  also have "\<dots> = x + 9223372036854775808 + 18446744073709551616"
    using a by (simp add: min_int64_def)
  finally show ?thesis by (simp add: wrap64_def)
qed

lemma wrap64_bounds: "min_int64 \<le> wrap64 x \<and> wrap64 x \<le> max_int64"
proof -
  have "0 \<le> (x + 9223372036854775808) mod 18446744073709551616"
    and "(x + 9223372036854775808) mod 18446744073709551616 < 18446744073709551616"
    by simp_all
  then show ?thesis unfolding wrap64_def min_int64_def max_int64_def by linarith
qed

subsection \<open>Maps\<close>

text \<open>
  A Go map is an association list; \<^verbatim>\<open>m[k] = v\<close> is \<open>AList.update\<close>, \<^verbatim>\<open>delete(m, k)\<close> is
  \<open>AList.delete\<close> and a two-valued read is \<open>map_of\<close>. The list order stands for the order in which a
  \<^verbatim>\<open>range\<close> loop happens to visit the entries, which Go leaves open; a well-formed map has each key
  once.
\<close>

type_synonym ('k, 'v) gomap = "('k \<times> 'v) list"

abbreviation wf_map :: "('k, 'v) gomap \<Rightarrow> bool" where
  "wf_map m \<equiv> distinct (map fst m)"

abbreviation mvals :: "('k, 'v) gomap \<Rightarrow> 'v list" where
  "mvals m \<equiv> map snd m"

definition mcount :: "('v \<Rightarrow> bool) \<Rightarrow> ('k, 'v) gomap \<Rightarrow> nat" where
  "mcount P m = length (filter P (mvals m))"

definition mmap :: "('v \<Rightarrow> 'v) \<Rightarrow> ('k, 'v) gomap \<Rightarrow> ('k, 'v) gomap" where
  "mmap f m = map (\<lambda>(k, v). (k, f v)) m"

definition mfilter :: "('v \<Rightarrow> bool) \<Rightarrow> ('k, 'v) gomap \<Rightarrow> ('k, 'v) gomap" where
  "mfilter P m = filter (\<lambda>(k, v). P v) m"

declare map_of_eq_Some_iff [simp del] Some_eq_map_of_iff [simp del]

lemma map_of_update [simp]: "map_of (AList.update k v m) = (map_of m)(k \<mapsto> v)"
  by (rule update_conv')

lemma map_of_mdelete [simp]: "map_of (AList.delete k m) = (map_of m)(k := None)"
  by (rule delete_conv')

lemma wf_map_update [simp, intro]: "wf_map m \<Longrightarrow> wf_map (AList.update k v m)"
  by (rule distinct_update)

lemma wf_map_delete [simp, intro]: "wf_map m \<Longrightarrow> wf_map (AList.delete k m)"
  by (rule distinct_delete)

lemma map_of_mmap [simp]: "map_of (mmap f m) k = map_option f (map_of m k)"
  unfolding mmap_def by (induction m) auto

lemma fst_mmap [simp]: "map fst (mmap f m) = map fst m"
  unfolding mmap_def by (induction m) auto

lemma wf_map_mfilter [simp, intro]: "wf_map m \<Longrightarrow> wf_map (mfilter P m)"
  unfolding mfilter_def by (rule distinct_map_filter)

lemma map_of_mfilter:
  "wf_map m \<Longrightarrow> map_of (mfilter P m) k =
     (case map_of m k of None \<Rightarrow> None | Some v \<Rightarrow> if P v then Some v else None)"
proof (induction m)
  case Nil
  then show ?case by (simp add: mfilter_def)
next
  case (Cons a m)
  obtain k' v' where a: "a = (k', v')" by fastforce
  have fresh: "k' \<notin> fst ` set m" using Cons.prems a by auto
  then have none: "map_of m k' = None" by (simp add: map_of_eq_None_iff)
  from Cons none show ?case
    by (cases "k = k'") (auto simp: a mfilter_def split: option.splits)
qed

lemma mvals_iff: "wf_map m \<Longrightarrow> v \<in> set (mvals m) \<longleftrightarrow> (\<exists>k. map_of m k = Some v)"
  by (force simp: map_of_eq_Some_iff)

lemma map_of_mvals: "map_of m k = Some v \<Longrightarrow> v \<in> set (mvals m)"
  by (force dest: map_of_SomeD)

lemma mcount_update:
  "mcount P (AList.update k v m) + (case map_of m k of Some u \<Rightarrow> (if P u then 1 else 0) | None \<Rightarrow> 0)
     = mcount P m + (if P v then 1 else 0)"
  unfolding mcount_def by (induction m) auto

lemma mcount_update_fresh:
  "map_of m k = None \<Longrightarrow> mcount P (AList.update k v m) = mcount P m + (if P v then 1 else 0)"
  using mcount_update [of P k v m] by simp

lemma mcount_update_le:
  "(\<And>u. map_of m k = Some u \<Longrightarrow> P v \<Longrightarrow> P u) \<Longrightarrow> map_of m k \<noteq> None \<Longrightarrow>
     mcount P (AList.update k v m) \<le> mcount P m"
  using mcount_update [of P k v m] by (auto split: option.splits if_splits)

lemma mcount_pos: "map_of m k = Some v \<Longrightarrow> P v \<Longrightarrow> 0 < mcount P m"
  unfolding mcount_def by (auto dest!: map_of_mvals simp: filter_empty_conv)

subsection \<open>Strings\<close>

text \<open>
  \<^verbatim>\<open>strings.TrimSpace\<close> removes leading and trailing white space as Unicode defines it; the list
  gives the UTF-8 encoding of each such code point. \<^verbatim>\<open>strings.Cut\<close> splits at the first separator,
  here always one byte. The only \<^verbatim>\<open>strings.EqualFold\<close> of the sources compares with the letters of
  \<^verbatim>\<open>Bearer\<close>, none of which has a case variant outside ASCII.
\<close>

definition white_space :: "string list" where
  "white_space =
     [[CHR 9], [CHR 10], [CHR 11], [CHR 12], [CHR 13], [CHR 32],
      [CHR 0xC2, CHR 0x85], [CHR 0xC2, CHR 0xA0], [CHR 0xE1, CHR 0x9A, CHR 0x80],
      [CHR 0xE2, CHR 0x80, CHR 0x80], [CHR 0xE2, CHR 0x80, CHR 0x81],
      [CHR 0xE2, CHR 0x80, CHR 0x82], [CHR 0xE2, CHR 0x80, CHR 0x83],
      [CHR 0xE2, CHR 0x80, CHR 0x84], [CHR 0xE2, CHR 0x80, CHR 0x85],
      [CHR 0xE2, CHR 0x80, CHR 0x86], [CHR 0xE2, CHR 0x80, CHR 0x87],
      [CHR 0xE2, CHR 0x80, CHR 0x88], [CHR 0xE2, CHR 0x80, CHR 0x89],
      [CHR 0xE2, CHR 0x80, CHR 0x8A], [CHR 0xE2, CHR 0x80, CHR 0xA8],
      [CHR 0xE2, CHR 0x80, CHR 0xA9], [CHR 0xE2, CHR 0x80, CHR 0xAF],
      [CHR 0xE2, CHR 0x81, CHR 0x9F], [CHR 0xE3, CHR 0x80, CHR 0x80]]"

function strip_prefixes :: "string list \<Rightarrow> string \<Rightarrow> string" where
  "strip_prefixes ps s =
     (case find (\<lambda>p. p \<noteq> [] \<and> prefix p s) ps of
        None \<Rightarrow> s
      | Some p \<Rightarrow> strip_prefixes ps (drop (length p) s))"
  by pat_completeness auto
termination
proof (relation "measure (\<lambda>(ps, s). length s)")
  show "wf (measure (\<lambda>(ps :: string list, s :: string). length s))" by simp
  fix ps s p
  assume "find (\<lambda>p. p \<noteq> [] \<and> prefix p s) ps = Some p"
  then have "p \<noteq> []" "prefix p s" by (auto simp: find_Some_iff)
  then show "((ps, drop (length p) s), ps, s) \<in> measure (\<lambda>(ps, s). length s)"
    by (auto simp: prefix_def)
qed

declare strip_prefixes.simps [simp del]

definition TrimSpace :: "string \<Rightarrow> string" where
  "TrimSpace s =
     rev (strip_prefixes (map rev white_space) (rev (strip_prefixes white_space s)))"

definition Cut :: "char \<Rightarrow> string \<Rightarrow> string \<times> string \<times> bool" where
  "Cut c s =
     (if c \<in> set s then (takeWhile (\<lambda>x. x \<noteq> c) s, tl (dropWhile (\<lambda>x. x \<noteq> c) s), True)
      else (s, [], False))"

definition ascii_lower :: "char \<Rightarrow> char" where
  "ascii_lower c =
     (if 65 \<le> (of_char c :: nat) \<and> (of_char c :: nat) \<le> 90 then char_of ((of_char c :: nat) + 32) else c)"

definition EqualFold :: "string \<Rightarrow> string \<Rightarrow> bool" where
  "EqualFold s t \<longleftrightarrow> map ascii_lower s = map ascii_lower t"

lemma takeWhile_no_sep: "c \<notin> set a \<Longrightarrow> takeWhile (\<lambda>x. x \<noteq> c) (a @ c # b) = a"
  by (induction a) auto

lemma dropWhile_no_sep: "c \<notin> set a \<Longrightarrow> dropWhile (\<lambda>x. x \<noteq> c) (a @ c # b) = c # b"
  by (induction a) auto

lemma Cut_append: "c \<notin> set a \<Longrightarrow> Cut c (a @ c # b) = (a, b, True)"
  by (simp add: Cut_def takeWhile_no_sep dropWhile_no_sep)

lemma Cut_fst_no_sep: "c \<notin> set (fst (Cut c s))"
  by (auto simp: Cut_def dest: set_takeWhileD)

lemma Cut_found: "Cut c s = (a, b, True) \<Longrightarrow> s = a @ c # b"
proof -
  assume "Cut c s = (a, b, True)"
  then have c: "c \<in> set s" and a: "a = takeWhile (\<lambda>x. x \<noteq> c) s" and b: "b = tl (dropWhile (\<lambda>x. x \<noteq> c) s)"
    by (auto simp: Cut_def split: if_splits)
  from c obtain u v where "s = u @ c # v" "c \<notin> set u" by (meson split_list_first)
  with a b show ?thesis by (simp add: takeWhile_no_sep dropWhile_no_sep)
qed

end
