(* ===== verification/Token.thy ===== *)
theory Token
  imports SG_Prelude
begin

section \<open>Connection tokens: claims, verification and minting\<close>

text \<open>
  Models \<^verbatim>\<open>internal/token\<close> (roles, claims, the verifier and its static key source) and the
  claim-building part of \<^verbatim>\<open>internal/signer\<close>. The JWT library is not part of the repository: parsing
  and checking a raw token against the configured options is the argument \<open>parse\<close> of the verifier.
\<close>

subsection \<open>Roles and claims\<close>

type_synonym role = string

definition RoleMobile :: role where "RoleMobile = ''mobile''"
definition RoleDesktop :: role where "RoleDesktop = ''desktop''"

definition Opposite :: "role \<Rightarrow> role" where
  "Opposite r =
     (if r = RoleMobile then RoleDesktop else if r = RoleDesktop then RoleMobile else '''')"

definition role_Valid :: "role \<Rightarrow> bool" where
  "role_Valid r \<longleftrightarrow> r = RoleMobile \<or> r = RoleDesktop"

text \<open>
  \<open>c_ExpiresAt\<close> is a pointer in the source, so an option; the registered claims of the JWT library
  that the gateway reads or writes are the fields \<open>c_Issuer\<close> to \<open>c_ExpiresAt\<close>.
\<close>

record claims =
  c_Issuer :: string
  c_Audience :: "string list"
  c_Subject :: string
  c_ID :: string
  c_IssuedAt :: "time option"
  c_ExpiresAt :: "time option"
  c_AccountID :: string
  c_PairID :: string
  c_DeviceID :: string
  c_Role :: role
  c_LicenseID :: string

datatype reason =
  ReasonMissingToken | ReasonMalformed | ReasonBadSignature | ReasonExpired | ReasonNotYetValid
| ReasonWrongAudience | ReasonWrongIssuer | ReasonMissingClaim | ReasonBadRole | ReasonUnknownKey

fun reason_string :: "reason \<Rightarrow> string" where
  "reason_string ReasonMissingToken = ''missing_token''"
| "reason_string ReasonMalformed = ''malformed_token''"
| "reason_string ReasonBadSignature = ''bad_signature''"
| "reason_string ReasonExpired = ''expired''"
| "reason_string ReasonNotYetValid = ''not_yet_valid''"
| "reason_string ReasonWrongAudience = ''wrong_audience''"
| "reason_string ReasonWrongIssuer = ''wrong_issuer''"
| "reason_string ReasonMissingClaim = ''missing_claim''"
| "reason_string ReasonBadRole = ''bad_role''"
| "reason_string ReasonUnknownKey = ''unknown_key''"

text \<open>The wrapped Go error only adds text to logs; the machine reason and the status are kept.\<close>

record auth_error =
  ae_Reason :: reason
  ae_HTTPStatus :: nat

definition authErr :: "reason \<Rightarrow> nat \<Rightarrow> auth_error" where
  "authErr rs st = \<lparr>ae_Reason = rs, ae_HTTPStatus = st\<rparr>"

definition unauthorized :: "reason \<Rightarrow> auth_error" where "unauthorized rs = authErr rs 401"
definition forbidden :: "reason \<Rightarrow> auth_error" where "forbidden rs = authErr rs 403"

declare authErr_def [go_defs] unauthorized_def [go_defs] forbidden_def [go_defs]
  RoleMobile_def [go_defs] RoleDesktop_def [go_defs]

lemma RoleMobile_neq_RoleDesktop [simp]: "RoleMobile \<noteq> RoleDesktop" "RoleDesktop \<noteq> RoleMobile"
  by (simp_all add: RoleMobile_def RoleDesktop_def)

lemma role_nonempty [simp]: "RoleMobile \<noteq> ''''" "RoleDesktop \<noteq> ''''"
  by (simp_all add: RoleMobile_def RoleDesktop_def)

lemma Opposite_simps [simp]: "Opposite RoleMobile = RoleDesktop" "Opposite RoleDesktop = RoleMobile"
  by (simp_all add: Opposite_def)

lemma role_Valid_simps [simp]: "role_Valid RoleMobile" "role_Valid RoleDesktop"
  by (simp_all add: role_Valid_def)

lemma Opposite_Opposite: "role_Valid r \<Longrightarrow> Opposite (Opposite r) = r"
  by (auto simp: role_Valid_def)

lemma Opposite_neq: "role_Valid r \<Longrightarrow> Opposite r \<noteq> r"
  by (auto simp: role_Valid_def)

lemma role_Valid_Opposite: "role_Valid r \<Longrightarrow> role_Valid (Opposite r)"
  by (auto simp: role_Valid_def)

subsection \<open>The verifier\<close>

text \<open>
  \<open>jwt_error\<close> is the set of sentinels that \<^verbatim>\<open>errors.Is\<close> finds in an error returned by the JWT parser:
  the library joins several of them (an unknown key is reported as unverifiable and carries
  \<^verbatim>\<open>ErrUnknownKey\<close>), so the value is a list. \<open>ParsedInvalid\<close> is a parse without error of a token that
  is not marked valid.
\<close>

datatype jwt_sentinel =
  ErrTokenExpired | ErrTokenNotValidYet | ErrTokenInvalidAudience | ErrTokenInvalidIssuer
| ErrTokenSignatureInvalid | ErrUnknownKey | ErrTokenMalformed | ErrTokenUnverifiable | ErrTokenOther

datatype parse_result = ParseError "jwt_sentinel list" | ParsedInvalid claims | Parsed claims

record verifier_config =
  vc_Issuer :: string
  vc_Audience :: string
  vc_AllowedAlgs :: "string list"
  vc_Leeway :: duration
  vc_HasKeySource :: bool

definition isAsymmetricAlg :: "string \<Rightarrow> bool" where
  "isAsymmetricAlg a \<longleftrightarrow>
     a \<in> {''ES256'', ''ES384'', ''ES512'', ''EdDSA'', ''RS256'', ''RS384'', ''RS512'',
           ''PS256'', ''PS384'', ''PS512''}"

datatype verifier_error = NeedsIssuerAndAudience | NeedsKeySource | NeedsAlg | DisallowedAlg string

text \<open>The loop over the algorithms stops at the first one that is not asymmetric.\<close>

definition NewVerifier :: "verifier_config \<Rightarrow> verifier_error + verifier_config" where
  "NewVerifier cfg =
     (if vc_Issuer cfg = '''' \<or> vc_Audience cfg = '''' then Inl NeedsIssuerAndAudience
      else if \<not> vc_HasKeySource cfg then Inl NeedsKeySource
      else if vc_AllowedAlgs cfg = [] then Inl NeedsAlg
      else case find (\<lambda>a. \<not> isAsymmetricAlg a) (vc_AllowedAlgs cfg) of
             Some a \<Rightarrow> Inl (DisallowedAlg a)
           | None \<Rightarrow> Inr cfg)"

definition classify :: "jwt_sentinel list \<Rightarrow> auth_error" where
  "classify err =
     (if ErrTokenExpired \<in> set err then unauthorized ReasonExpired
      else if ErrTokenNotValidYet \<in> set err then unauthorized ReasonNotYetValid
      else if ErrTokenInvalidAudience \<in> set err then forbidden ReasonWrongAudience
      else if ErrTokenInvalidIssuer \<in> set err then forbidden ReasonWrongIssuer
      else if ErrTokenSignatureInvalid \<in> set err then unauthorized ReasonBadSignature
      else if ErrUnknownKey \<in> set err then unauthorized ReasonUnknownKey
      else if ErrTokenMalformed \<in> set err \<or> ErrTokenUnverifiable \<in> set err
        then unauthorized ReasonMalformed
      else unauthorized ReasonMalformed)"

definition validateCustomClaims :: "claims \<Rightarrow> auth_error option" where
  "validateCustomClaims c =
     (if c_AccountID c = '''' then Some (forbidden ReasonMissingClaim)
      else if c_PairID c = '''' then Some (forbidden ReasonMissingClaim)
      else if c_DeviceID c = '''' then Some (forbidden ReasonMissingClaim)
      else if c_LicenseID c = '''' then Some (forbidden ReasonMissingClaim)
      else if \<not> role_Valid (c_Role c) then Some (forbidden ReasonBadRole)
      else None)"

definition Verify :: "(string \<Rightarrow> parse_result) \<Rightarrow> string \<Rightarrow> auth_error + claims" where
  "Verify parse rawToken =
     (if rawToken = '''' then Inl (unauthorized ReasonMissingToken)
      else case parse rawToken of
             ParseError err \<Rightarrow> Inl (classify err)
           | ParsedInvalid _ \<Rightarrow> Inl (unauthorized ReasonBadSignature)
           | Parsed claims \<Rightarrow>
               (case validateCustomClaims claims of Some ae \<Rightarrow> Inl ae | None \<Rightarrow> Inr claims))"

definition claims_ok :: "claims \<Rightarrow> bool" where
  "claims_ok c \<longleftrightarrow> c_AccountID c \<noteq> '''' \<and> c_PairID c \<noteq> '''' \<and> c_DeviceID c \<noteq> '''' \<and>
     c_LicenseID c \<noteq> '''' \<and> role_Valid (c_Role c)"

lemma validateCustomClaims_None: "validateCustomClaims c = None \<longleftrightarrow> claims_ok c"
  by (simp add: validateCustomClaims_def claims_ok_def)

lemma classify_status: "ae_HTTPStatus (classify err) \<in> {401, 403}"
  by (simp add: classify_def unauthorized_def forbidden_def authErr_def)

lemma validateCustomClaims_status:
  "validateCustomClaims c = Some ae \<Longrightarrow> ae_HTTPStatus ae = 403"
  by (auto simp: validateCustomClaims_def forbidden_def authErr_def split: if_split_asm)

lemma Verify_Inr: "Verify parse raw = Inr c \<longleftrightarrow> raw \<noteq> '''' \<and> parse raw = Parsed c \<and> claims_ok c"
  by (cases "parse raw")
     (auto simp: Verify_def validateCustomClaims_None [symmetric] split: option.splits)

lemma Verify_claims_ok: "Verify parse raw = Inr c \<Longrightarrow> claims_ok c"
  by (simp add: Verify_Inr)

lemma Verify_status: "Verify parse raw = Inl ae \<Longrightarrow> ae_HTTPStatus ae \<in> {401, 403}"
  by (cases "parse raw")
     (use classify_status in \<open>auto simp: Verify_def unauthorized_def authErr_def
        dest: validateCustomClaims_status split: option.splits if_split_asm\<close>)

subsection \<open>Static key source\<close>

text \<open>
  \<open>NewStaticSource\<close> reads the PEM blocks of its input in order; \<open>blocks\<close> is what \<^verbatim>\<open>pem.Decode\<close> and the
  X.509 parser make of them: the \<^verbatim>\<open>kid\<close> header (empty when absent) and the key, or nothing for a
  block whose key does not parse or is of an unsupported type.
\<close>

record 'k static_source =
  byKID :: "(string, 'k) gomap"
  single :: "'k option"

datatype source_error = BadKey | NoBlocks

fun read_blocks ::
  "(string \<times> 'k option) list \<Rightarrow> nat \<Rightarrow> 'k static_source \<Rightarrow> source_error + (nat \<times> 'k static_source)"
where
  "read_blocks [] n s = Inr (n, s)"
| "read_blocks ((kid, None) # bs) n s = Inl BadKey"
| "read_blocks ((kid, Some key) # bs) n s =
     read_blocks bs (n + 1)
       (let s = s\<lparr>single := Some key\<rparr>
        in if kid \<noteq> '''' then s\<lparr>byKID := AList.update kid key (byKID s)\<rparr> else s)"

definition NewStaticSource :: "(string \<times> 'k option) list \<Rightarrow> source_error + 'k static_source" where
  "NewStaticSource blocks =
     (case read_blocks blocks 0 \<lparr>byKID = [], single = None\<rparr> of
        Inl e \<Rightarrow> Inl e
      | Inr (n, s) \<Rightarrow>
          (if n = 0 then Inl NoBlocks
           else if n > 1 then Inr (s\<lparr>single := None\<rparr>)
           else Inr s))"

definition PublicKey :: "'k static_source \<Rightarrow> string \<Rightarrow> 'k option" where
  "PublicKey s kid =
     (case (if kid \<noteq> '''' then map_of (byKID s) kid else None) of
        Some k \<Rightarrow> Some k
      | None \<Rightarrow>
          (case single s of
             Some k \<Rightarrow> Some k
           | None \<Rightarrow> map_of (byKID s) kid))"

lemma read_blocks_count: "read_blocks bs n s = Inr (m, s') \<Longrightarrow> m = n + length bs"
  by (induction bs n s rule: read_blocks.induct) auto

lemma read_blocks_byKID:
  "read_blocks bs n s = Inr (m, s') \<Longrightarrow> map_of (byKID s') kid = Some k \<Longrightarrow>
     map_of (byKID s) kid = Some k \<or> (kid \<noteq> '''' \<and> (kid, Some k) \<in> set bs)"
proof (induction bs n s rule: read_blocks.induct)
  case (3 kid' key bs n s)
  show ?case
  proof (cases "kid' = ''''")
    case True
    with 3 show ?thesis by (auto simp: Let_def)
  next
    case False
    with 3 show ?thesis by (auto simp: Let_def split: if_split_asm)
  qed
qed auto

subsection \<open>Minting\<close>

text \<open>
  The claims \<^verbatim>\<open>Signer.Mint\<close> signs. \<open>now\<close> is the wall clock it reads when \<^verbatim>\<open>IssuedAt\<close> is zero, \<open>jti\<close> the
  text of its random identifier. \<^verbatim>\<open>jwt.NewNumericDate\<close> truncates an instant to a whole second.
\<close>

record token_params =
  tp_Issuer :: string
  tp_Audience :: string
  tp_AccountID :: string
  tp_PairID :: string
  tp_DeviceID :: string
  tp_Role :: role
  tp_LicenseID :: string
  tp_TTL :: duration
  tp_IssuedAt :: time

definition NewNumericDate :: "time \<Rightarrow> time" where
  "NewNumericDate t = t div second * second"

definition Mint_claims :: "time \<Rightarrow> string \<Rightarrow> token_params \<Rightarrow> claims" where
  "Mint_claims clock jti p =
     (let now = (if IsZero (tp_IssuedAt p) then clock else tp_IssuedAt p)
      in \<lparr>c_Issuer = tp_Issuer p, c_Audience = [tp_Audience p],
          c_Subject = ''device:'' @ tp_DeviceID p, c_ID = jti,
          c_IssuedAt = Some (NewNumericDate now),
          c_ExpiresAt = Some (NewNumericDate (now + tp_TTL p)),
          c_AccountID = tp_AccountID p, c_PairID = tp_PairID p, c_DeviceID = tp_DeviceID p,
          c_Role = tp_Role p, c_LicenseID = tp_LicenseID p\<rparr>)"

lemma Mint_claims_ok:
  "claims_ok (Mint_claims clock jti p) \<longleftrightarrow> tp_AccountID p \<noteq> '''' \<and> tp_PairID p \<noteq> '''' \<and>
     tp_DeviceID p \<noteq> '''' \<and> tp_LicenseID p \<noteq> '''' \<and> role_Valid (tp_Role p)"
  by (simp add: Mint_claims_def claims_ok_def Let_def)

lemma NewNumericDate_bounds: "NewNumericDate t \<le> t" "t < NewNumericDate t + second"
proof -
  have "t = t div second * second + t mod second" "0 \<le> t mod second" "t mod second < second"
    by simp_all
  then show "NewNumericDate t \<le> t" "t < NewNumericDate t + second"
    unfolding NewNumericDate_def by linarith+
qed

subsection \<open>A concrete token\<close>

text \<open>The claims of a desktop token that expires a million seconds after the epoch, for the witnesses.\<close>

definition ex_claims :: claims where
  "ex_claims =
     \<lparr>c_Issuer = ''auth'', c_Audience = [''relay''], c_Subject = ''device:d1'', c_ID = ''j1'',
      c_IssuedAt = Some (time_Unix 0), c_ExpiresAt = Some (time_Unix 1000000),
      c_AccountID = ''a1'', c_PairID = ''p1'', c_DeviceID = ''d1'', c_Role = RoleDesktop,
      c_LicenseID = ''l1''\<rparr>"

lemma ex_claims_simps [simp]:
  "c_PairID ex_claims = ''p1''" "c_AccountID ex_claims = ''a1''" "c_Role ex_claims = RoleDesktop"
  "c_DeviceID ex_claims = ''d1''" "c_ExpiresAt ex_claims = Some (time_Unix 1000000)"
  "c_LicenseID ex_claims = ''l1''"
  by (simp_all add: ex_claims_def)

lemma ex_claims_ok: "claims_ok ex_claims"
  by (simp add: claims_ok_def role_Valid_def)

end
