(* ===== verification/Protocol.thy ===== *)
theory Protocol
  imports Token
begin

section \<open>The relay's wire envelope\<close>

text \<open>
  Models \<^verbatim>\<open>internal/relay/protocol/protocol.go\<close>. The JSON texts of the envelope and of the two control
  payloads are the record \<open>codec\<close> of functions that the definitions take.
\<close>

definition Version :: int where "Version = 1"

definition TypeMsg :: string where "TypeMsg = ''msg''"
definition TypeAck :: string where "TypeAck = ''ack''"
definition TypeAuthRefresh :: string where "TypeAuthRefresh = ''auth_refresh''"
definition TypeError :: string where "TypeError = ''error''"
definition TypeSys :: string where "TypeSys = ''sys''"

definition SysPeerOnline :: string where "SysPeerOnline = ''peer_online''"
definition SysPeerOffline :: string where "SysPeerOffline = ''peer_offline''"
definition SysShutdown :: string where "SysShutdown = ''shutdown''"

definition ErrPeerOffline :: string where "ErrPeerOffline = ''peer_offline''"
definition ErrUnauthorized :: string where "ErrUnauthorized = ''unauthorized''"

definition StatusNormalClosure :: nat where "StatusNormalClosure = 1000"
definition StatusGoingAway :: nat where "StatusGoingAway = 1001"
definition StatusTryAgainLater :: nat where "StatusTryAgainLater = 1013"
definition CloseSuperseded :: nat where "CloseSuperseded = 4001"
definition CloseTokenExpired :: nat where "CloseTokenExpired = 4003"
definition CloseRevoked :: nat where "CloseRevoked = 4004"
definition CloseProtocol :: nat where "CloseProtocol = 4005"

lemmas type_defs = TypeMsg_def TypeAck_def TypeAuthRefresh_def TypeError_def TypeSys_def
lemmas close_defs = StatusNormalClosure_def StatusGoingAway_def StatusTryAgainLater_def
  CloseSuperseded_def CloseTokenExpired_def CloseRevoked_def CloseProtocol_def

declare type_defs [go_defs] close_defs [go_defs] Version_def [go_defs]
  SysPeerOnline_def [go_defs] SysPeerOffline_def [go_defs] SysShutdown_def [go_defs]
  ErrPeerOffline_def [go_defs] ErrUnauthorized_def [go_defs]

text \<open>An absent or empty payload is the empty list.\<close>

record envelope =
  e_V :: int
  e_Type :: string
  e_ID :: string
  e_TS :: int
  e_Payload :: bytes

record codec =
  unmarshal_Envelope :: "bytes \<Rightarrow> envelope option"
  marshal_Envelope :: "envelope \<Rightarrow> bytes option"
  marshal_System :: "string \<Rightarrow> string \<Rightarrow> bytes option"
  marshal_ErrorBody :: "string \<Rightarrow> string \<Rightarrow> bytes option"
  unmarshal_Token :: "bytes \<Rightarrow> string option"

datatype decode_error = ErrOversize | MalformedEnvelope | UnsupportedVersion int | UnknownType string | MissingID

definition validate :: "envelope \<Rightarrow> decode_error option" where
  "validate e =
     (if e_V e \<noteq> Version then Some (UnsupportedVersion (e_V e))
      else if \<not> (e_Type e = TypeMsg \<or> e_Type e = TypeAck \<or> e_Type e = TypeAuthRefresh \<or>
                 e_Type e = TypeError \<or> e_Type e = TypeSys) then Some (UnknownType (e_Type e))
      else if e_ID e = '''' then Some MissingID
      else None)"

definition Decode :: "codec \<Rightarrow> bytes \<Rightarrow> int \<Rightarrow> decode_error + envelope" where
  "Decode cd raw maxBytes =
     (if maxBytes > 0 \<and> int (length raw) > maxBytes then Inl ErrOversize
      else case unmarshal_Envelope cd raw of
             None \<Rightarrow> Inl MalformedEnvelope
           | Some e \<Rightarrow> (case validate e of Some err \<Rightarrow> Inl err | None \<Rightarrow> Inr e))"

definition Encode :: "codec \<Rightarrow> envelope \<Rightarrow> bytes option" where
  "Encode cd e = marshal_Envelope cd e"

definition NewSys :: "codec \<Rightarrow> string \<Rightarrow> int \<Rightarrow> string \<Rightarrow> string \<Rightarrow> envelope option" where
  "NewSys cd i ts kind detail =
     (case marshal_System cd kind detail of
        None \<Rightarrow> None
      | Some body \<Rightarrow> Some \<lparr>e_V = Version, e_Type = TypeSys, e_ID = i, e_TS = ts, e_Payload = body\<rparr>)"

definition NewError :: "codec \<Rightarrow> string \<Rightarrow> int \<Rightarrow> string \<Rightarrow> string \<Rightarrow> envelope option" where
  "NewError cd i ts code detail =
     (case marshal_ErrorBody cd code detail of
        None \<Rightarrow> None
      | Some body \<Rightarrow> Some \<lparr>e_V = Version, e_Type = TypeError, e_ID = i, e_TS = ts, e_Payload = body\<rparr>)"

lemma Decode_Inr:
  "Decode cd raw n = Inr e \<longleftrightarrow>
     \<not> (n > 0 \<and> int (length raw) > n) \<and> unmarshal_Envelope cd raw = Some e \<and> validate e = None"
  by (auto simp: Decode_def split: option.splits)

lemma Decode_type:
  "Decode cd raw n = Inr e \<Longrightarrow> e_Type e \<in> {TypeMsg, TypeAck, TypeAuthRefresh, TypeError, TypeSys}"
  by (auto simp: Decode_Inr validate_def split: if_split_asm)

lemma Decode_bounded: "Decode cd raw n = Inr e \<Longrightarrow> 0 < n \<Longrightarrow> int (length raw) \<le> n"
  by (auto simp: Decode_Inr)

end
