(* ===== verification/Backplane.thy ===== *)
theory Backplane
  imports Token
begin

section \<open>The backplane interface\<close>

text \<open>
  Models \<^verbatim>\<open>internal/backplane/backplane.go\<close>: the slot, frame and revocation types, the interface
  between a relay instance and the shared registry as a record of operations, and its contract as a
  locale. The two implementations are in the theories \<open>Memory_Backplane\<close> and \<open>Redis_Backplane\<close>.
\<close>

record slot_key =
  sk_PairID :: string
  sk_Role :: role

definition SlotKey_String :: "slot_key \<Rightarrow> string" where
  "SlotKey_String k = ''pair:'' @ sk_PairID k @ '':'' @ sk_Role k"

record claim_result =
  cr_Won :: bool
  cr_EvictedConnID :: string
  cr_EvictedOnThisInstance :: bool

record routed_frame =
  rf_PairID :: string
  rf_ToRole :: role
  rf_FromConn :: string
  rf_Data :: bytes

record revocation_event =
  re_PairID :: string
  re_AccountID :: string

datatype bp_error = ErrNotSlotOwner | ErrUnavailable | ErrTransport

text \<open>
  A backplane implementation over states \<open>'b\<close>. Each operation takes the wall clock it reads and
  returns its result, or the error, with the new state.
\<close>

record 'b bp_ops =
  ClaimSlot :: "time \<Rightarrow> slot_key \<Rightarrow> string \<Rightarrow> string \<Rightarrow> 'b \<Rightarrow> (bp_error + claim_result) \<times> 'b"
  RenewSlot :: "time \<Rightarrow> slot_key \<Rightarrow> string \<Rightarrow> 'b \<Rightarrow> (bp_error + unit) \<times> 'b"
  ReleaseSlot :: "time \<Rightarrow> slot_key \<Rightarrow> string \<Rightarrow> 'b \<Rightarrow> (bp_error + unit) \<times> 'b"
  LookupInstance :: "time \<Rightarrow> slot_key \<Rightarrow> 'b \<Rightarrow> (bp_error + string) \<times> 'b"
  Publish :: "string \<Rightarrow> routed_frame \<Rightarrow> 'b \<Rightarrow> (bp_error + unit) \<times> 'b"
  PublishRevocation :: "revocation_event \<Rightarrow> 'b \<Rightarrow> (bp_error + unit) \<times> 'b"

text \<open>
  A slot key's text is injective on keys with a valid role: the two role names end in different
  letters, so the pair identifier in front of them is determined whatever bytes it holds.
\<close>

lemma SlotKey_String_inj:
  assumes "role_Valid (sk_Role a)" and "role_Valid (sk_Role b)"
    and "SlotKey_String a = SlotKey_String b"
  shows "a = b"
proof -
  have last: "last (SlotKey_String x) = (if sk_Role x = RoleMobile then CHR ''e'' else CHR ''p'')"
    if "role_Valid (sk_Role x)" for x
    using that by (auto simp: SlotKey_String_def role_Valid_def RoleMobile_def RoleDesktop_def)
  have "sk_Role a = sk_Role b"
    using last [OF assms(1)] last [OF assms(2)] assms by (auto simp: role_Valid_def split: if_splits)
  with assms(3) show ?thesis by (simp add: SlotKey_String_def)
qed

subsection \<open>The slot contract\<close>

text \<open>
  \<open>held t b k\<close> is the connection and instance recorded at time \<open>t\<close> for slot \<open>k\<close>, \<open>live t b k\<close> the one
  whose claim has not lapsed. The laws are those of the interface comment: a claim wins and reports the
  live holder it displaces, a renewal or release acts for the recorded holder only, no call touches the
  slot of another key, and time alone can only make an entry disappear. A failed claim promises little
  about its own slot: the reply may have been lost after the claim took effect.
\<close>

locale slot_registry =
  fixes ops :: "'b bp_ops"
    and ok :: "'b \<Rightarrow> bool"
    and held live :: "time \<Rightarrow> 'b \<Rightarrow> slot_key \<Rightarrow> (string \<times> string) option"
    and good_ids :: "string \<Rightarrow> string \<Rightarrow> bool"
  assumes live_held: "live t b k = Some x \<Longrightarrow> held t b k = Some x"
    and held_lapse: "held t' b k = Some x \<Longrightarrow> t \<le> t' \<Longrightarrow> held t b k = Some x"
    and claim_ok: "ok b \<Longrightarrow> ClaimSlot ops t k c i b = (rc, b') \<Longrightarrow> ok b'"
    and claim_won: "ok b \<Longrightarrow> good_ids c i \<Longrightarrow> ClaimSlot ops t k c i b = (Inr res, b') \<Longrightarrow>
      cr_Won res \<and> live t b' k = Some (c, i)"
    and claim_frame: "ok b \<Longrightarrow> ClaimSlot ops t k c i b = (rc, b') \<Longrightarrow> role_Valid (sk_Role k) \<Longrightarrow>
      role_Valid (sk_Role k') \<Longrightarrow> k' \<noteq> k \<Longrightarrow> held t' b' k' = held t' b k'"
    and claim_who: "ok b \<Longrightarrow> good_ids c i \<Longrightarrow> ClaimSlot ops t k c i b = (rc, b') \<Longrightarrow> t \<le> t' \<Longrightarrow>
      held t' b' k = Some x \<Longrightarrow> x = (c, i) \<or> held t' b k = Some x"
    and claim_evicts: "ok b \<Longrightarrow> ClaimSlot ops t k c i b = (Inr res, b') \<Longrightarrow>
      live t b k = Some (c', i') \<Longrightarrow> c' \<noteq> c \<Longrightarrow>
      cr_EvictedConnID res = c' \<and> (c' \<noteq> '''' \<longrightarrow> cr_EvictedOnThisInstance res = (i' = i))"
    and claim_evicts_holder: "ok b \<Longrightarrow> ClaimSlot ops t k c i b = (Inr res, b') \<Longrightarrow>
      cr_EvictedConnID res \<noteq> '''' \<Longrightarrow>
      cr_EvictedConnID res \<noteq> c \<and> (\<exists>i'. live t b k = Some (cr_EvictedConnID res, i'))"
    and renew_ok: "ok b \<Longrightarrow> RenewSlot ops t k c b = (rr, b') \<Longrightarrow> ok b'"
    and renew_holder: "ok b \<Longrightarrow> RenewSlot ops t k c b = (Inr (), b') \<Longrightarrow>
      \<exists>i. held t b k = Some (c, i) \<and> live t b' k = Some (c, i)"
    and renew_frame: "ok b \<Longrightarrow> RenewSlot ops t k c b = (rr, b') \<Longrightarrow> held t b' = held t b"
    and renew_who: "ok b \<Longrightarrow> RenewSlot ops t k c b = (rr, b') \<Longrightarrow> t \<le> t' \<Longrightarrow>
      held t' b' k' = Some x \<Longrightarrow> held t b k' = Some x"
    and renew_errors: "RenewSlot ops t k c b = (Inl e, b') \<Longrightarrow> e = ErrNotSlotOwner \<or> e = ErrTransport"
    and release_ok: "ok b \<Longrightarrow> ReleaseSlot ops t k c b = (rl, b') \<Longrightarrow> ok b'"
    and release_own: "ok b \<Longrightarrow> held t b k = Some (c, i) \<Longrightarrow> ReleaseSlot ops t k c b = (Inr (), b') \<Longrightarrow>
      held t b' k = None"
    and release_other: "ok b \<Longrightarrow> (\<And>i. held t b k \<noteq> Some (c, i)) \<Longrightarrow>
      ReleaseSlot ops t k c b = (rl, b') \<Longrightarrow> held t' b' = held t' b"
    and release_who: "ok b \<Longrightarrow> ReleaseSlot ops t k c b = (rl, b') \<Longrightarrow>
      held t' b' k' = Some x \<Longrightarrow> held t' b k' = Some x"
    and lookup_live: "ok b \<Longrightarrow> LookupInstance ops t k b = (Inr i, b') \<Longrightarrow>
      i = (case live t b k of None \<Rightarrow> '''' | Some (c, i') \<Rightarrow> i')"
    and lookup_frame: "ok b \<Longrightarrow> LookupInstance ops t k b = (ro, b') \<Longrightarrow> ok b' \<and> held t' b' = held t' b"
    and publish_frame: "ok b \<Longrightarrow> Publish ops inst f b = (rp, b') \<Longrightarrow> ok b' \<and> held t' b' = held t' b"
    and revocation_frame: "ok b \<Longrightarrow> PublishRevocation ops ev b = (rv, b') \<Longrightarrow> ok b' \<and> held t' b' = held t' b"

subsection \<open>Runs of backplane calls\<close>

text \<open>
  Any number of instances work on one backplane; a run is a sequence of their calls at times that do
  not decrease. \<open>bp_step ops good cx kx\<close> is one call, of any kind, for slots of a valid role and with
  identifiers in \<open>good\<close>, other than a claim of slot \<open>kx\<close> by connection \<open>cx\<close>.
\<close>

inductive bp_step ::
  "'b bp_ops \<Rightarrow> (string \<Rightarrow> string \<Rightarrow> bool) \<Rightarrow> string \<Rightarrow> slot_key \<Rightarrow> time \<Rightarrow> 'b \<Rightarrow> 'b \<Rightarrow> bool"
  for ops good cx kx t where
  claim: "role_Valid (sk_Role k) \<Longrightarrow> good c i \<Longrightarrow> (k, c) \<noteq> (kx, cx) \<Longrightarrow>
    bp_step ops good cx kx t b (snd (ClaimSlot ops t k c i b))"
| renew: "bp_step ops good cx kx t b (snd (RenewSlot ops t k c b))"
| release: "bp_step ops good cx kx t b (snd (ReleaseSlot ops t k c b))"
| lookup: "bp_step ops good cx kx t b (snd (LookupInstance ops t k b))"
| publish: "bp_step ops good cx kx t b (snd (Publish ops inst f b))"
| revocation: "bp_step ops good cx kx t b (snd (PublishRevocation ops ev b))"

inductive bp_run ::
  "'b bp_ops \<Rightarrow> (string \<Rightarrow> string \<Rightarrow> bool) \<Rightarrow> string \<Rightarrow> slot_key \<Rightarrow> time \<Rightarrow> 'b \<Rightarrow> time \<Rightarrow> 'b \<Rightarrow> bool"
  for ops good cx kx t0 b0 where
  none: "bp_run ops good cx kx t0 b0 t0 b0"
| step: "bp_run ops good cx kx t0 b0 t b \<Longrightarrow> t \<le> t' \<Longrightarrow> bp_step ops good cx kx t' b b' \<Longrightarrow>
    bp_run ops good cx kx t0 b0 t' b'"

lemma bp_run_trans:
  assumes "bp_run ops good cx kx t0 b0 t1 b1" and "bp_run ops good cx kx t1 b1 t2 b2"
  shows "bp_run ops good cx kx t0 b0 t2 b2"
  using assms(2) by induction (auto intro: assms(1) bp_run.step)

context slot_registry
begin

lemma claim_held:
  "ok b \<Longrightarrow> good_ids c i \<Longrightarrow> ClaimSlot ops t k c i b = (Inr res, b') \<Longrightarrow> held t b' k = Some (c, i)"
  by (blast dest: claim_won live_held)

lemma lookup_after_claim:
  assumes "ok b" and "good_ids c i" and "ClaimSlot ops t k c i b = (Inr res, b2)"
    and "LookupInstance ops t k b2 = (Inr i', b3)"
  shows "i' = i"
  using lookup_live [OF claim_ok [OF assms(1,3)] assms(4)] claim_won [OF assms(1-3)] by simp

lemma bp_step_ok: "bp_step ops good_ids cx kx t b b' \<Longrightarrow> ok b \<Longrightarrow> ok b'"
  by (induction rule: bp_step.induct)
     (metis claim_ok renew_ok release_ok lookup_frame publish_frame revocation_frame prod.collapse)+

text \<open>A connection that does not hold the slot, now or later, unless it claims it again.\<close>

definition out_of :: "time \<Rightarrow> 'b \<Rightarrow> string \<Rightarrow> slot_key \<Rightarrow> bool" where
  "out_of t b c k \<longleftrightarrow> (\<forall>t' i. t \<le> t' \<longrightarrow> held t' b k \<noteq> Some (c, i))"

lemma out_of_mono: "out_of t b c k \<Longrightarrow> t \<le> t' \<Longrightarrow> out_of t' b c k"
  by (auto simp: out_of_def)

lemma bp_step_out_of:
  assumes "bp_step ops good_ids cx kx t b b'" and "ok b" and "out_of t b cx kx" and "role_Valid (sk_Role kx)"
  shows "out_of t b' cx kx"
  using assms
proof (induction rule: bp_step.induct)
  case (claim k c i b)
  obtain r b' where c: "ClaimSlot ops t k c i b = (r, b')" by fastforce
  show ?case
  proof (cases "k = kx")
    case True
    with claim c claim_who [of b c i t k r b'] show ?thesis by (fastforce simp: out_of_def)
  next
    case False
    with claim c claim_frame [of b t k c i r b' kx] show ?thesis by (auto simp: out_of_def)
  qed
next
  case (renew b k c)
  then show ?case using renew_who [OF renew(1) prod.collapse [symmetric]] by (fastforce simp: out_of_def)
next
  case (release b k c)
  then show ?case using release_who [OF release(1) prod.collapse [symmetric]] by (fastforce simp: out_of_def)
next
  case (lookup b k)
  then show ?case using lookup_frame [OF lookup(1) prod.collapse [symmetric]] by (simp add: out_of_def)
next
  case (publish b inst f)
  then show ?case using publish_frame [OF publish(1) prod.collapse [symmetric]] by (simp add: out_of_def)
next
  case (revocation b ev)
  then show ?case using revocation_frame [OF revocation(1) prod.collapse [symmetric]] by (simp add: out_of_def)
qed

lemma bp_run_out_of:
  assumes "bp_run ops good_ids cx kx t0 b0 t b" and "ok b0" and "out_of t0 b0 cx kx" and "role_Valid (sk_Role kx)"
  shows "ok b \<and> out_of t b cx kx \<and> t0 \<le> t"
  using assms(1)
proof (induction rule: bp_run.induct)
  case none
  show ?case using assms(2,3) by simp
next
  case (step t b t' b')
  then show ?case using bp_step_ok bp_step_out_of assms(4) out_of_mono by (meson order_trans)
qed

text \<open>
  Newest wins, for good: while \<open>c2\<close> holds the slot, or once it has claimed it, another connection \<open>c1\<close>
  neither holds it, nor renews it, nor takes it away from whoever holds it, however the calls of all
  instances continue, until it claims again.
\<close>

lemma excluded:
  assumes "ok b" and "held t b k = Some (c2, i2)" and "c1 \<noteq> c2"
    and "role_Valid (sk_Role k)" and "bp_run ops good_ids c1 k t b t' b'"
  shows "fst (RenewSlot ops t' k c1 b') \<in> {Inl ErrNotSlotOwner, Inl ErrTransport}"
    and "held t'' (snd (ReleaseSlot ops t' k c1 b')) = held t'' b'"
    and "held t' b' k \<noteq> Some (c1, i1)"
proof -
  from assms(2,3) have "out_of t b c1 k"
    using held_lapse unfolding out_of_def by (metis option.inject prod.inject)
  from bp_run_out_of [OF assms(5,1) this assms(4)] have ok': "ok b'" and out: "out_of t' b' c1 k" by auto
  show "held t' b' k \<noteq> Some (c1, i1)" using out by (auto simp: out_of_def)
  obtain r b3 where r: "RenewSlot ops t' k c1 b' = (r, b3)" by fastforce
  have "r \<noteq> Inr ()" using renew_holder [OF ok'] r out by (fastforce simp: out_of_def)
  then obtain e where "r = Inl e" by (cases r) auto
  with renew_errors r show "fst (RenewSlot ops t' k c1 b') \<in> {Inl ErrNotSlotOwner, Inl ErrTransport}"
    by fastforce
  show "held t'' (snd (ReleaseSlot ops t' k c1 b')) = held t'' b'"
    by (rule release_other [OF ok' _ prod.collapse [symmetric]]) (use out in \<open>auto simp: out_of_def\<close>)
qed

lemma superseded:
  assumes "ok b" and "good_ids c2 i2" and "ClaimSlot ops t k c2 i2 b = (Inr res, b2)" and "c1 \<noteq> c2"
    and "role_Valid (sk_Role k)" and "bp_run ops good_ids c1 k t b2 t' b'"
  shows "fst (RenewSlot ops t' k c1 b') \<in> {Inl ErrNotSlotOwner, Inl ErrTransport}"
    and "held t' (snd (ReleaseSlot ops t' k c1 b')) = held t' b'"
    and "held t' b' k \<noteq> Some (c1, i1)"
  using excluded [OF claim_ok [OF assms(1,3)] claim_held [OF assms(1-3)] assms(4-6)] by auto

end

end
