(* ===== verification/Session.thy ===== *)
theory Session
  imports Protocol Backplane
begin

section \<open>Sessions\<close>

text \<open>
  Models \<^verbatim>\<open>internal/relay/session/session.go\<close>: the state of one connection, the operations other
  components call on it, and the bodies of its three loops as functions of one event each. The socket
  is the WebSocket library's; what it reports (a frame read, a pong, a write) is the event, and what is
  handed to it is kept in \<open>s_written\<close> and \<open>s_closeFrame\<close>.
\<close>

subsection \<open>State\<close>

record options =
  OutQueueSize :: int
  MaxMessageBytes :: int
  PingInterval :: duration
  PongTimeout :: duration

text \<open>
  \<open>s_ctxDone\<close> and \<open>s_readDone\<close> say that the two contexts are cancelled, \<open>s_closeOnce\<close> that the
  \<^verbatim>\<open>sync.Once\<close> has run, \<open>s_refreshed\<close> that the one-place channel is full. \<open>s_renewSlot\<close> is the key and
  connection of the renewal closure, \<open>s_violationHook\<close> the address the strike hook was built for.
\<close>

record session =
  s_ID :: string
  s_Claims :: claims
  s_opts :: options
  s_out :: "bytes list"
  s_ctxDone :: bool
  s_readDone :: bool
  s_closeOnce :: bool
  s_closeCode :: nat
  s_closeReason :: string
  s_expiry :: int
  s_refreshed :: bool
  s_renewSlot :: "(slot_key \<times> string) option"
  s_violationHook :: "string option"
  s_written :: "bytes list"
  s_closeFrame :: "(nat \<times> string) option"

definition session_New :: "claims \<Rightarrow> string \<Rightarrow> options \<Rightarrow> session" where
  "session_New c connID opts =
     \<lparr>s_ID = connID, s_Claims = c,
      s_opts = (if OutQueueSize opts \<le> 0 then opts\<lparr>OutQueueSize := 64\<rparr> else opts),
      s_out = [], s_ctxDone = False, s_readDone = False, s_closeOnce = False,
      s_closeCode = StatusNormalClosure, s_closeReason = '''',
      s_expiry = (case c_ExpiresAt c of Some t \<Rightarrow> Unix t | None \<Rightarrow> 0),
      s_refreshed = False, s_renewSlot = None, s_violationHook = None,
      s_written = [], s_closeFrame = None\<rparr>"

subsection \<open>Operations\<close>

definition SetSlotRenewer :: "slot_key \<times> string \<Rightarrow> session \<Rightarrow> session" where
  "SetSlotRenewer fn s = s\<lparr>s_renewSlot := Some fn\<rparr>"

definition SetProtocolViolationHook :: "string \<Rightarrow> session \<Rightarrow> session" where
  "SetProtocolViolationHook ip s = s\<lparr>s_violationHook := Some ip\<rparr>"

definition SetExpiry :: "int \<Rightarrow> session \<Rightarrow> session" where
  "SetExpiry unix s = s\<lparr>s_expiry := unix, s_refreshed := True\<rparr>"

text \<open>
  When the queue has room and the context is cancelled both communications of the \<^verbatim>\<open>select\<close> can proceed
  and the runtime picks one: \<open>pick\<close> is its choice.
\<close>

definition Enqueue :: "bool \<Rightarrow> bytes \<Rightarrow> session \<Rightarrow> bool \<times> session" where
  "Enqueue pick frame s =
     (if int (length (s_out s)) < OutQueueSize (s_opts s) \<and> (s_ctxDone s \<longrightarrow> pick)
      then (True, s\<lparr>s_out := s_out s @ [frame]\<rparr>)
      else (False, s))"

definition truncateReason :: "string \<Rightarrow> string" where
  "truncateReason r = (if length r > 123 then take 123 r else r)"

definition CloseWith :: "nat \<Rightarrow> string \<Rightarrow> session \<Rightarrow> session" where
  "CloseWith code reason s =
     (if s_closeOnce s then s
      else s\<lparr>s_closeOnce := True, s_closeCode := code, s_closeReason := reason, s_ctxDone := True,
             s_closeFrame := Some (code, truncateReason reason)\<rparr>)"

text \<open>The grace timer, or the goroutine that sent the close frame, cancels the read context.\<close>

definition closeGrace :: duration where "closeGrace = 300 * millisecond"

definition close_flushed :: "session \<Rightarrow> session" where
  "close_flushed s = (if s_closeOnce s then s\<lparr>s_readDone := True\<rparr> else s)"

definition UnixMilli :: "time \<Rightarrow> int" where
  "UnixMilli t = t div millisecond - unix_epoch * 1000"

definition SendSys :: "codec \<Rightarrow> bool \<Rightarrow> string \<Rightarrow> time \<Rightarrow> string \<Rightarrow> string \<Rightarrow> session \<Rightarrow> bool \<times> session" where
  "SendSys cd pick i now kind detail s =
     (case NewSys cd i (UnixMilli now) kind detail of
        None \<Rightarrow> (False, s)
      | Some env \<Rightarrow> (case Encode cd env of None \<Rightarrow> (False, s) | Some b \<Rightarrow> Enqueue pick b s))"

definition SendError :: "codec \<Rightarrow> bool \<Rightarrow> string \<Rightarrow> time \<Rightarrow> string \<Rightarrow> string \<Rightarrow> session \<Rightarrow> bool \<times> session" where
  "SendError cd pick i now code detail s =
     (case NewError cd i (UnixMilli now) code detail of
        None \<Rightarrow> (False, s)
      | Some env \<Rightarrow> (case Encode cd env of None \<Rightarrow> (False, s) | Some b \<Rightarrow> Enqueue pick b s))"

subsection \<open>The monitor\<close>

definition maxTimerDelay :: duration where "maxTimerDelay = 100 * 365 * 24 * hour"

definition heartbeatInterval :: "session \<Rightarrow> duration" where
  "heartbeatInterval s = (if PingInterval (s_opts s) > 0 then PingInterval (s_opts s) else 25 * second)"

definition pongWait :: "session \<Rightarrow> duration" where
  "pongWait s = (if PongTimeout (s_opts s) \<le> 0 then 25 * second else PongTimeout (s_opts s))"

definition untilExpiry :: "time \<Rightarrow> session \<Rightarrow> duration" where
  "untilExpiry now s =
     (let e = s_expiry s
      in if e \<le> 0 then maxTimerDelay
         else let d = time_Sub (time_Unix e) now in if d < 0 then millisecond else d)"

text \<open>
  The result of a renewal: the closure is absent, or it returned. Only a confirmed loss of the slot
  closes the session.
\<close>

definition renew :: "(bp_error + unit) option \<Rightarrow> session \<Rightarrow> session" where
  "renew res s =
     (case s_renewSlot s of
        None \<Rightarrow> s
      | Some _ \<Rightarrow> (if res = Some (Inl ErrNotSlotOwner) then CloseWith CloseSuperseded ''slot lost'' s else s))"

record monitor_state =
  m_missed :: nat
  m_deadline :: time
  m_running :: bool

datatype monitor_event =
  CtxDone
| PingTick bool "(bp_error + unit) option"
| Refreshed
| ExpiryFired

definition monitor_start :: "time \<Rightarrow> session \<Rightarrow> monitor_state" where
  "monitor_start now s = \<lparr>m_missed = 0, m_deadline = now + untilExpiry now s, m_running = True\<rparr>"

text \<open>
  One turn of the loop at time \<open>now\<close>. \<open>PingTick pong res\<close> is a tick whose ping was answered in time, or
  not, and \<open>res\<close> what the renewal closure returned. \<^verbatim>\<open>resetTimer\<close> drains the timer's channel, so the
  deadline alone describes the timer.
\<close>

fun monitor_turn :: "time \<Rightarrow> monitor_event \<Rightarrow> session \<times> monitor_state \<Rightarrow> session \<times> monitor_state" where
  "monitor_turn now CtxDone (s, m) = (s, m\<lparr>m_running := False\<rparr>)"
| "monitor_turn now (PingTick pong res) (s, m) =
     (if pong then (renew res s, m\<lparr>m_missed := 0\<rparr>)
      else if m_missed m + 1 \<ge> 2
           then (CloseWith StatusGoingAway ''heartbeat timeout'' s, m\<lparr>m_missed := m_missed m + 1, m_running := False\<rparr>)
           else (s, m\<lparr>m_missed := m_missed m + 1\<rparr>))"
| "monitor_turn now Refreshed (s, m) =
     (s\<lparr>s_refreshed := False\<rparr>, m\<lparr>m_deadline := now + untilExpiry now s\<rparr>)"
| "monitor_turn now ExpiryFired (s, m) =
     (if Unix now \<ge> s_expiry s \<and> s_expiry s > 0
      then (CloseWith CloseTokenExpired ''token expired'' s, m\<lparr>m_running := False\<rparr>)
      else (s, m\<lparr>m_deadline := now + untilExpiry now s\<rparr>))"

text \<open>Which communications of the \<^verbatim>\<open>select\<close> are ready; a tick may always come.\<close>

fun monitor_ready :: "time \<Rightarrow> session \<times> monitor_state \<Rightarrow> monitor_event \<Rightarrow> bool" where
  "monitor_ready now (s, m) CtxDone = s_ctxDone s"
| "monitor_ready now (s, m) (PingTick pong res) = True"
| "monitor_ready now (s, m) Refreshed = s_refreshed s"
| "monitor_ready now (s, m) ExpiryFired = (m_deadline m \<le> now)"

subsection \<open>The pumps\<close>

datatype read_event = ReadError | ReadFrame bytes

text \<open>
  What one turn of the read pump hands on: nothing more to do (the loop returns), a strike for the hook
  and return, or a decoded frame for the delegate.
\<close>

datatype read_outcome = ReadStop | ReadViolation "string option" | ReadDispatch envelope bytes

definition readPump_turn :: "codec \<Rightarrow> read_event \<Rightarrow> session \<Rightarrow> read_outcome \<times> session" where
  "readPump_turn cd ev s =
     (case ev of
        ReadError \<Rightarrow> (ReadStop, s)
      | ReadFrame data \<Rightarrow>
          (case Decode cd data (MaxMessageBytes (s_opts s)) of
             Inl derr \<Rightarrow> (ReadViolation (s_violationHook s), CloseWith CloseProtocol ''protocol error'' s)
           | Inr env \<Rightarrow> (ReadDispatch env data, s)))"

definition readLimit :: "session \<Rightarrow> int option" where
  "readLimit s = (if MaxMessageBytes (s_opts s) > 0 then Some (MaxMessageBytes (s_opts s) + 16 * 1024) else None)"

text \<open>
  One turn of the write pump: it stops once the context is cancelled and that branch is picked, else
  writes the next queued frame; \<open>ok\<close> is the outcome of the write. The flag says that the loop goes on.
\<close>

definition writePump_turn :: "bool \<Rightarrow> bool \<Rightarrow> session \<Rightarrow> bool \<times> session" where
  "writePump_turn pick ok s =
     (if s_ctxDone s \<and> (pick \<or> s_out s = []) then (False, s)
      else case s_out s of
             [] \<Rightarrow> (True, s)
           | frame # rest \<Rightarrow>
               (let s1 = s\<lparr>s_out := rest\<rparr>
                in if ok then (True, s1\<lparr>s_written := s_written s1 @ [frame]\<rparr>)
                   else (False, CloseWith CloseProtocol ''write error'' s1)))"

text \<open>\<^verbatim>\<open>Serve\<close> after the read pump has returned.\<close>

definition serve_end :: "session \<Rightarrow> session" where
  "serve_end s = s\<lparr>s_ctxDone := True, s_readDone := True\<rparr>"

subsection \<open>Well-formedness and what closing does\<close>

text \<open>
  The close frame is the recorded code and reason, present exactly when the session is closed; until
  then the code is the normal one. The queue never exceeds its capacity.
\<close>

definition session_ok :: "session \<Rightarrow> bool" where
  "session_ok s \<longleftrightarrow>
     (if s_closeOnce s
      then s_ctxDone s \<and> s_closeFrame s = Some (s_closeCode s, truncateReason (s_closeReason s))
      else s_closeCode s = StatusNormalClosure \<and> s_closeReason s = '''' \<and> s_closeFrame s = None) \<and>
     0 < OutQueueSize (s_opts s) \<and> int (length (s_out s)) \<le> OutQueueSize (s_opts s)"

definition close_view :: "session \<Rightarrow> bool \<times> nat \<times> string \<times> (nat \<times> string) option" where
  "close_view s = (s_closeOnce s, s_closeCode s, s_closeReason s, s_closeFrame s)"

lemma session_New_ok [wf_intros]: "session_ok (session_New c i opts)"
  by (simp add: session_ok_def session_New_def)

lemma CloseWith_ok [wf_intros]: "session_ok s \<Longrightarrow> session_ok (CloseWith code reason s)"
  by (auto simp: session_ok_def CloseWith_def)

lemma Enqueue_ok [wf_intros]: "session_ok s \<Longrightarrow> session_ok (snd (Enqueue pick f s))"
  by (auto simp: session_ok_def Enqueue_def)

lemma SendSys_Enqueue:
  "SendSys cd pick i t k d s = (False, s) \<or> (\<exists>b. SendSys cd pick i t k d s = Enqueue pick b s)"
  by (auto simp: SendSys_def split: option.splits)

lemma SendError_Enqueue:
  "SendError cd pick i t k d s = (False, s) \<or> (\<exists>b. SendError cd pick i t k d s = Enqueue pick b s)"
  by (auto simp: SendError_def split: option.splits)

lemma SendSys_ok [wf_intros]: "session_ok s \<Longrightarrow> session_ok (snd (SendSys cd pick i t k d s))"
  using SendSys_Enqueue [of cd pick i t k d s] Enqueue_ok by (elim disjE exE) auto

lemma SendError_ok [wf_intros]: "session_ok s \<Longrightarrow> session_ok (snd (SendError cd pick i t k d s))"
  using SendError_Enqueue [of cd pick i t k d s] Enqueue_ok by (elim disjE exE) auto

lemma setters_ok [wf_intros]:
  "session_ok s \<Longrightarrow> session_ok (SetExpiry u s)"
  "session_ok s \<Longrightarrow> session_ok (SetSlotRenewer fn s)"
  "session_ok s \<Longrightarrow> session_ok (SetProtocolViolationHook ip s)"
  "session_ok s \<Longrightarrow> session_ok (close_flushed s)"
  "session_ok s \<Longrightarrow> session_ok (serve_end s)"
  by (auto simp: session_ok_def SetExpiry_def SetSlotRenewer_def SetProtocolViolationHook_def
      close_flushed_def serve_end_def)

lemma renew_ok [wf_intros]: "session_ok s \<Longrightarrow> session_ok (renew res s)"
  by (auto simp: renew_def CloseWith_ok split: option.splits)

lemma monitor_turn_ok [wf_intros]: "session_ok s \<Longrightarrow> session_ok (fst (monitor_turn t ev (s, m)))"
  by (cases ev) (auto simp: renew_ok CloseWith_ok, auto simp: session_ok_def)

lemma readPump_turn_ok [wf_intros]: "session_ok s \<Longrightarrow> session_ok (snd (readPump_turn cd ev s))"
  by (auto simp: readPump_turn_def CloseWith_ok split: read_event.splits sum.splits)

lemma writePump_turn_ok [wf_intros]: "session_ok s \<Longrightarrow> session_ok (snd (writePump_turn pick ok s))"
  by (auto simp: writePump_turn_def CloseWith_def session_ok_def Let_def split: list.splits)

text \<open>Nothing changes the code, the reason or the frame of a session that is already closed.\<close>

lemma CloseWith_closed [simp]: "s_closeOnce s \<Longrightarrow> CloseWith code reason s = s"
  by (simp add: CloseWith_def)

lemma CloseWith_sets [simp]: "s_closeOnce (CloseWith code reason s)" "s_closeOnce s \<or> s_ctxDone (CloseWith code reason s)"
  by (simp_all add: CloseWith_def)

lemma CloseWith_open:
  "\<not> s_closeOnce s \<Longrightarrow> s_closeCode (CloseWith code reason s) = code \<and>
     s_closeFrame (CloseWith code reason s) = Some (code, truncateReason reason)"
  by (simp add: CloseWith_def)

lemma CloseWith_frame [simp]:
  "s_ID (CloseWith code reason s) = s_ID s" "s_Claims (CloseWith code reason s) = s_Claims s"
  "s_opts (CloseWith code reason s) = s_opts s" "s_out (CloseWith code reason s) = s_out s"
  "s_expiry (CloseWith code reason s) = s_expiry s" "s_refreshed (CloseWith code reason s) = s_refreshed s"
  "s_written (CloseWith code reason s) = s_written s"
  "s_renewSlot (CloseWith code reason s) = s_renewSlot s"
  by (simp_all add: CloseWith_def)

lemma Enqueue_frame [simp]:
  "s_ID (snd (Enqueue pick f s)) = s_ID s" "s_Claims (snd (Enqueue pick f s)) = s_Claims s"
  "close_view (snd (Enqueue pick f s)) = close_view s"
  "s_closeOnce (snd (Enqueue pick f s)) = s_closeOnce s"
  "s_ctxDone (snd (Enqueue pick f s)) = s_ctxDone s"
  "s_closeCode (snd (Enqueue pick f s)) = s_closeCode s"
  "s_expiry (snd (Enqueue pick f s)) = s_expiry s"
  "s_refreshed (snd (Enqueue pick f s)) = s_refreshed s"
  "s_written (snd (Enqueue pick f s)) = s_written s"
  by (simp_all add: Enqueue_def close_view_def)

lemma Send_frame [simp]:
  "s_ID (snd (SendSys cd pick i t k d s)) = s_ID s" "s_ID (snd (SendError cd pick i t k d s)) = s_ID s"
  "s_Claims (snd (SendSys cd pick i t k d s)) = s_Claims s"
  "s_Claims (snd (SendError cd pick i t k d s)) = s_Claims s"
  "close_view (snd (SendSys cd pick i t k d s)) = close_view s"
  "close_view (snd (SendError cd pick i t k d s)) = close_view s"
  using SendSys_Enqueue [of cd pick i t k d s] SendError_Enqueue [of cd pick i t k d s]
  by (elim disjE exE; simp)+

lemma truncateReason_length: "length (truncateReason r) \<le> 123"
  by (simp add: truncateReason_def)

subsection \<open>The expiry timer\<close>

text \<open>
  \<open>timer_ok\<close> at a time \<open>t\<close> not earlier than the last turn of the monitor: unless a refresh is waiting to
  be noticed, the timer of a session with an expiry is due no later than the expiry, or a millisecond
  after \<open>t\<close>.
\<close>

definition timer_ok :: "time \<Rightarrow> session \<Rightarrow> monitor_state \<Rightarrow> bool" where
  "timer_ok t s m \<longleftrightarrow>
     s_refreshed s \<or> s_expiry s \<le> 0 \<or> m_deadline m \<le> max (time_Unix (s_expiry s)) (t + millisecond)"

lemma untilExpiry_due:
  "s_expiry s \<le> 0 \<or> now + untilExpiry now s \<le> max (time_Unix (s_expiry s)) (now + millisecond)"
  by (auto simp: untilExpiry_def Let_def time_Sub_def max_def min_def min_int64_def)

lemma timer_ok_mono: "timer_ok t s m \<Longrightarrow> t \<le> t' \<Longrightarrow> timer_ok t' s m"
  by (auto simp: timer_ok_def)

lemma monitor_start_timer: "timer_ok now s (monitor_start now s)"
  using untilExpiry_due [of s now] by (auto simp: timer_ok_def monitor_start_def)

lemma renew_frame [simp]:
  "s_expiry (renew res s) = s_expiry s" "s_refreshed (renew res s) = s_refreshed s"
  "s_out (renew res s) = s_out s" "s_written (renew res s) = s_written s"
  "s_Claims (renew res s) = s_Claims s" "s_opts (renew res s) = s_opts s"
  by (auto simp: renew_def split: option.splits)

lemma monitor_turn_timer:
  "timer_ok now s m \<Longrightarrow> case_prod (timer_ok now) (monitor_turn now ev (s, m))"
  using untilExpiry_due [of s now] by (cases ev) (auto simp: timer_ok_def)

lemma monitor_turn_frame:
  "s_out (fst (monitor_turn t ev (s, m))) = s_out s"
  "s_written (fst (monitor_turn t ev (s, m))) = s_written s"
  "s_expiry (fst (monitor_turn t ev (s, m))) = s_expiry s"
  "s_Claims (fst (monitor_turn t ev (s, m))) = s_Claims s"
  by (cases ev; simp)+

lemma monitor_turn_closed:
  "s_closeOnce s \<Longrightarrow> close_view (fst (monitor_turn t ev (s, m))) = close_view s"
  by (cases ev) (auto simp: close_view_def renew_def split: option.splits)

subsection \<open>A session as a state machine\<close>

text \<open>
  The session with its loops: which of them still run, and, to state the order of delivery, the frames
  \<open>Enqueue\<close> has accepted so far. A step is a turn of one loop, a call from the hub or the server, or the
  end of the close grace; \<open>t\<close> is the wall clock.
\<close>

record live =
  l_s :: session
  l_m :: monitor_state
  l_reading :: bool
  l_writing :: bool
  l_accepted :: "bytes list"

definition serve_start :: "time \<Rightarrow> session \<Rightarrow> live" where
  "serve_start t s = \<lparr>l_s = s, l_m = monitor_start t s, l_reading = True, l_writing = True, l_accepted = []\<rparr>"

inductive session_step :: "codec \<Rightarrow> time \<Rightarrow> live \<Rightarrow> live \<Rightarrow> bool" for cd t where
  monitor: "m_running (l_m x) \<Longrightarrow> monitor_ready t (l_s x, l_m x) ev \<Longrightarrow>
    monitor_turn t ev (l_s x, l_m x) = (s', m') \<Longrightarrow> session_step cd t x (x\<lparr>l_s := s', l_m := m'\<rparr>)"
| read: "l_reading x \<Longrightarrow> readPump_turn cd ev (l_s x) = (out, s') \<Longrightarrow>
    session_step cd t x (x\<lparr>l_s := s', l_reading := (\<exists>env raw. out = ReadDispatch env raw)\<rparr>)"
| wrote: "l_writing x \<Longrightarrow> writePump_turn pick ok (l_s x) = (go, s') \<Longrightarrow>
    session_step cd t x (x\<lparr>l_s := s', l_writing := go\<rparr>)"
| enqueue: "Enqueue pick f (l_s x) = (ok, s') \<Longrightarrow>
    session_step cd t x (x\<lparr>l_s := s', l_accepted := l_accepted x @ (if ok then [f] else [])\<rparr>)"
| close: "session_step cd t x (x\<lparr>l_s := CloseWith code reason (l_s x)\<rparr>)"
| expiry: "session_step cd t x (x\<lparr>l_s := SetExpiry unix (l_s x)\<rparr>)"
| renewer: "session_step cd t x (x\<lparr>l_s := SetSlotRenewer fn (l_s x)\<rparr>)"
| flush: "session_step cd t x (x\<lparr>l_s := close_flushed (l_s x)\<rparr>)"
| serve_end: "\<not> l_reading x \<Longrightarrow> session_step cd t x (x\<lparr>l_s := serve_end (l_s x)\<rparr>)"

inductive session_run :: "codec \<Rightarrow> time \<Rightarrow> live \<Rightarrow> time \<Rightarrow> live \<Rightarrow> bool" for cd t0 x0 where
  start: "session_run cd t0 x0 t0 x0"
| step: "session_run cd t0 x0 t x \<Longrightarrow> t \<le> t' \<Longrightarrow> session_step cd t' x y \<Longrightarrow> session_run cd t0 x0 t' y"

lemma writePump_turn_frame:
  "s_expiry (snd (writePump_turn pick ok s)) = s_expiry s"
  "s_refreshed (snd (writePump_turn pick ok s)) = s_refreshed s"
  "s_closeOnce s \<Longrightarrow> close_view (snd (writePump_turn pick ok s)) = close_view s"
  by (auto simp: writePump_turn_def CloseWith_def close_view_def Let_def split: list.splits)

lemma readPump_turn_frame:
  "s_out (snd (readPump_turn cd ev s)) = s_out s"
  "s_written (snd (readPump_turn cd ev s)) = s_written s"
  "s_expiry (snd (readPump_turn cd ev s)) = s_expiry s"
  "s_refreshed (snd (readPump_turn cd ev s)) = s_refreshed s"
  "s_closeOnce s \<Longrightarrow> close_view (snd (readPump_turn cd ev s)) = close_view s"
  by (auto simp: readPump_turn_def split: read_event.splits sum.splits)

lemma writePump_turn_order:
  "writePump_turn pick ok s = (go, s') \<Longrightarrow> s_written s' @ s_out s' = s_written s @ s_out s \<or>
     (\<not> go \<and> s_written s' = s_written s)"
  by (auto simp: writePump_turn_def Let_def split: list.splits if_splits)

lemma setter_frame [simp]:
  "s_out (SetExpiry u s) = s_out s" "s_written (SetExpiry u s) = s_written s"
  "s_refreshed (SetExpiry u s)" "close_view (SetExpiry u s) = close_view s"
  "s_closeOnce (SetExpiry u s) = s_closeOnce s"
  "s_out (SetSlotRenewer fn s) = s_out s" "s_written (SetSlotRenewer fn s) = s_written s"
  "s_refreshed (SetSlotRenewer fn s) = s_refreshed s" "s_expiry (SetSlotRenewer fn s) = s_expiry s"
  "close_view (SetSlotRenewer fn s) = close_view s"
  "s_out (close_flushed s) = s_out s" "s_written (close_flushed s) = s_written s"
  "s_refreshed (close_flushed s) = s_refreshed s" "s_expiry (close_flushed s) = s_expiry s"
  "close_view (close_flushed s) = close_view s"
  "s_out (serve_end s) = s_out s" "s_written (serve_end s) = s_written s"
  "s_refreshed (serve_end s) = s_refreshed s" "s_expiry (serve_end s) = s_expiry s"
  "close_view (serve_end s) = close_view s"
  by (simp_all add: SetExpiry_def SetSlotRenewer_def close_flushed_def serve_end_def close_view_def)

text \<open>The four invariants of a step.\<close>

lemma session_step_ok: "session_step cd t x y \<Longrightarrow> session_ok (l_s x) \<Longrightarrow> session_ok (l_s y)"
proof (induction rule: session_step.induct)
  case (monitor x ev s' m')
  then show ?case using monitor_turn_ok [of "l_s x" t ev "l_m x"] by simp
next
  case (read x ev out s')
  then show ?case using readPump_turn_ok [of "l_s x" cd ev] by simp
next
  case (wrote x pick ok go s')
  then show ?case using writePump_turn_ok [of "l_s x" pick ok] by simp
next
  case (enqueue pick f x ok s')
  then show ?case using Enqueue_ok [of "l_s x" pick f] by simp
qed (simp_all add: CloseWith_ok setters_ok)

lemma session_step_closed:
  "session_step cd t x y \<Longrightarrow> s_closeOnce (l_s x) \<Longrightarrow> close_view (l_s y) = close_view (l_s x)"
proof (induction rule: session_step.induct)
  case (monitor x ev s' m')
  then show ?case using monitor_turn_closed [of "l_s x" t ev "l_m x"] by simp
next
  case (read x ev out s')
  then show ?case using readPump_turn_frame(5) [of "l_s x" cd ev] by simp
next
  case (wrote x pick ok go s')
  then show ?case using writePump_turn_frame(3) [of "l_s x" pick ok] by simp
next
  case (enqueue pick f x ok s')
  then show ?case using Enqueue_frame(3) [of pick f "l_s x"] by simp
qed simp_all

lemma session_step_timer:
  "session_step cd t x y \<Longrightarrow> timer_ok t (l_s x) (l_m x) \<Longrightarrow> timer_ok t (l_s y) (l_m y)"
proof (induction rule: session_step.induct)
  case (monitor x ev s' m')
  then show ?case using monitor_turn_timer [of t "l_s x" "l_m x" ev] by simp
next
  case (read x ev out s')
  then show ?case using readPump_turn_frame(3,4) [of cd ev "l_s x"] by (simp add: timer_ok_def)
next
  case (wrote x pick ok go s')
  then show ?case using writePump_turn_frame(1,2) [of pick ok "l_s x"] by (simp add: timer_ok_def)
next
  case (enqueue pick f x ok s')
  then show ?case using Enqueue_frame(7,8) [of pick f "l_s x"] by (simp add: timer_ok_def)
qed (simp_all add: timer_ok_def)

definition order_ok :: "live \<Rightarrow> bool" where
  "order_ok x \<longleftrightarrow> prefix (s_written (l_s x)) (l_accepted x) \<and>
     (l_writing x \<longrightarrow> l_accepted x = s_written (l_s x) @ s_out (l_s x))"

lemma session_step_order: "session_step cd t x y \<Longrightarrow> order_ok x \<Longrightarrow> order_ok y"
proof (induction rule: session_step.induct)
  case (monitor x ev s' m')
  then show ?case using monitor_turn_frame(1,2) [of t ev "l_s x" "l_m x"] by (simp add: order_ok_def)
next
  case (read x ev out s')
  then show ?case using readPump_turn_frame(1,2) [of cd ev "l_s x"] by (simp add: order_ok_def)
next
  case (wrote x pick ok go s')
  then show ?case using writePump_turn_order [of pick ok "l_s x" go s']
    by (auto simp: order_ok_def intro: prefixI [OF sym])
next
  case (enqueue pick f x ok s')
  then show ?case by (auto simp: order_ok_def Enqueue_def split: if_splits)
qed (simp_all add: order_ok_def)

lemma session_run_invariants:
  assumes "session_run cd t0 (serve_start t0 (session_New c i opts)) t x"
  shows "session_ok (l_s x)" and "timer_ok t (l_s x) (l_m x)" and "order_ok x"
  using assms
proof (induction rule: session_run.induct)
  case start
  { case 1 show ?case by (simp add: serve_start_def session_New_ok)
  next
    case 2 show ?case by (simp add: serve_start_def monitor_start_timer)
  next
    case 3 show ?case by (simp add: serve_start_def order_ok_def session_New_def) }
next
  case (step t x t' y)
  { case 1 show ?case using session_step_ok step by blast
  next
    case 2 show ?case using session_step_timer timer_ok_mono step by blast
  next
    case 3 show ?case using session_step_order step by blast }
qed

subsection \<open>Properties of a session's life\<close>

text \<open>A fresh session of the concrete token, for the witnesses.\<close>

definition ex_codec :: codec where
  "ex_codec =
     \<lparr>unmarshal_Envelope = (\<lambda>_. None), marshal_Envelope = (\<lambda>e. Some (e_Type e)),
      marshal_System = (\<lambda>k d. Some k), marshal_ErrorBody = (\<lambda>k d. Some k), unmarshal_Token = (\<lambda>_. None)\<rparr>"

definition ex_opts :: options where
  "ex_opts = \<lparr>OutQueueSize = 4, MaxMessageBytes = 100, PingInterval = 25 * second, PongTimeout = 25 * second\<rparr>"

definition ex_session :: session where
  "ex_session = session_New ex_claims ''c1'' ex_opts"

lemma ex_session_simps [simp]:
  "s_expiry ex_session = 1000000" "\<not> s_refreshed ex_session" "\<not> s_closeOnce ex_session"
  "s_out ex_session = []" "s_written ex_session = []" "OutQueueSize (s_opts ex_session) = 4"
  "\<not> s_ctxDone ex_session" "s_Claims ex_session = ex_claims" "s_ID ex_session = ''c1''"
  "s_closeCode ex_session = StatusNormalClosure"
  by (simp_all add: ex_session_def session_New_def ex_opts_def)

text \<open>
  C11. The first close wins: whatever the loops and the other components do to a closed session
  afterwards, the code and the reason it recorded and the close frame handed to the socket stay those
  of the call that closed it.
\<close>

theorem first_close_wins:
  assumes "session_run cd t0 x t y" and "s_closeOnce (l_s x)"
  shows "close_view (l_s y) = close_view (l_s x)"
  using assms(1)
proof (induction rule: session_run.induct)
  case (step t y t' z)
  from step.IH assms(2) have "s_closeOnce (l_s y)" by (simp add: close_view_def)
  from session_step_closed [OF step.hyps(3) this] step.IH show ?case by simp
qed simp

theorem first_close_wins_witness:
  "\<exists>x y. session_run ex_codec 0 x 5 y \<and> s_closeOnce (l_s x) \<and>
     l_s y = CloseWith CloseRevoked ''revoked'' (l_s x) \<and> close_view (l_s y) = close_view (l_s x)"
proof -
  let ?x = "serve_start 0 (CloseWith CloseTokenExpired ''token expired'' ex_session)"
  let ?y = "?x\<lparr>l_s := CloseWith CloseRevoked ''revoked'' (l_s ?x)\<rparr>"
  have run: "session_run ex_codec 0 ?x 5 ?y"
    by (rule session_run.step [OF session_run.start]) (simp, rule session_step.close)
  moreover have closed: "s_closeOnce (l_s ?x)" by (simp add: serve_start_def)
  moreover have "l_s ?y = CloseWith CloseRevoked ''revoked'' (l_s ?x)" by (simp add: serve_start_def)
  ultimately show ?thesis using first_close_wins [OF run closed] by blast
qed

text \<open>
  C12. A session that the loops and callers have brought to any point of its life has a queue within
  its capacity, and the close frame handed to the socket, if any, carries the recorded code, and a reason
  that fits the 123 bytes of a control frame; while nobody has closed the session, its code is the normal
  one and there is no close frame.
\<close>

theorem session_close_frame:
  assumes "session_run cd t0 (serve_start t0 (session_New c i opts)) t x"
  shows "int (length (s_out (l_s x))) \<le> OutQueueSize (s_opts (l_s x)) \<and>
    (case s_closeFrame (l_s x) of
       None \<Rightarrow> \<not> s_closeOnce (l_s x) \<and> s_closeCode (l_s x) = StatusNormalClosure
     | Some (code, reason) \<Rightarrow> s_closeOnce (l_s x) \<and> s_ctxDone (l_s x) \<and> code = s_closeCode (l_s x) \<and>
         prefix reason (s_closeReason (l_s x)) \<and> length reason \<le> 123)"
  using session_run_invariants(1) [OF assms] truncateReason_length
  by (auto simp: session_ok_def truncateReason_def take_is_prefix split: if_splits option.splits)

theorem session_close_frame_witness:
  "\<exists>x. session_run ex_codec 0 (serve_start 0 ex_session) 5 x \<and>
     s_closeFrame (l_s x) = Some (CloseRevoked, ''revoked'') \<and> s_closeCode (l_s x) = CloseRevoked"
proof -
  let ?x = "(serve_start 0 ex_session)\<lparr>l_s := CloseWith CloseRevoked ''revoked'' (l_s (serve_start 0 ex_session))\<rparr>"
  have run: "session_run ex_codec 0 (serve_start 0 ex_session) 5 ?x"
    by (rule session_run.step [OF session_run.start]) (simp, rule session_step.close)
  have frame: "s_closeFrame (l_s ?x) = Some (CloseRevoked, ''revoked'')"
    by (simp add: serve_start_def CloseWith_def truncateReason_def)
  from session_close_frame [OF run [unfolded ex_session_def]] frame run show ?thesis
    by (auto simp: ex_session_def)
qed

text \<open>
  C10. Token expiry is enforced: take any reachable session whose token expires at second \<open>e\<close> and that
  has no refresh waiting. From the instant \<open>e\<close> on, or one millisecond after the last step when that is
  later, the expiry timer has fired, and the turn of the monitor that handles it closes the session,
  with code 4003 if it was still open.
\<close>

theorem token_expiry_closes:
  assumes "session_run cd t0 (serve_start t0 (session_New c i opts)) t x"
    and "0 < s_expiry (l_s x)" and "\<not> s_refreshed (l_s x)"
    and "time_Unix (s_expiry (l_s x)) \<le> now" and "t + millisecond \<le> now"
  shows "monitor_ready now (l_s x, l_m x) ExpiryFired \<and>
    s_closeOnce (fst (monitor_turn now ExpiryFired (l_s x, l_m x))) \<and>
    (\<not> s_closeOnce (l_s x) \<longrightarrow>
      s_closeCode (fst (monitor_turn now ExpiryFired (l_s x, l_m x))) = CloseTokenExpired)"
proof -
  have "m_deadline (l_m x) \<le> max (time_Unix (s_expiry (l_s x))) (t + millisecond)"
    using session_run_invariants(2) [OF assms(1)] assms(2,3) by (simp add: timer_ok_def)
  then have "monitor_ready now (l_s x, l_m x) ExpiryFired" using assms(4,5) by simp
  moreover have "s_expiry (l_s x) \<le> Unix now" using assms(4) by (simp add: Unix_ge_iff)
  ultimately show ?thesis using assms(2) by (simp add: CloseWith_open)
qed

theorem token_expiry_closes_witness:
  "\<exists>x. session_run ex_codec 0 (serve_start 0 ex_session) 0 x \<and>
     s_closeCode (fst (monitor_turn (time_Unix 1000000) ExpiryFired (l_s x, l_m x))) = CloseTokenExpired"
proof -
  let ?x = "serve_start 0 ex_session"
  have run: "session_run ex_codec 0 ?x 0 ?x" by (rule session_run.start)
  have "l_s ?x = ex_session" by (simp add: serve_start_def)
  moreover have "0 + millisecond \<le> time_Unix 1000000" by (simp add: go_defs)
  ultimately show ?thesis
    using token_expiry_closes [OF run [unfolded ex_session_def], of "time_Unix 1000000"] run
    by (auto simp: ex_session_def [symmetric])
qed

text \<open>
  Frames leave in the order they were accepted: what the write pump has written is always a
  prefix of what \<^verbatim>\<open>Enqueue\<close> has accepted, and while the pump runs the rest is exactly the queue.
\<close>

theorem write_order:
  assumes "session_run cd t0 (serve_start t0 (session_New c i opts)) t x"
  shows "prefix (s_written (l_s x)) (l_accepted x) \<and>
    (l_writing x \<longrightarrow> l_accepted x = s_written (l_s x) @ s_out (l_s x))"
  using session_run_invariants(3) [OF assms] by (simp add: order_ok_def)

theorem write_order_witness:
  "\<exists>x. session_run ex_codec 0 (serve_start 0 ex_session) 2 x \<and> l_writing x \<and>
     s_written (l_s x) = [''one''] \<and> s_out (l_s x) = [''two''] \<and> l_accepted x = [''one'', ''two'']"
proof -
  let ?a = "(serve_start 0 ex_session)\<lparr>l_s := ex_session\<lparr>s_out := [''one'']\<rparr>, l_accepted := [] @ [''one'']\<rparr>"
  let ?b = "?a\<lparr>l_s := ex_session\<lparr>s_out := [''one'', ''two'']\<rparr>, l_accepted := [''one''] @ [''two'']\<rparr>"
  let ?c = "?b\<lparr>l_s := ex_session\<lparr>s_out := [''two''], s_written := [''one'']\<rparr>, l_writing := True\<rparr>"
  have a: "session_step ex_codec 0 (serve_start 0 ex_session) ?a"
    using session_step.enqueue [of False "''one''" "serve_start 0 ex_session" True "ex_session\<lparr>s_out := [''one'']\<rparr>"]
    by (simp add: Enqueue_def serve_start_def)
  have b: "session_step ex_codec 1 ?a ?b"
    using session_step.enqueue [of False "''two''" ?a True "ex_session\<lparr>s_out := [''one'', ''two'']\<rparr>"]
    by (simp add: Enqueue_def serve_start_def)
  have c: "session_step ex_codec 2 ?b ?c"
    by (rule session_step.wrote [of _ False True]) (simp_all add: writePump_turn_def serve_start_def)
  have run: "session_run ex_codec 0 (serve_start 0 ex_session) 2 ?c"
    by (rule session_run.step [OF session_run.step [OF session_run.step [OF session_run.start _ a] _ b] _ c]) simp_all
  from write_order [OF run [unfolded ex_session_def]] run show ?thesis
    by (intro exI [of _ ?c]) (simp add: ex_session_def [symmetric])
qed

text \<open>
  Heartbeat: a ping that is answered clears the count of missed ones and, unless the renewal
  reports a lost slot, leaves the session as it was; a single unanswered ping closes nothing; two in a
  row close an open session with code 1001 and stop the monitor, whatever came before.
\<close>

theorem heartbeat:
  "m_missed (snd (monitor_turn t (PingTick True res) (s, m))) = 0 \<and>
   (res \<noteq> Some (Inl ErrNotSlotOwner) \<longrightarrow> fst (monitor_turn t (PingTick True res) (s, m)) = s) \<and>
   (m_missed m = 0 \<longrightarrow> fst (monitor_turn t (PingTick False res) (s, m)) = s) \<and>
   (\<not> s_closeOnce s \<longrightarrow>
      (let (s1, m1) = monitor_turn t (PingTick False r1) (s, m);
           (s2, m2) = monitor_turn t' (PingTick False r2) (s1, m1)
       in s_closeCode s2 = StatusGoingAway \<and> s_closeOnce s2 \<and> \<not> m_running m2))"
  by (auto simp: renew_def CloseWith_open split: option.splits)

theorem heartbeat_witness:
  "s_closeCode (fst (monitor_turn 9 (PingTick False None)
     (monitor_turn 8 (PingTick False None) (ex_session, monitor_start 0 ex_session)))) = 1001"
  using heartbeat [of 8 None ex_session "monitor_start 0 ex_session" None 9 None]
  by (simp add: monitor_start_def StatusGoingAway_def split: prod.splits)

text \<open>
  A session that finds, when it renews, that another connection has taken its slot closes itself
  with code 4001; every other outcome of the renewal leaves it running.
\<close>

theorem lost_slot_closes:
  assumes "s_renewSlot s = Some fn" and "\<not> s_closeOnce s"
  shows "s_closeCode (fst (monitor_turn t (PingTick True (Some res)) (s, m))) =
      (if res = Inl ErrNotSlotOwner then CloseSuperseded else s_closeCode s) \<and>
    s_closeOnce (fst (monitor_turn t (PingTick True (Some res)) (s, m))) = (res = Inl ErrNotSlotOwner)"
  using assms by (simp add: renew_def CloseWith_open)

theorem lost_slot_closes_witness:
  "s_closeCode (fst (monitor_turn 9 (PingTick True (Some (Inl ErrNotSlotOwner)))
     (SetSlotRenewer (\<lparr>sk_PairID = ''p1'', sk_Role = RoleDesktop\<rparr>, ''c1'') ex_session,
      monitor_start 0 ex_session))) = 4001"
  using lost_slot_closes [of "SetSlotRenewer (\<lparr>sk_PairID = ''p1'', sk_Role = RoleDesktop\<rparr>, ''c1'') ex_session"
      "(\<lparr>sk_PairID = ''p1'', sk_Role = RoleDesktop\<rparr>, ''c1'')" 9 "Inl ErrNotSlotOwner" "monitor_start 0 ex_session"]
  by (simp add: SetSlotRenewer_def CloseSuperseded_def)

end
