(* ===== verification/Hub.thy ===== *)
theory Hub
  imports Session
begin

section \<open>The hub\<close>

text \<open>
  Models \<^verbatim>\<open>internal/relay/hub/hub.go\<close> and the refresh handler of \<^verbatim>\<open>internal/relay/server/refresh.go\<close>.
  Sessions are objects shared by pointer: \<open>h_sessions\<close> is the heap, and the index \<^verbatim>\<open>local\<close> maps a slot to
  an address. The hub is generic in the backplane, which it calls through its interface. What a call
  reads from outside comes with it: \<open>io_now n\<close>, \<open>io_id n\<close> and \<open>io_pick n\<close> are the clock, the fresh
  envelope identifier and the choice of a \<^verbatim>\<open>select\<close> at its \<open>n\<close>-th use.
\<close>

record io =
  io_now :: "nat \<Rightarrow> time"
  io_id :: "nat \<Rightarrow> string"
  io_pick :: "nat \<Rightarrow> bool"

record metrics =
  mt_ConnsActive :: "(role, int) gomap"
  mt_ConnectsTotal :: nat
  mt_SlotEvictions :: nat
  mt_PeerOffline :: nat
  mt_Revocations :: nat
  mt_MessagesRelayed :: "(string, nat) gomap"
  mt_BytesRelayed :: "(string, nat) gomap"
  mt_ForwardLatency :: nat

record 'b hub =
  h_instanceID :: string
  h_bp :: 'b
  h_sessions :: "(nat, session) gomap"
  h_local :: "(slot_key, nat) gomap"
  h_metrics :: metrics

definition gadd :: "'k \<Rightarrow> 'v :: {plus, zero} \<Rightarrow> ('k, 'v) gomap \<Rightarrow> ('k, 'v) gomap" where
  "gadd k d m = AList.update k ((case map_of m k of None \<Rightarrow> 0 | Some v \<Rightarrow> v) + d) m"

definition metrics_New :: metrics where
  "metrics_New =
     \<lparr>mt_ConnsActive = [], mt_ConnectsTotal = 0, mt_SlotEvictions = 0, mt_PeerOffline = 0,
      mt_Revocations = 0, mt_MessagesRelayed = [], mt_BytesRelayed = [], mt_ForwardLatency = 0\<rparr>"

definition hub_New :: "string \<Rightarrow> 'b \<Rightarrow> 'b hub" where
  "hub_New inst b =
     \<lparr>h_instanceID = inst, h_bp = b, h_sessions = [], h_local = [], h_metrics = metrics_New\<rparr>"

definition slotKey :: "session \<Rightarrow> slot_key" where
  "slotKey s = \<lparr>sk_PairID = c_PairID (s_Claims s), sk_Role = c_Role (s_Claims s)\<rparr>"

definition peerKey :: "session \<Rightarrow> slot_key" where
  "peerKey s = \<lparr>sk_PairID = c_PairID (s_Claims s), sk_Role = Opposite (c_Role (s_Claims s))\<rparr>"

subsection \<open>Reading and writing the heap\<close>

abbreviation sess :: "'b hub \<Rightarrow> nat \<Rightarrow> session option" where
  "sess h p \<equiv> map_of (h_sessions h) p"

definition on_session :: "nat \<Rightarrow> (session \<Rightarrow> session) \<Rightarrow> 'b hub \<Rightarrow> 'b hub" where
  "on_session p f h =
     (case sess h p of None \<Rightarrow> h | Some s \<Rightarrow> h\<lparr>h_sessions := AList.update p (f s) (h_sessions h)\<rparr>)"

definition on_metrics :: "(metrics \<Rightarrow> metrics) \<Rightarrow> 'b hub \<Rightarrow> 'b hub" where
  "on_metrics f h = h\<lparr>h_metrics := f (h_metrics h)\<rparr>"

definition send_sys :: "codec \<Rightarrow> io \<Rightarrow> nat \<Rightarrow> string \<Rightarrow> string \<Rightarrow> nat \<Rightarrow> 'b hub \<Rightarrow> 'b hub" where
  "send_sys cd io n kind detail p =
     on_session p (\<lambda>s. snd (SendSys cd (io_pick io n) (io_id io n) (io_now io n) kind detail s))"

definition send_error :: "codec \<Rightarrow> io \<Rightarrow> nat \<Rightarrow> string \<Rightarrow> string \<Rightarrow> nat \<Rightarrow> 'b hub \<Rightarrow> 'b hub" where
  "send_error cd io n code detail p =
     on_session p (\<lambda>s. snd (SendError cd (io_pick io n) (io_id io n) (io_now io n) code detail s))"

subsection \<open>Registration\<close>

definition announcePresence :: "'b bp_ops \<Rightarrow> codec \<Rightarrow> io \<Rightarrow> nat \<Rightarrow> session \<Rightarrow> 'b hub \<Rightarrow> 'b hub" where
  "announcePresence ops cd io p s h =
     (let pk = peerKey s
      in case map_of (h_local h) pk of
           Some peer \<Rightarrow> send_sys cd io 2 SysPeerOnline '''' peer (send_sys cd io 1 SysPeerOnline '''' p h)
         | None \<Rightarrow>
             (case LookupInstance ops (io_now io 1) pk (h_bp h) of
                (r, b') \<Rightarrow>
                  (let inst = (case r of Inl _ \<Rightarrow> '''' | Inr i \<Rightarrow> i); h' = h\<lparr>h_bp := b'\<rparr>
                   in if inst \<noteq> '''' \<and> inst \<noteq> h_instanceID h'
                      then send_sys cd io 2 SysPeerOnline '''' p h' else h')))"

text \<open>
  \<^verbatim>\<open>Register\<close> in two parts, the claim on the backplane and what follows it, because other goroutines can
  run in between.
\<close>

definition Register_claim :: "'b bp_ops \<Rightarrow> io \<Rightarrow> session \<Rightarrow> 'b hub \<Rightarrow> (bp_error + claim_result) \<times> 'b hub" where
  "Register_claim ops io s h =
     (case ClaimSlot ops (io_now io 0) (slotKey s) (s_ID s) (h_instanceID h) (h_bp h) of
        (r, b') \<Rightarrow> (r, h\<lparr>h_bp := b'\<rparr>))"

definition supersede :: "claim_result \<Rightarrow> slot_key \<Rightarrow> 'b hub \<Rightarrow> 'b hub" where
  "supersede res key h =
     (if cr_EvictedConnID res \<noteq> '''' \<and> cr_EvictedOnThisInstance res then
        (case map_of (h_local h) key of
           None \<Rightarrow> h
         | Some old \<Rightarrow>
             (case sess h old of
                None \<Rightarrow> h
              | Some so \<Rightarrow>
                  (if s_ID so = cr_EvictedConnID res
                   then on_metrics (\<lambda>m. m\<lparr>mt_SlotEvictions := mt_SlotEvictions m + 1\<rparr>)
                          (on_session old (CloseWith CloseSuperseded ''connected elsewhere'') h)
                   else h)))
      else h)"

definition Register_index ::
  "'b bp_ops \<Rightarrow> codec \<Rightarrow> io \<Rightarrow> nat \<Rightarrow> session \<Rightarrow> claim_result \<Rightarrow> 'b hub \<Rightarrow> 'b hub" where
  "Register_index ops cd io p s res h =
     (let key = slotKey s
      in if \<not> cr_Won res then on_session p (CloseWith CloseSuperseded ''slot in use'') h
         else
           (let h1 = supersede res key h;
                h2 = h1\<lparr>h_local := AList.update key p (h_local h1)\<rparr>;
                h3 = on_metrics (\<lambda>m. m\<lparr>mt_ConnsActive := gadd (c_Role (s_Claims s)) 1 (mt_ConnsActive m),
                                        mt_ConnectsTotal := mt_ConnectsTotal m + 1\<rparr>) h2;
                h4 = on_session p (SetSlotRenewer (key, s_ID s)) h3
            in announcePresence ops cd io p s h4))"

definition Register ::
  "'b bp_ops \<Rightarrow> codec \<Rightarrow> io \<Rightarrow> nat \<Rightarrow> session \<Rightarrow> 'b hub \<Rightarrow> (bp_error + unit) \<times> 'b hub" where
  "Register ops cd io p s h =
     (case Register_claim ops io s h of
        (Inl e, h1) \<Rightarrow> (Inl e, h1)
      | (Inr res, h1) \<Rightarrow> (Inr (), Register_index ops cd io p s res h1))"

definition Deregister :: "'b bp_ops \<Rightarrow> codec \<Rightarrow> io \<Rightarrow> nat \<Rightarrow> session \<Rightarrow> 'b hub \<Rightarrow> 'b hub" where
  "Deregister ops cd io p s h =
     (let key = slotKey s;
          wasHolder = (map_of (h_local h) key = Some p);
          h1 = (if wasHolder then h\<lparr>h_local := AList.delete key (h_local h)\<rparr> else h);
          h2 = h1\<lparr>h_bp := snd (ReleaseSlot ops (io_now io 0) key (s_ID s) (h_bp h1))\<rparr>;
          h3 = on_metrics (\<lambda>m. m\<lparr>mt_ConnsActive := gadd (c_Role (s_Claims s)) (- 1) (mt_ConnsActive m)\<rparr>) h2
      in if wasHolder then
           (case map_of (h_local h3) (peerKey s) of
              None \<Rightarrow> h3
            | Some peer \<Rightarrow> send_sys cd io 1 SysPeerOffline '''' peer h3)
         else h3)"

subsection \<open>Routing\<close>

definition recordRelay :: "string \<Rightarrow> nat \<Rightarrow> 'b hub \<Rightarrow> 'b hub" where
  "recordRelay direction n =
     on_metrics (\<lambda>m. m\<lparr>mt_MessagesRelayed := gadd direction 1 (mt_MessagesRelayed m),
                        mt_BytesRelayed := gadd direction n (mt_BytesRelayed m),
                        mt_ForwardLatency := mt_ForwardLatency m + 1\<rparr>)"

definition peer_offline :: "codec \<Rightarrow> io \<Rightarrow> nat \<Rightarrow> 'b hub \<Rightarrow> 'b hub" where
  "peer_offline cd io p h =
     on_metrics (\<lambda>m. m\<lparr>mt_PeerOffline := mt_PeerOffline m + 1\<rparr>) (send_error cd io 2 ErrPeerOffline '''' p h)"

definition Route :: "'b bp_ops \<Rightarrow> codec \<Rightarrow> io \<Rightarrow> nat \<Rightarrow> session \<Rightarrow> bytes \<Rightarrow> 'b hub \<Rightarrow> 'b hub" where
  "Route ops cd io p from raw h =
     (let pk = peerKey from; direction = ''to_'' @ sk_Role pk
      in case map_of (h_local h) pk of
           Some peer \<Rightarrow>
             (case sess h peer of
                None \<Rightarrow> h
              | Some sp \<Rightarrow>
                  (case Enqueue (io_pick io 1) raw sp of
                     (True, sp') \<Rightarrow>
                       recordRelay direction (length raw) (on_session peer (\<lambda>_. sp') h)
                   | (False, sp') \<Rightarrow>
                       peer_offline cd io p
                         (on_session peer (CloseWith CloseProtocol ''write queue overflow'') h)))
         | None \<Rightarrow>
             (case LookupInstance ops (io_now io 1) pk (h_bp h) of
                (Inl _, b') \<Rightarrow> peer_offline cd io p (h\<lparr>h_bp := b'\<rparr>)
              | (Inr inst, b') \<Rightarrow>
                  (if inst \<noteq> '''' \<and> inst \<noteq> h_instanceID h then
                     (case Publish ops inst \<lparr>rf_PairID = sk_PairID pk, rf_ToRole = sk_Role pk,
                                             rf_FromConn = s_ID from, rf_Data = raw\<rparr> b' of
                        (Inr _, b'') \<Rightarrow> recordRelay direction (length raw) (h\<lparr>h_bp := b''\<rparr>)
                      | (Inl _, b'') \<Rightarrow> peer_offline cd io p (h\<lparr>h_bp := b''\<rparr>))
                   else peer_offline cd io p (h\<lparr>h_bp := b'\<rparr>))))"

subsection \<open>The refresh handler and the delegate\<close>

definition refreshToken :: "codec \<Rightarrow> envelope \<Rightarrow> string" where
  "refreshToken cd env =
     (if e_Payload env = [] then ''''
      else case unmarshal_Token cd (e_Payload env) of None \<Rightarrow> '''' | Some tok \<Rightarrow> tok)"

definition Refresh ::
  "(string \<Rightarrow> auth_error + claims) \<Rightarrow> codec \<Rightarrow> io \<Rightarrow> nat \<Rightarrow> session \<Rightarrow> string \<Rightarrow> 'b hub \<Rightarrow> 'b hub" where
  "Refresh verify cd io p s rawToken h =
     (if rawToken = '''' then send_error cd io 1 ErrUnauthorized ''empty refresh token'' p h
      else case verify rawToken of
             Inl ae \<Rightarrow> send_error cd io 1 ErrUnauthorized (reason_string (ae_Reason ae)) p h
           | Inr claims \<Rightarrow>
               (if c_PairID claims \<noteq> c_PairID (s_Claims s) \<or> c_Role claims \<noteq> c_Role (s_Claims s) \<or>
                   c_AccountID claims \<noteq> c_AccountID (s_Claims s) \<or> c_DeviceID claims \<noteq> c_DeviceID (s_Claims s)
                then on_session p (CloseWith CloseProtocol ''refresh identity mismatch'') h
                else case c_ExpiresAt claims of
                       None \<Rightarrow> h
                     | Some e \<Rightarrow> on_session p (SetExpiry (Unix e)) h))"

definition OnFrame ::
  "'b bp_ops \<Rightarrow> (string \<Rightarrow> auth_error + claims) option \<Rightarrow> codec \<Rightarrow> io \<Rightarrow> nat \<Rightarrow> session \<Rightarrow> envelope \<Rightarrow> bytes \<Rightarrow>
     'b hub \<Rightarrow> 'b hub" where
  "OnFrame ops refresher cd io p s env raw h =
     (if e_Type env = TypeMsg \<or> e_Type env = TypeAck then Route ops cd io p s raw h
      else if e_Type env = TypeAuthRefresh then
        (case refresher of None \<Rightarrow> h | Some verify \<Rightarrow> Refresh verify cd io p s (refreshToken cd env) h)
      else h)"

subsection \<open>Events of the backplane, and draining\<close>

definition deliverLocal :: "bool \<Rightarrow> routed_frame \<Rightarrow> 'b hub \<Rightarrow> 'b hub" where
  "deliverLocal pick f h =
     (case map_of (h_local h) \<lparr>sk_PairID = rf_PairID f, sk_Role = rf_ToRole f\<rparr> of
        None \<Rightarrow> h
      | Some p \<Rightarrow> on_session p (\<lambda>s. snd (Enqueue pick (rf_Data f) s)) h)"

definition revoked_by :: "revocation_event \<Rightarrow> session \<Rightarrow> bool" where
  "revoked_by ev s \<longleftrightarrow>
     (re_PairID ev \<noteq> '''' \<and> c_PairID (s_Claims s) = re_PairID ev) \<or>
     (re_AccountID ev \<noteq> '''' \<and> c_AccountID (s_Claims s) = re_AccountID ev)"

definition revoke_one :: "revocation_event \<Rightarrow> nat \<Rightarrow> 'b hub \<Rightarrow> 'b hub" where
  "revoke_one ev p h =
     (case sess h p of
        None \<Rightarrow> h
      | Some s \<Rightarrow>
          (if revoked_by ev s
           then on_metrics (\<lambda>m. m\<lparr>mt_Revocations := mt_Revocations m + 1\<rparr>)
                  (on_session p (CloseWith CloseRevoked ''revoked'') h)
           else h))"

definition revoke :: "revocation_event \<Rightarrow> 'b hub \<Rightarrow> 'b hub" where
  "revoke ev h = fold (revoke_one ev) (mvals (h_local h)) h"

definition evictLocal :: "slot_key \<Rightarrow> 'b hub \<Rightarrow> 'b hub" where
  "evictLocal key h =
     (case map_of (h_local h) key of
        None \<Rightarrow> h
      | Some p \<Rightarrow>
          on_metrics (\<lambda>m. m\<lparr>mt_SlotEvictions := mt_SlotEvictions m + 1\<rparr>)
            (on_session p (CloseWith CloseSuperseded ''connected elsewhere'') h))"

datatype hub_event = FrameEvent routed_frame | RevocationEvent revocation_event | EvictionEvent slot_key

fun Run_turn :: "bool \<Rightarrow> hub_event \<Rightarrow> 'b hub \<Rightarrow> 'b hub" where
  "Run_turn pick (FrameEvent f) h = deliverLocal pick f h"
| "Run_turn pick (RevocationEvent ev) h = revoke ev h"
| "Run_turn pick (EvictionEvent k) h = evictLocal k h"

definition DrainNotify :: "codec \<Rightarrow> io \<Rightarrow> string \<Rightarrow> 'b hub \<Rightarrow> nat \<times> 'b hub" where
  "DrainNotify cd io detail h =
     fold (\<lambda>p (n, h). (n + 1, send_sys cd io n SysShutdown detail p h)) (mvals (h_local h)) (0, h)"

definition CloseAll :: "nat \<Rightarrow> string \<Rightarrow> 'b hub \<Rightarrow> 'b hub" where
  "CloseAll code reason h = fold (\<lambda>p. on_session p (CloseWith code reason)) (mvals (h_local h)) h"

text \<open>
  The heartbeat's renewal: the closure the hub installed, called by a session's monitor. A tick pings first:
  the slot is renewed only when the pong came, and the second unanswered ping in a row closes the session. The
  monitor's own state is the argument \<open>m\<close>.
\<close>

definition renewer :: "'b bp_ops \<Rightarrow> time \<Rightarrow> session \<Rightarrow> 'b hub \<Rightarrow> (bp_error + unit) option \<times> 'b hub" where
  "renewer ops now s h =
     (case s_renewSlot s of
        None \<Rightarrow> (None, h)
      | Some (key, connID) \<Rightarrow>
          (case RenewSlot ops now key connID (h_bp h) of (r, b') \<Rightarrow> (Some r, h\<lparr>h_bp := b'\<rparr>)))"

definition heartbeat_tick :: "'b bp_ops \<Rightarrow> time \<Rightarrow> bool \<Rightarrow> nat \<Rightarrow> monitor_state \<Rightarrow> 'b hub \<Rightarrow> monitor_state \<times> 'b hub" where
  "heartbeat_tick ops now pong p m h =
     (case sess h p of
        None \<Rightarrow> (m, h)
      | Some s \<Rightarrow>
          (case (if pong then renewer ops now s h else (None, h)) of (res, h') \<Rightarrow>
             (snd (monitor_turn now (PingTick pong res) (s, m)),
              on_session p (\<lambda>s. fst (monitor_turn now (PingTick pong res) (s, m))) h')))"


subsection \<open>Well-formedness\<close>

text \<open>
  The index maps a slot to a session object of the heap whose claims name that slot; every object is a
  well-formed session.
\<close>

definition hub_ok :: "'b hub \<Rightarrow> bool" where
  "hub_ok h \<longleftrightarrow> wf_map (h_local h) \<and> wf_map (h_sessions h) \<and>
     (\<forall>p s. sess h p = Some s \<longrightarrow> session_ok s) \<and>
     (\<forall>k p. map_of (h_local h) k = Some p \<longrightarrow> (\<exists>s. sess h p = Some s \<and> slotKey s = k))"

lemma on_session_simps [simp]:
  "h_local (on_session p f h) = h_local h" "h_bp (on_session p f h) = h_bp h"
  "h_instanceID (on_session p f h) = h_instanceID h" "h_metrics (on_session p f h) = h_metrics h"
  by (simp_all add: on_session_def split: option.splits)

lemma on_metrics_simps [simp]:
  "h_local (on_metrics g h) = h_local h" "h_bp (on_metrics g h) = h_bp h"
  "h_instanceID (on_metrics g h) = h_instanceID h" "h_sessions (on_metrics g h) = h_sessions h"
  by (simp_all add: on_metrics_def)

lemma sess_on_session [simp]:
  "sess (on_session p f h) q = (if q = p then map_option f (sess h p) else sess h q)"
  by (simp add: on_session_def split: option.splits)

lemma send_simps [simp]:
  "h_local (send_sys cd io n k d p h) = h_local h" "h_local (send_error cd io n k d p h) = h_local h"
  "h_bp (send_sys cd io n k d p h) = h_bp h" "h_bp (send_error cd io n k d p h) = h_bp h"
  "h_instanceID (send_sys cd io n k d p h) = h_instanceID h"
  "h_instanceID (send_error cd io n k d p h) = h_instanceID h"
  by (simp_all add: send_sys_def send_error_def)

lemma slotKey_cong: "s_Claims s' = s_Claims s \<Longrightarrow> slotKey s' = slotKey s"
  by (simp add: slotKey_def)

lemma hub_ok_sess: "hub_ok h \<Longrightarrow> map_of (h_local h) k = Some p \<Longrightarrow> \<exists>s. sess h p = Some s \<and> slotKey s = k"
  by (simp add: hub_ok_def)

lemma on_session_ok [wf_intros]:
  assumes "hub_ok h"
    and "\<And>s. session_ok s \<Longrightarrow> session_ok (f s)" and "\<And>s. s_Claims (f s) = s_Claims s"
  shows "hub_ok (on_session p f h)"
proof -
  have "wf_map (h_sessions (on_session p f h))"
    using assms(1) by (auto simp: hub_ok_def on_session_def split: option.splits)
  moreover have "session_ok s" if "sess (on_session p f h) q = Some s" for q s
    using that assms(1,2) by (auto simp: hub_ok_def split: if_splits)
  moreover have "\<exists>s. sess (on_session p f h) q = Some s \<and> slotKey s = k" if "map_of (h_local h) k = Some q" for k q
  proof -
    from hub_ok_sess [OF assms(1) that] obtain s where s: "sess h q = Some s" "slotKey s = k" by blast
    from assms(3) [of s] s(2) have "slotKey (f s) = k" by (simp add: slotKey_def)
    with s show ?thesis by (cases "q = p") auto
  qed
  ultimately show ?thesis using assms(1) unfolding hub_ok_def by (simp only: on_session_simps) blast
qed

lemma on_metrics_ok [wf_intros]: "hub_ok h \<Longrightarrow> hub_ok (on_metrics g h)"
  by (simp add: hub_ok_def)

lemma hub_bp_ok [wf_intros]: "hub_ok h \<Longrightarrow> hub_ok (h\<lparr>h_bp := b\<rparr>)"
  by (simp add: hub_ok_def)

lemma send_ok [wf_intros]:
  "hub_ok h \<Longrightarrow> hub_ok (send_sys cd io n k d p h)" "hub_ok h \<Longrightarrow> hub_ok (send_error cd io n k d p h)"
  unfolding send_sys_def send_error_def by (rule on_session_ok; simp add: SendSys_ok SendError_ok)+

lemma close_session_ok [wf_intros]: "hub_ok h \<Longrightarrow> hub_ok (on_session p (CloseWith code reason) h)"
  by (rule on_session_ok) (simp_all add: CloseWith_ok)

lemma set_session_ok [wf_intros]:
  "hub_ok h \<Longrightarrow> hub_ok (on_session p (SetExpiry u) h)"
  "hub_ok h \<Longrightarrow> hub_ok (on_session p (SetSlotRenewer fn) h)"
  by (auto intro!: on_session_ok simp: setters_ok, simp_all add: SetExpiry_def SetSlotRenewer_def)

lemma announcePresence_ok [wf_intros]: "hub_ok h \<Longrightarrow> hub_ok (announcePresence ops cd io p s h)"
  by (auto simp: announcePresence_def Let_def wf_intros split: option.splits prod.splits)

lemma supersede_ok [wf_intros]: "hub_ok h \<Longrightarrow> hub_ok (supersede res key h)"
  by (auto simp: supersede_def wf_intros split: option.splits)

lemma supersede_simps [simp]:
  "h_local (supersede res key h) = h_local h" "h_bp (supersede res key h) = h_bp h"
  "h_instanceID (supersede res key h) = h_instanceID h"
  by (simp_all add: supersede_def split: option.splits)

lemma sess_supersede_claims: "sess h p = Some s \<Longrightarrow> \<exists>s'. sess (supersede res key h) p = Some s' \<and> s_Claims s' = s_Claims s"
  by (auto simp: supersede_def split: option.splits)

lemma index_ok:
  assumes "hub_ok h" and "sess h p = Some s" and "slotKey s = key"
  shows "hub_ok (h\<lparr>h_local := AList.update key p (h_local h)\<rparr>)"
  using assms by (auto simp: hub_ok_def)

lemma unindex_ok: "hub_ok h \<Longrightarrow> hub_ok (h\<lparr>h_local := AList.delete key (h_local h)\<rparr>)"
  by (auto simp: hub_ok_def split: if_split_asm)

lemma Register_index_ok [wf_intros]:
  assumes "hub_ok h" and "sess h p = Some s0" and "s_Claims s0 = s_Claims s"
  shows "hub_ok (Register_index ops cd io p s res h)"
proof -
  let ?h1 = "supersede res (slotKey s) h"
  let ?h2 = "?h1\<lparr>h_local := AList.update (slotKey s) p (h_local ?h1)\<rparr>"
  obtain s1 where "sess ?h1 p = Some s1" "s_Claims s1 = s_Claims s"
    using sess_supersede_claims [OF assms(2)] assms(3) by force
  then have "hub_ok ?h2" using index_ok [OF supersede_ok [OF assms(1)]] slotKey_cong by blast
  then have "hub_ok (on_session p (SetSlotRenewer fn) (on_metrics g ?h2))" for fn g
    by (intro set_session_ok on_metrics_ok)
  then show ?thesis
    using close_session_ok [OF assms(1)] by (simp add: Register_index_def Let_def announcePresence_ok)
qed

lemma Register_ok [wf_intros]:
  assumes "hub_ok h" and "sess h p = Some s"
  shows "hub_ok (snd (Register ops cd io p s h))"
proof -
  obtain r b' where "ClaimSlot ops (io_now io 0) (slotKey s) (s_ID s) (h_instanceID h) (h_bp h) = (r, b')"
    by fastforce
  moreover have "hub_ok (Register_index ops cd io p s res (h\<lparr>h_bp := b'\<rparr>))" for res
    by (rule Register_index_ok [OF hub_bp_ok [OF assms(1)] _ refl]) (simp add: assms(2))
  ultimately show ?thesis
    using assms(1) by (cases r) (auto simp: Register_def Register_claim_def hub_bp_ok)
qed

lemma Deregister_ok [wf_intros]: "hub_ok h \<Longrightarrow> hub_ok (Deregister ops cd io p s h)"
  by (auto simp: Deregister_def Let_def wf_intros unindex_ok split: option.splits)

lemma recordRelay_simps [simp]:
  "h_local (recordRelay d n h) = h_local h" "h_sessions (recordRelay d n h) = h_sessions h"
  "h_bp (recordRelay d n h) = h_bp h"
  by (simp_all add: recordRelay_def)

lemma peer_offline_ok [wf_intros]: "hub_ok h \<Longrightarrow> hub_ok (peer_offline cd io p h)"
  by (simp add: peer_offline_def wf_intros)

lemma Route_ok [wf_intros]:
  assumes "hub_ok h"
  shows "hub_ok (Route ops cd io p s raw h)"
proof -
  have "hub_ok (on_session q (\<lambda>_. s') h)"
    if "sess h q = Some sq" "Enqueue pick raw sq = (ok, s')" for q sq s' pick ok
  proof -
    have "on_session q (\<lambda>_. s') h = on_session q (\<lambda>s. snd (Enqueue pick raw s)) h"
      using that by (simp add: on_session_def)
    then show ?thesis using on_session_ok [OF assms, of "\<lambda>s. snd (Enqueue pick raw s)" q] Enqueue_ok by simp
  qed
  then show ?thesis using assms
    by (auto simp: Route_def Let_def recordRelay_def wf_intros split: option.splits prod.splits bool.splits sum.splits)
qed

lemma Refresh_ok [wf_intros]: "hub_ok h \<Longrightarrow> hub_ok (Refresh verify cd io p s tok h)"
  by (auto simp: Refresh_def wf_intros split: sum.splits option.splits)

lemma OnFrame_ok [wf_intros]: "hub_ok h \<Longrightarrow> hub_ok (OnFrame ops r cd io p s env raw h)"
  by (auto simp: OnFrame_def wf_intros split: option.splits)

lemma deliverLocal_ok [wf_intros]: "hub_ok h \<Longrightarrow> hub_ok (deliverLocal pick f h)"
  by (auto simp: deliverLocal_def intro!: on_session_ok simp: Enqueue_ok split: option.splits)

lemma revoke_one_ok: "hub_ok h \<Longrightarrow> hub_ok (revoke_one ev p h)"
  by (auto simp: revoke_one_def wf_intros split: option.splits)

lemma fold_ok: "(\<And>p h. hub_ok h \<Longrightarrow> hub_ok (f p h)) \<Longrightarrow> hub_ok h \<Longrightarrow> hub_ok (fold f ps h)"
  by (induction ps arbitrary: h) auto

lemma revoke_ok [wf_intros]: "hub_ok h \<Longrightarrow> hub_ok (revoke ev h)"
  unfolding revoke_def by (rule fold_ok) (rule revoke_one_ok)

lemma evictLocal_ok [wf_intros]: "hub_ok h \<Longrightarrow> hub_ok (evictLocal k h)"
  by (auto simp: evictLocal_def wf_intros split: option.splits)

lemma CloseAll_ok [wf_intros]: "hub_ok h \<Longrightarrow> hub_ok (CloseAll code reason h)"
  unfolding CloseAll_def by (rule fold_ok) (rule close_session_ok)

lemma drain_fold_ok:
  "hub_ok (snd x) \<Longrightarrow> hub_ok (snd (fold (\<lambda>p (n, h). (n + 1, send_sys cd io n SysShutdown d p h)) ps x))"
  by (induction ps arbitrary: x) (auto simp: wf_intros split: prod.splits)

lemma DrainNotify_ok [wf_intros]: "hub_ok h \<Longrightarrow> hub_ok (snd (DrainNotify cd io d h))"
  unfolding DrainNotify_def by (rule drain_fold_ok) simp

lemma monitor_turn_claims: "s_Claims (fst (monitor_turn t ev (s, m))) = s_Claims s"
  by (rule monitor_turn_frame(4))

lemma heartbeat_tick_ok [wf_intros]: "hub_ok h \<Longrightarrow> hub_ok (snd (heartbeat_tick ops now pong p m h))"
  unfolding heartbeat_tick_def renewer_def
  by (auto intro!: on_session_ok simp del: monitor_turn.simps simp: monitor_turn_ok monitor_turn_claims hub_bp_ok
      split: option.splits prod.splits)


subsection \<open>The hub as a state machine\<close>

text \<open>
  A step of the instance: a connection is accepted, one of the two parts of its registration runs, it is
  deregistered, a frame of it is handled, an event of the backplane is handled, the server drains, a
  loop of a session makes a turn, or another instance changes the shared backplane. An index part may
  follow with any result of a claim, and at any time later.
\<close>

inductive hub_step :: "'b bp_ops \<Rightarrow> codec \<Rightarrow> 'b hub \<Rightarrow> 'b hub \<Rightarrow> bool" for ops cd where
  accepted: "sess h p = None \<Longrightarrow>
    hub_step ops cd h (h\<lparr>h_sessions := AList.update p (session_New c i opts) (h_sessions h)\<rparr>)"
| claimed: "sess h p = Some s \<Longrightarrow> hub_step ops cd h (snd (Register_claim ops io s h))"
| indexed: "sess h p = Some s \<Longrightarrow> hub_step ops cd h (Register_index ops cd io p s res h)"
| deregistered: "sess h p = Some s \<Longrightarrow> hub_step ops cd h (Deregister ops cd io p s h)"
| received: "sess h p = Some s \<Longrightarrow> hub_step ops cd h (OnFrame ops r cd io p s env raw h)"
| notified: "hub_step ops cd h (Run_turn pick ev h)"
| drained: "hub_step ops cd h (CloseAll code reason (snd (DrainNotify cd io d h)))"
| ticked: "hub_step ops cd h (snd (heartbeat_tick ops now pong p m h))"
| session_turn: "(\<And>s. session_ok s \<Longrightarrow> session_ok (f s)) \<Longrightarrow> (\<And>s. s_Claims (f s) = s_Claims s) \<Longrightarrow>
    hub_step ops cd h (on_session p f h)"
| elsewhere: "hub_step ops cd h (h\<lparr>h_bp := b\<rparr>)"

inductive hub_reach :: "'b bp_ops \<Rightarrow> codec \<Rightarrow> string \<Rightarrow> 'b \<Rightarrow> 'b hub \<Rightarrow> bool" for ops cd inst b where
  init: "hub_reach ops cd inst b (hub_New inst b)"
| next_state: "hub_reach ops cd inst b h \<Longrightarrow> hub_step ops cd h h' \<Longrightarrow> hub_reach ops cd inst b h'"

lemma Run_turn_ok [wf_intros]: "hub_ok h \<Longrightarrow> hub_ok (Run_turn pick ev h)"
  by (cases ev) (simp_all add: wf_intros)

lemma hub_step_ok: "hub_step ops cd h h' \<Longrightarrow> hub_ok h \<Longrightarrow> hub_ok h'"
proof (induction rule: hub_step.induct)
  case (accepted h p c i opts)
  then show ?case using session_New_ok by (fastforce simp: hub_ok_def)
next
  case (claimed h p s io)
  then show ?case by (auto simp: Register_claim_def hub_bp_ok split: prod.splits)
next
  case (indexed h p s io res)
  then show ?case using Register_index_ok by blast
next
  case (session_turn f h p)
  then show ?case by (blast intro: on_session_ok)
qed (simp_all add: wf_intros)

lemma hub_reach_ok: "hub_reach ops cd inst b h \<Longrightarrow> hub_ok h"
  by (induction rule: hub_reach.induct) (simp add: hub_New_def hub_ok_def, rule hub_step_ok)

subsection \<open>Isolation of pairs\<close>

lemma sess_peer_offline: "q \<noteq> p \<Longrightarrow> sess (peer_offline cd io p h) q = sess h q"
  by (simp add: peer_offline_def send_error_def)

lemma Route_sess:
  assumes "hub_ok h" and "sess h q = Some sq" and "slotKey sq \<noteq> peerKey from" and "q \<noteq> p"
  shows "sess (Route ops cd io p from raw h) q = Some sq"
proof (cases "map_of (h_local h) (peerKey from)")
  case None
  with assms show ?thesis
    by (auto simp: Route_def Let_def sess_peer_offline split: prod.splits sum.splits)
next
  case (Some r)
  then have "r \<noteq> q" using hub_ok_sess [OF assms(1) Some] assms(2,3) by auto
  with Some assms show ?thesis
    by (auto simp: Route_def Let_def sess_peer_offline split: option.splits prod.splits bool.splits)
qed

lemma deliverLocal_sess:
  assumes "hub_ok h" and "sess h q = Some sq" and "slotKey sq \<noteq> \<lparr>sk_PairID = rf_PairID f, sk_Role = rf_ToRole f\<rparr>"
  shows "sess (deliverLocal pick f h) q = Some sq"
proof (cases "map_of (h_local h) \<lparr>sk_PairID = rf_PairID f, sk_Role = rf_ToRole f\<rparr>")
  case (Some r)
  then have "r \<noteq> q" using hub_ok_sess [OF assms(1) Some] assms(2,3) by auto
  with Some assms show ?thesis by (simp add: deliverLocal_def)
qed (simp add: deliverLocal_def assms)

lemma revoke_one_sess:
  "sess (revoke_one ev p h) q =
     (if q = p then map_option (\<lambda>s. if revoked_by ev s then CloseWith CloseRevoked ''revoked'' s else s) (sess h p)
      else sess h q)"
  by (auto simp: revoke_one_def split: option.splits)

lemma revoked_by_CloseWith [simp]: "revoked_by ev (CloseWith code reason s) = revoked_by ev s"
  by (simp add: revoked_by_def)

lemma revoke_fold:
  "sess (fold (revoke_one ev) ps h) q =
     (if q \<in> set ps
      then map_option (\<lambda>s. if revoked_by ev s then CloseWith CloseRevoked ''revoked'' s else s) (sess h q)
      else sess h q)"
proof (induction ps arbitrary: h)
  case (Cons p ps)
  show ?case by (cases "sess h q") (auto simp: Cons revoke_one_sess)
qed simp

lemma CloseAll_fold:
  "sess (fold (\<lambda>p. on_session p (CloseWith code reason)) ps h) q =
     (if q \<in> set ps then map_option (CloseWith code reason) (sess h q) else sess h q)"
proof (induction ps arbitrary: h)
  case (Cons p ps)
  show ?case by (cases "sess h q") (auto simp: Cons)
qed simp

end
