(* ===== verification/Memory_Backplane.thy ===== *)
theory Memory_Backplane
  imports Backplane
begin

section \<open>The in-memory backplane\<close>

text \<open>
  Models \<^verbatim>\<open>internal/backplane/memory/memory.go\<close>. A buffered channel is the list of values waiting in
  it; a send in a \<^verbatim>\<open>select\<close> with a \<^verbatim>\<open>default\<close> branch drops the value when the buffer is full. The two
  mutexes make each operation atomic.
\<close>

definition try_send :: "int \<Rightarrow> 'a \<Rightarrow> 'a list \<Rightarrow> 'a list" where
  "try_send cap x q = (if int (length q) < cap then q @ [x] else q)"

record entry =
  e_connID :: string
  e_instanceID :: string
  e_expiresAt :: time

record mem_bp =
  mb_ttl :: duration
  mb_qsize :: int
  mb_slots :: "(slot_key, entry) gomap"
  mb_frames :: "(string, routed_frame list) gomap"
  mb_evictions :: "(string, slot_key list) gomap"
  mb_revs :: "(nat \<times> revocation_event list) list"
  mb_nextChan :: nat

definition mem_New :: "duration \<Rightarrow> int \<Rightarrow> mem_bp" where
  "mem_New ttl qsize =
     \<lparr>mb_ttl = ttl, mb_qsize = (if qsize \<le> 0 then 256 else qsize), mb_slots = [], mb_frames = [],
      mb_evictions = [], mb_revs = [], mb_nextChan = 0\<rparr>"

definition notifyEviction :: "string \<Rightarrow> slot_key \<Rightarrow> mem_bp \<Rightarrow> mem_bp" where
  "notifyEviction inst key b =
     (case map_of (mb_evictions b) inst of
        None \<Rightarrow> b
      | Some ch \<Rightarrow>
          b\<lparr>mb_evictions := AList.update inst (try_send (mb_qsize b) key ch) (mb_evictions b)\<rparr>)"

definition mem_ClaimSlot ::
  "time \<Rightarrow> slot_key \<Rightarrow> string \<Rightarrow> string \<Rightarrow> mem_bp \<Rightarrow> (bp_error + claim_result) \<times> mem_bp" where
  "mem_ClaimSlot now key connID instanceID b =
     (let res0 = \<lparr>cr_Won = True, cr_EvictedConnID = '''', cr_EvictedOnThisInstance = False\<rparr>;
          (res, b1) =
            (case map_of (mb_slots b) key of
               Some cur \<Rightarrow>
                 (if e_expiresAt cur > now \<and> e_connID cur \<noteq> connID then
                    (let here = (e_instanceID cur = instanceID)
                     in (res0\<lparr>cr_EvictedConnID := e_connID cur, cr_EvictedOnThisInstance := here\<rparr>,
                         if \<not> here then notifyEviction (e_instanceID cur) key b else b))
                  else (res0, b))
             | None \<Rightarrow> (res0, b))
      in (Inr res,
          b1\<lparr>mb_slots := AList.update key
               \<lparr>e_connID = connID, e_instanceID = instanceID, e_expiresAt = now + mb_ttl b1\<rparr>
               (mb_slots b1)\<rparr>))"

definition mem_RenewSlot :: "time \<Rightarrow> slot_key \<Rightarrow> string \<Rightarrow> mem_bp \<Rightarrow> (bp_error + unit) \<times> mem_bp" where
  "mem_RenewSlot now key connID b =
     (case map_of (mb_slots b) key of
        None \<Rightarrow> (Inl ErrNotSlotOwner, b)
      | Some cur \<Rightarrow>
          (if e_connID cur \<noteq> connID then (Inl ErrNotSlotOwner, b)
           else (Inr (), b\<lparr>mb_slots :=
                   AList.update key (cur\<lparr>e_expiresAt := now + mb_ttl b\<rparr>) (mb_slots b)\<rparr>)))"

definition mem_ReleaseSlot :: "time \<Rightarrow> slot_key \<Rightarrow> string \<Rightarrow> mem_bp \<Rightarrow> (bp_error + unit) \<times> mem_bp" where
  "mem_ReleaseSlot now key connID b =
     (case map_of (mb_slots b) key of
        Some cur \<Rightarrow>
          (if e_connID cur = connID then (Inr (), b\<lparr>mb_slots := AList.delete key (mb_slots b)\<rparr>)
           else (Inr (), b))
      | None \<Rightarrow> (Inr (), b))"

definition mem_LookupInstance :: "time \<Rightarrow> slot_key \<Rightarrow> mem_bp \<Rightarrow> (bp_error + string) \<times> mem_bp" where
  "mem_LookupInstance now key b =
     (case map_of (mb_slots b) key of
        Some cur \<Rightarrow> (if e_expiresAt cur > now then (Inr (e_instanceID cur), b) else (Inr '''', b))
      | None \<Rightarrow> (Inr '''', b))"

definition mem_Publish :: "string \<Rightarrow> routed_frame \<Rightarrow> mem_bp \<Rightarrow> (bp_error + unit) \<times> mem_bp" where
  "mem_Publish inst f b =
     (case map_of (mb_frames b) inst of
        None \<Rightarrow> (Inr (), b)
      | Some ch \<Rightarrow>
          (Inr (), b\<lparr>mb_frames := AList.update inst (try_send (mb_qsize b) f ch) (mb_frames b)\<rparr>))"

definition mem_SubscribeFrames :: "string \<Rightarrow> mem_bp \<Rightarrow> mem_bp" where
  "mem_SubscribeFrames inst b = b\<lparr>mb_frames := AList.update inst [] (mb_frames b)\<rparr>"

definition mem_UnsubscribeFrames :: "string \<Rightarrow> mem_bp \<Rightarrow> mem_bp" where
  "mem_UnsubscribeFrames inst b = b\<lparr>mb_frames := AList.delete inst (mb_frames b)\<rparr>"

definition mem_SubscribeEvictions :: "string \<Rightarrow> mem_bp \<Rightarrow> mem_bp" where
  "mem_SubscribeEvictions inst b = b\<lparr>mb_evictions := AList.update inst [] (mb_evictions b)\<rparr>"

definition mem_UnsubscribeEvictions :: "string \<Rightarrow> mem_bp \<Rightarrow> mem_bp" where
  "mem_UnsubscribeEvictions inst b = b\<lparr>mb_evictions := AList.delete inst (mb_evictions b)\<rparr>"

text \<open>A revocation subscriber is identified by its channel, here a number never reused.\<close>

definition mem_SubscribeRevocations :: "mem_bp \<Rightarrow> nat \<times> mem_bp" where
  "mem_SubscribeRevocations b =
     (mb_nextChan b, b\<lparr>mb_revs := mb_revs b @ [(mb_nextChan b, [])], mb_nextChan := Suc (mb_nextChan b)\<rparr>)"

definition mem_UnsubscribeRevocations :: "nat \<Rightarrow> mem_bp \<Rightarrow> mem_bp" where
  "mem_UnsubscribeRevocations ch b = b\<lparr>mb_revs := AList.delete_aux ch (mb_revs b)\<rparr>"

definition mem_PublishRevocation :: "revocation_event \<Rightarrow> mem_bp \<Rightarrow> (bp_error + unit) \<times> mem_bp" where
  "mem_PublishRevocation ev b =
     (Inr (), b\<lparr>mb_revs := map (\<lambda>(ch, q). (ch, try_send (mb_qsize b) ev q)) (mb_revs b)\<rparr>)"

definition mem_ops :: "mem_bp bp_ops" where
  "mem_ops =
     \<lparr>ClaimSlot = mem_ClaimSlot, RenewSlot = mem_RenewSlot, ReleaseSlot = mem_ReleaseSlot,
      LookupInstance = mem_LookupInstance, Publish = mem_Publish,
      PublishRevocation = mem_PublishRevocation\<rparr>"

subsection \<open>The contract holds\<close>

definition mem_ok :: "mem_bp \<Rightarrow> bool" where
  "mem_ok b \<longleftrightarrow> 0 < mb_ttl b \<and> 0 < mb_qsize b \<and> wf_map (mb_slots b)"

definition mem_held :: "time \<Rightarrow> mem_bp \<Rightarrow> slot_key \<Rightarrow> (string \<times> string) option" where
  "mem_held t b k = map_option (\<lambda>e. (e_connID e, e_instanceID e)) (map_of (mb_slots b) k)"

definition mem_live :: "time \<Rightarrow> mem_bp \<Rightarrow> slot_key \<Rightarrow> (string \<times> string) option" where
  "mem_live t b k =
     (case map_of (mb_slots b) k of
        Some e \<Rightarrow> (if e_expiresAt e > t then Some (e_connID e, e_instanceID e) else None)
      | None \<Rightarrow> None)"

lemmas mem_bp_defs = mem_ok_def mem_held_def mem_live_def mem_ClaimSlot_def mem_RenewSlot_def
  mem_ReleaseSlot_def mem_LookupInstance_def mem_Publish_def mem_PublishRevocation_def

lemma notifyEviction_simps [simp]:
  "mb_slots (notifyEviction i k b) = mb_slots b" "mb_ttl (notifyEviction i k b) = mb_ttl b"
  "mb_qsize (notifyEviction i k b) = mb_qsize b" "mb_frames (notifyEviction i k b) = mb_frames b"
  "mb_revs (notifyEviction i k b) = mb_revs b"
  by (simp_all add: notifyEviction_def split: option.splits)

lemma mem_ClaimSlot_slots:
  "mem_ClaimSlot t k c i b = (r, b') \<Longrightarrow>
     mb_slots b' = AList.update k \<lparr>e_connID = c, e_instanceID = i, e_expiresAt = t + mb_ttl b\<rparr> (mb_slots b)
     \<and> mb_ttl b' = mb_ttl b \<and> mb_qsize b' = mb_qsize b"
  by (auto simp: mem_ClaimSlot_def Let_def split: option.splits if_splits)

lemma mem_ClaimSlot_res:
  "mem_ClaimSlot t k c i b = (r, b') \<Longrightarrow>
     r = Inr (case mem_live t b k of
                Some (c', i') \<Rightarrow>
                  (if c' \<noteq> c then \<lparr>cr_Won = True, cr_EvictedConnID = c', cr_EvictedOnThisInstance = (i' = i)\<rparr>
                   else \<lparr>cr_Won = True, cr_EvictedConnID = '''', cr_EvictedOnThisInstance = False\<rparr>)
              | None \<Rightarrow> \<lparr>cr_Won = True, cr_EvictedConnID = '''', cr_EvictedOnThisInstance = False\<rparr>)"
  by (auto simp: mem_ClaimSlot_def mem_live_def Let_def split: option.splits if_splits)

lemma mem_ClaimSlot_Inr: "\<exists>res. mem_ClaimSlot t k c i b = (Inr res, snd (mem_ClaimSlot t k c i b))"
  using mem_ClaimSlot_res [of t k c i b] by (cases "mem_ClaimSlot t k c i b") simp

lemma mem_ops_simps [simp]:
  "ClaimSlot mem_ops = mem_ClaimSlot" "RenewSlot mem_ops = mem_RenewSlot"
  "ReleaseSlot mem_ops = mem_ReleaseSlot" "LookupInstance mem_ops = mem_LookupInstance"
  "Publish mem_ops = mem_Publish" "PublishRevocation mem_ops = mem_PublishRevocation"
  by (simp_all add: mem_ops_def)

interpretation mem: slot_registry mem_ops mem_ok mem_held mem_live "\<lambda>_ _. True"
proof (unfold_locales, unfold mem_ops_simps, goal_cases)
  case (1 t b k x)
  then show ?case by (auto simp: mem_live_def mem_held_def split: option.splits if_splits)
next
  case (2 t' b k x t)
  then show ?case by (simp add: mem_held_def)
next
  case (3 b t k c i r b')
  then show ?case by (auto simp: mem_ok_def dest!: mem_ClaimSlot_slots)
next
  case (4 b c i t k res b')
  from mem_ClaimSlot_res [OF 4(3)] mem_ClaimSlot_slots [OF 4(3)] 4(1) show ?case
    by (auto simp: mem_live_def mem_ok_def split: option.splits if_splits)
next
  case (5 b t k c i r b' k' t')
  then show ?case by (auto simp: mem_held_def dest!: mem_ClaimSlot_slots)
next
  case (6 b c i t k r b' t' x)
  then show ?case by (auto simp: mem_held_def dest!: mem_ClaimSlot_slots)
next
  case (7 b t k c i res b' c' i')
  then show ?case by (auto dest!: mem_ClaimSlot_res)
next
  case (8 b t k c i res b')
  then show ?case by (auto dest!: mem_ClaimSlot_res split: option.splits if_splits)
next
  case (9 b t k c r b')
  then show ?case by (auto simp: mem_ok_def mem_RenewSlot_def split: option.splits if_splits)
next
  case (10 b t k c b')
  then show ?case by (auto simp: mem_bp_defs split: option.splits if_splits)
next
  case (11 b t k c r b')
  then show ?case by (auto simp: mem_bp_defs fun_eq_iff split: option.splits if_splits)
next
  case (12 b t k c r b' t' k' x)
  then show ?case by (auto simp: mem_bp_defs split: option.splits if_splits)
next
  case (13 t k c b e b')
  then show ?case by (auto simp: mem_bp_defs split: option.splits if_splits)
next
  case (14 b t k c r b')
  then show ?case by (auto simp: mem_ok_def mem_ReleaseSlot_def split: option.splits if_splits)
next
  case (15 b t k c i b')
  then show ?case by (auto simp: mem_bp_defs split: option.splits if_splits)
next
  case (16 b t k c r b' t')
  then show ?case by (auto simp: mem_bp_defs split: option.splits if_splits)
next
  case (17 b t k c r b' t' k' x)
  then show ?case by (auto simp: mem_bp_defs split: option.splits if_splits)
next
  case (18 b t k i b')
  then show ?case by (auto simp: mem_bp_defs split: option.splits if_splits)
next
  case (19 b t k r b' t')
  then show ?case by (auto simp: mem_bp_defs split: option.splits if_splits)
next
  case (20 b inst f r b' t')
  then show ?case by (auto simp: mem_bp_defs split: option.splits)
next
  case (21 b ev r b' t')
  then show ?case by (auto simp: mem_bp_defs)
qed


subsection \<open>Properties\<close>

lemma mem_RenewSlot_error: "mem_RenewSlot t k c b = (Inl e, b') \<Longrightarrow> e = ErrNotSlotOwner"
  by (auto simp: mem_RenewSlot_def split: option.splits if_splits)

text \<open>
  C3. Newest wins on the in-memory backplane: after connection \<open>c2\<close> has claimed a slot, and whatever
  calls any instance makes afterwards, a connection \<open>c1\<close> other than \<open>c2\<close> that does not claim the slot again
  is told that it is not the owner when it renews, is never recorded as the holder, and releasing the
  slot takes nothing from whoever holds it.
\<close>

theorem mem_newest_wins:
  assumes "mem_ok b" and "mem_ClaimSlot t k c2 i2 b = (Inr res, b2)" and "c1 \<noteq> c2"
    and "role_Valid (sk_Role k)" and "bp_run mem_ops (\<lambda>_ _. True) c1 k t b2 t' b'"
  shows "fst (mem_RenewSlot t' k c1 b') = Inl ErrNotSlotOwner \<and>
    mem_held t' (snd (mem_ReleaseSlot t' k c1 b')) = mem_held t' b' \<and>
    (\<forall>i1. mem_held t' b' k \<noteq> Some (c1, i1))"
proof -
  note s = mem.superseded [OF assms(1) TrueI assms(2) [folded mem_ops_simps(1)] assms(3-5)]
  have "fst (mem_RenewSlot t' k c1 b') = Inl ErrNotSlotOwner"
    using s(1) mem_RenewSlot_error [of t' k c1 b'] by (cases "mem_RenewSlot t' k c1 b'") auto
  with s(2,3) show ?thesis by simp
qed

definition ex_key :: slot_key where "ex_key = \<lparr>sk_PairID = ''p1'', sk_Role = RoleMobile\<rparr>"

lemma ex_key_role [simp]: "role_Valid (sk_Role ex_key)" "sk_Role ex_key = RoleMobile" "sk_PairID ex_key = ''p1''"
  by (simp_all add: ex_key_def role_Valid_def)

theorem mem_newest_wins_witness:
  "let b1 = snd (mem_ClaimSlot 10 ex_key ''c1'' ''i1'' (mem_New 60 8));
       b2 = snd (mem_ClaimSlot 20 ex_key ''c2'' ''i2'' b1);
       b3 = snd (mem_RenewSlot 30 ex_key ''c2'' b2)
   in fst (mem_RenewSlot 30 ex_key ''c1'' b3) = Inl ErrNotSlotOwner \<and>
      mem_held 30 (snd (mem_ReleaseSlot 30 ex_key ''c1'' b3)) ex_key = Some (''c2'', ''i2'')"
proof -
  define b1 where "b1 = snd (mem_ClaimSlot 10 ex_key ''c1'' ''i1'' (mem_New 60 8))"
  define b2 where "b2 = snd (mem_ClaimSlot 20 ex_key ''c2'' ''i2'' b1)"
  define b3 where "b3 = snd (mem_RenewSlot 30 ex_key ''c2'' b2)"
  have ok: "mem_ok b1" by (simp add: b1_def mem_ClaimSlot_def mem_New_def mem_ok_def)
  obtain res where claim: "mem_ClaimSlot 20 ex_key ''c2'' ''i2'' b1 = (Inr res, b2)"
    using mem_ClaimSlot_Inr [of 20 ex_key "''c2''" "''i2''" b1] unfolding b2_def by blast
  have "bp_step mem_ops (\<lambda>_ _. True) ''c1'' ex_key 30 b2 b3"
    using bp_step.renew [of mem_ops "\<lambda>_ _. True" "''c1''" ex_key 30 b2 ex_key "''c2''"] by (simp add: b3_def)
  then have run: "bp_run mem_ops (\<lambda>_ _. True) ''c1'' ex_key 20 b2 30 b3"
    by (rule bp_run.step [OF bp_run.none, rotated]) simp
  have "mem_held 30 b3 ex_key = Some (''c2'', ''i2'')"
    by (simp add: b3_def b2_def b1_def mem_bp_defs mem_New_def)
  with mem_newest_wins [OF ok claim _ _ run] show ?thesis
    by (simp add: b1_def b2_def b3_def Let_def)
qed

text \<open>
  The look-up of the in-memory backplane finds the instance of the newest claim for exactly the
  time-to-live: after a claim at \<open>t\<close>, a look-up before \<open>t + ttl\<close> returns the claiming instance, and one at
  or after that returns nothing.
\<close>

theorem mem_lookup_after_claim:
  assumes "mem_ClaimSlot t k c i b = (r, b')"
  shows "fst (mem_LookupInstance t' k b') = Inr (if t' < t + mb_ttl b then i else '''')"
  using mem_ClaimSlot_slots [OF assms] by (simp add: mem_LookupInstance_def)

theorem mem_lookup_after_claim_witness:
  "fst (mem_LookupInstance 69 ex_key (snd (mem_ClaimSlot 10 ex_key ''c1'' ''i1'' (mem_New 60 8)))) = Inr ''i1''"
  using mem_lookup_after_claim [of 10 ex_key "''c1''" "''i1''" "mem_New 60 8"
      "fst (mem_ClaimSlot 10 ex_key ''c1'' ''i1'' (mem_New 60 8))"
      "snd (mem_ClaimSlot 10 ex_key ''c1'' ''i1'' (mem_New 60 8))" 69]
  by (simp add: mem_New_def)

end
