(* ===== verification/Redis_Backplane.thy ===== *)
theory Redis_Backplane
  imports Memory_Backplane
begin

section \<open>The Redis backplane\<close>

text \<open>
  Models \<^verbatim>\<open>internal/backplane/redis/redis.go\<close>: the three Lua scripts, the Go operations around them and
  the subscription pumps. The Redis server is not part of the repository: its commands are the record
  \<open>redis_api\<close> that every definition takes, and the locale \<open>redis_server\<close> states what the commands are
  documented to do. A network call may fail before or after the server has executed it; the state
  carries the outcomes of the calls to come.
\<close>

datatype redis_msg = MsgFrame routed_frame | MsgRevocation revocation_event | MsgEvict slot_key

record 'r redis_api =
  GET :: "time \<Rightarrow> string \<Rightarrow> 'r \<Rightarrow> string option"
  SET_PX :: "time \<Rightarrow> string \<Rightarrow> string \<Rightarrow> int \<Rightarrow> 'r \<Rightarrow> 'r option"
  PEXPIRE :: "time \<Rightarrow> string \<Rightarrow> int \<Rightarrow> 'r \<Rightarrow> 'r"
  DEL :: "time \<Rightarrow> string \<Rightarrow> 'r \<Rightarrow> 'r"
  PUBLISH :: "string \<Rightarrow> redis_msg \<Rightarrow> 'r \<Rightarrow> 'r"

datatype net = Delivered | RequestLost | ReplyLost

record 'r redis_bp =
  rb_db :: 'r
  rb_ttl :: duration
  rb_net :: "net list"

definition slotPrefix :: string where "slotPrefix = ''slot:''"
definition routePrefix :: string where "routePrefix = ''route:''"
definition evictPrefix :: string where "evictPrefix = ''evict:''"
definition revocationChan :: string where "revocationChan = ''revocations''"

definition slotRedisKey :: "slot_key \<Rightarrow> string" where
  "slotRedisKey k = slotPrefix @ SlotKey_String k"

definition slotValue :: "string \<Rightarrow> string \<Rightarrow> string" where
  "slotValue instanceID connID = instanceID @ CHR ''|'' # connID"

definition splitSlotValue :: "string \<Rightarrow> string \<times> string" where
  "splitSlotValue v =
     (case Cut CHR ''|'' v of (a, b, found) \<Rightarrow> if found then (a, b) else ('''', v))"

definition Milliseconds :: "duration \<Rightarrow> int" where
  "Milliseconds d = sgn d * (\<bar>d\<bar> div millisecond)"

subsection \<open>The Lua scripts\<close>

text \<open>
  \<^verbatim>\<open>string.find(cur, '|', 1, true)\<close> is the first position of the separator; when there is none the
  script fails on the arithmetic with \<^verbatim>\<open>nil\<close>, as it does when \<^verbatim>\<open>redis.call\<close> raises, and the result is
  \<open>None\<close>.
\<close>

definition claimScript ::
  "'r redis_api \<Rightarrow> time \<Rightarrow> string \<Rightarrow> string \<Rightarrow> int \<Rightarrow> string \<Rightarrow> 'r \<Rightarrow> ((string \<times> string) \<times> 'r) option"
where
  "claimScript api t key val ttlMs conn db =
     (case (case GET api t key db of
              None \<Rightarrow> Some ('''', '''')
            | Some cur \<Rightarrow>
                (case Cut CHR ''|'' cur of
                   (curInst, curConn, found) \<Rightarrow>
                     (if \<not> found then None
                      else if curConn \<noteq> conn then Some (curConn, curInst)
                      else Some ('''', '''')))) of
        None \<Rightarrow> None
      | Some evicted \<Rightarrow>
          (case SET_PX api t key val ttlMs db of
             None \<Rightarrow> None
           | Some db' \<Rightarrow> Some (evicted, db')))"

definition renewScript ::
  "'r redis_api \<Rightarrow> time \<Rightarrow> string \<Rightarrow> string \<Rightarrow> int \<Rightarrow> 'r \<Rightarrow> (int \<times> 'r) option" where
  "renewScript api t key conn ttlMs db =
     (case GET api t key db of
        None \<Rightarrow> Some (0, db)
      | Some cur \<Rightarrow>
          (case Cut CHR ''|'' cur of
             (curInst, curConn, found) \<Rightarrow>
               (if \<not> found then None
                else if curConn = conn then Some (1, PEXPIRE api t key ttlMs db)
                else Some (0, db))))"

definition releaseScript ::
  "'r redis_api \<Rightarrow> time \<Rightarrow> string \<Rightarrow> string \<Rightarrow> 'r \<Rightarrow> (int \<times> 'r) option" where
  "releaseScript api t key conn db =
     (case GET api t key db of
        None \<Rightarrow> Some (1, db)
      | Some cur \<Rightarrow>
          (case Cut CHR ''|'' cur of
             (curInst, curConn, found) \<Rightarrow>
               (if \<not> found then None
                else if curConn = conn then Some (1, DEL api t key db)
                else Some (1, db))))"

subsection \<open>The operations\<close>

text \<open>One network round trip that runs \<open>f\<close> on the server.\<close>

definition next_net :: "'r redis_bp \<Rightarrow> net" where
  "next_net b = (case rb_net b of [] \<Rightarrow> Delivered | n # _ \<Rightarrow> n)"

definition call :: "('r \<Rightarrow> ('a \<times> 'r) option) \<Rightarrow> 'r redis_bp \<Rightarrow> 'a option \<times> 'r redis_bp" where
  "call f b =
     (let b' = b\<lparr>rb_net := tl (rb_net b)\<rparr>
      in case next_net b of
           RequestLost \<Rightarrow> (None, b')
         | ReplyLost \<Rightarrow>
             (None, case f (rb_db b) of None \<Rightarrow> b' | Some (_, db') \<Rightarrow> b'\<lparr>rb_db := db'\<rparr>)
         | Delivered \<Rightarrow>
             (case f (rb_db b) of None \<Rightarrow> (None, b') | Some (x, db') \<Rightarrow> (Some x, b'\<lparr>rb_db := db'\<rparr>)))"

definition publishJSON ::
  "'r redis_api \<Rightarrow> string \<Rightarrow> redis_msg \<Rightarrow> 'r redis_bp \<Rightarrow> (bp_error + unit) \<times> 'r redis_bp" where
  "publishJSON api chan m b =
     (case call (\<lambda>db. Some ((), PUBLISH api chan m db)) b of
        (None, b') \<Rightarrow> (Inl ErrTransport, b')
      | (Some _, b') \<Rightarrow> (Inr (), b'))"

definition redis_ClaimSlot ::
  "'r redis_api \<Rightarrow> time \<Rightarrow> slot_key \<Rightarrow> string \<Rightarrow> string \<Rightarrow> 'r redis_bp \<Rightarrow>
     (bp_error + claim_result) \<times> 'r redis_bp" where
  "redis_ClaimSlot api now key connID instanceID b =
     (case call (claimScript api now (slotRedisKey key) (slotValue instanceID connID)
                   (Milliseconds (rb_ttl b)) connID) b of
        (None, b1) \<Rightarrow> (Inl ErrUnavailable, b1)
      | (Some (evictedConn, evictedInst), b1) \<Rightarrow>
          (if evictedConn \<noteq> '''' then
             (let here = (evictedInst = instanceID);
                  b2 = (if \<not> here then snd (publishJSON api (evictPrefix @ evictedInst) (MsgEvict key) b1)
                        else b1)
              in (Inr \<lparr>cr_Won = True, cr_EvictedConnID = evictedConn, cr_EvictedOnThisInstance = here\<rparr>, b2))
           else (Inr \<lparr>cr_Won = True, cr_EvictedConnID = evictedConn, cr_EvictedOnThisInstance = False\<rparr>, b1)))"

definition redis_RenewSlot ::
  "'r redis_api \<Rightarrow> time \<Rightarrow> slot_key \<Rightarrow> string \<Rightarrow> 'r redis_bp \<Rightarrow> (bp_error + unit) \<times> 'r redis_bp" where
  "redis_RenewSlot api now key connID b =
     (case call (renewScript api now (slotRedisKey key) connID (Milliseconds (rb_ttl b))) b of
        (None, b1) \<Rightarrow> (Inl ErrTransport, b1)
      | (Some n, b1) \<Rightarrow> (if n = 0 then (Inl ErrNotSlotOwner, b1) else (Inr (), b1)))"

definition redis_ReleaseSlot ::
  "'r redis_api \<Rightarrow> time \<Rightarrow> slot_key \<Rightarrow> string \<Rightarrow> 'r redis_bp \<Rightarrow> (bp_error + unit) \<times> 'r redis_bp" where
  "redis_ReleaseSlot api now key connID b =
     (case call (releaseScript api now (slotRedisKey key) connID) b of
        (None, b1) \<Rightarrow> (Inl ErrTransport, b1)
      | (Some _, b1) \<Rightarrow> (Inr (), b1))"

definition redis_LookupInstance ::
  "'r redis_api \<Rightarrow> time \<Rightarrow> slot_key \<Rightarrow> 'r redis_bp \<Rightarrow> (bp_error + string) \<times> 'r redis_bp" where
  "redis_LookupInstance api now key b =
     (case call (\<lambda>db. Some (GET api now (slotRedisKey key) db, db)) b of
        (None, b1) \<Rightarrow> (Inl ErrTransport, b1)
      | (Some None, b1) \<Rightarrow> (Inr '''', b1)
      | (Some (Some v), b1) \<Rightarrow> (Inr (fst (splitSlotValue v)), b1))"

definition redis_Publish ::
  "'r redis_api \<Rightarrow> string \<Rightarrow> routed_frame \<Rightarrow> 'r redis_bp \<Rightarrow> (bp_error + unit) \<times> 'r redis_bp" where
  "redis_Publish api inst f b = publishJSON api (routePrefix @ inst) (MsgFrame f) b"

definition redis_PublishRevocation ::
  "'r redis_api \<Rightarrow> revocation_event \<Rightarrow> 'r redis_bp \<Rightarrow> (bp_error + unit) \<times> 'r redis_bp" where
  "redis_PublishRevocation api ev b = publishJSON api revocationChan (MsgRevocation ev) b"

definition redis_ops :: "'r redis_api \<Rightarrow> 'r redis_bp bp_ops" where
  "redis_ops api =
     \<lparr>ClaimSlot = redis_ClaimSlot api, RenewSlot = redis_RenewSlot api,
      ReleaseSlot = redis_ReleaseSlot api, LookupInstance = redis_LookupInstance api,
      Publish = redis_Publish api, PublishRevocation = redis_PublishRevocation api\<rparr>"

text \<open>
  One message handled by a subscription's \<^verbatim>\<open>pump\<close>: decoded, dropped when it does not decode or when
  the hub's channel (256 entries) is full.
\<close>

definition pump_step :: "(redis_msg \<Rightarrow> 'a option) \<Rightarrow> redis_msg \<Rightarrow> 'a list \<Rightarrow> 'a list" where
  "pump_step decode m out = (case decode m of None \<Rightarrow> out | Some v \<Rightarrow> try_send 256 v out)"

fun decode_frame :: "redis_msg \<Rightarrow> routed_frame option" where
  "decode_frame (MsgFrame f) = Some f" | "decode_frame _ = None"

fun decode_revocation :: "redis_msg \<Rightarrow> revocation_event option" where
  "decode_revocation (MsgRevocation ev) = Some ev" | "decode_revocation _ = None"

fun decode_eviction :: "redis_msg \<Rightarrow> slot_key option" where
  "decode_eviction (MsgEvict k) =
     (if sk_Role k \<noteq> RoleMobile \<and> sk_Role k \<noteq> RoleDesktop then None else Some k)"
| "decode_eviction _ = None"

subsection \<open>Slot values\<close>

lemma splitSlotValue_slotValue: "CHR ''|'' \<notin> set i \<Longrightarrow> splitSlotValue (slotValue i c) = (i, c)"
  by (simp add: splitSlotValue_def slotValue_def Cut_append)

lemma slotRedisKey_inj:
  "role_Valid (sk_Role a) \<Longrightarrow> role_Valid (sk_Role b) \<Longrightarrow> slotRedisKey a = slotRedisKey b \<longleftrightarrow> a = b"
  by (auto simp: slotRedisKey_def dest: SlotKey_String_inj)

lemma call_ttl [simp]: "rb_ttl (snd (call f b)) = rb_ttl b"
  by (auto simp: call_def Let_def split: net.splits option.splits)

lemma publishJSON_snd: "snd (publishJSON api c m b) = snd (call (\<lambda>db. Some ((), PUBLISH api c m db)) b)"
  by (cases "call (\<lambda>db. Some ((), PUBLISH api c m db)) b") (simp add: publishJSON_def split: option.splits)

lemma publishJSON_ttl [simp]: "rb_ttl (snd (publishJSON api c m b)) = rb_ttl b"
  by (simp add: publishJSON_snd)

lemma call_Some:
  assumes "call f b = (Some y, b')"
  shows "f (rb_db b) = Some (y, rb_db b')" and "rb_ttl b' = rb_ttl b"
  using assms by (auto simp: call_def Let_def split: net.splits option.splits)

lemma call_db:
  "call f b = (x, b') \<Longrightarrow> rb_db b' = rb_db b \<or> (\<exists>y. f (rb_db b) = Some (y, rb_db b'))"
  by (auto simp: call_def Let_def split: net.splits option.splits)

lemma call_keeps:
  assumes "call f b = (x, b')" and "\<And>y db'. f (rb_db b) = Some (y, db') \<Longrightarrow> G db' = G (rb_db b)"
  shows "G (rb_db b') = G (rb_db b)"
  using call_db [OF assms(1)] assms(2) by metis

subsection \<open>The server's documented behaviour, and the slot contract over it\<close>

definition redis_ok :: "'r redis_bp \<Rightarrow> bool" where
  "redis_ok b \<longleftrightarrow> millisecond \<le> rb_ttl b"

definition redis_held :: "'r redis_api \<Rightarrow> time \<Rightarrow> 'r redis_bp \<Rightarrow> slot_key \<Rightarrow> (string \<times> string) option" where
  "redis_held api t b k =
     map_option (\<lambda>v. (snd (splitSlotValue v), fst (splitSlotValue v))) (GET api t (slotRedisKey k) (rb_db b))"

definition no_bar :: "string \<Rightarrow> string \<Rightarrow> bool" where
  "no_bar c i \<longleftrightarrow> CHR ''|'' \<notin> set i"

lemma Milliseconds_pos: "redis_ok b \<Longrightarrow> 0 < Milliseconds (rb_ttl b)"
  by (simp add: redis_ok_def Milliseconds_def millisecond_def)

locale redis_server =
  fixes api :: "'r redis_api"
  assumes get_lapse: "GET api t' k r = Some v \<Longrightarrow> t \<le> t' \<Longrightarrow> GET api t k r = Some v"
    and set_valid: "0 < px \<Longrightarrow> SET_PX api t k v px r \<noteq> None"
    and set_get: "SET_PX api t k v px r = Some r' \<Longrightarrow> t \<le> t' \<Longrightarrow> t' < t + px * millisecond \<Longrightarrow>
      GET api t' k r' = Some v"
    and set_expires: "SET_PX api t k v px r = Some r' \<Longrightarrow> t + px * millisecond \<le> t' \<Longrightarrow>
      GET api t' k r' = None"
    and set_other: "SET_PX api t k v px r = Some r' \<Longrightarrow> k' \<noteq> k \<Longrightarrow> GET api t' k' r' = GET api t' k' r"
    and pexpire_get: "GET api t k r = Some v \<Longrightarrow> t \<le> t' \<Longrightarrow> t' < t + px * millisecond \<Longrightarrow>
      GET api t' k (PEXPIRE api t k px r) = Some v"
    and pexpire_expires: "GET api t k r = Some v \<Longrightarrow> t + px * millisecond \<le> t' \<Longrightarrow>
      GET api t' k (PEXPIRE api t k px r) = None"
    and pexpire_other: "k' \<noteq> k \<Longrightarrow> GET api t' k' (PEXPIRE api t k px r) = GET api t' k' r"
    and del_get: "GET api t' k (DEL api t k r) = None"
    and del_other: "k' \<noteq> k \<Longrightarrow> GET api t' k' (DEL api t k r) = GET api t' k' r"
    and publish_get: "GET api t k (PUBLISH api c m r) = GET api t k r"
begin

lemma publishJSON_get: "GET api t k (rb_db (snd (publishJSON api c m b))) = GET api t k (rb_db b)"
proof -
  obtain x b' where c: "call (\<lambda>db. Some ((), PUBLISH api c m db)) b = (x, b')" by fastforce
  have "GET api t k (rb_db b') = GET api t k (rb_db b)"
    by (rule call_keeps [OF c]) (auto simp: publish_get)
  with c show ?thesis by (simp add: publishJSON_snd)
qed

lemma publishJSON_held: "redis_held api t (snd (publishJSON api c m b)) k = redis_held api t b k"
  by (simp add: redis_held_def publishJSON_get)

lemma claimScript_Some:
  assumes "claimScript api t key v px c db = Some ((ec, ei), db')"
  shows "SET_PX api t key v px db = Some db'"
    and "GET api t key db = None \<Longrightarrow> ec = '''' \<and> ei = ''''"
    and "GET api t key db = Some cur \<Longrightarrow>
      (if snd (splitSlotValue cur) \<noteq> c then ec = snd (splitSlotValue cur) \<and> ei = fst (splitSlotValue cur)
       else ec = '''' \<and> ei = '''')"
  using assms
  by (auto simp: claimScript_def splitSlotValue_def split: option.splits prod.splits if_splits)

lemma renewScript_Some:
  assumes "renewScript api t key c px db = Some (n, db')"
  shows "n = 0 \<and> db' = db \<and> (\<forall>v. GET api t key db = Some v \<longrightarrow> snd (splitSlotValue v) \<noteq> c) \<or>
    n = 1 \<and> db' = PEXPIRE api t key px db \<and>
      (\<exists>v. GET api t key db = Some v \<and> snd (splitSlotValue v) = c)"
  using assms
  by (auto simp: renewScript_def splitSlotValue_def split: option.splits prod.splits if_splits)

lemma releaseScript_Some:
  assumes "releaseScript api t key c db = Some (n, db')"
  shows "db' = (if \<exists>v. GET api t key db = Some v \<and> snd (splitSlotValue v) = c
                then DEL api t key db else db)"
  using assms
  by (auto simp: releaseScript_def splitSlotValue_def split: option.splits prod.splits if_splits)

lemma renewScript_get:
  assumes "renewScript api t key c px db = Some (n, db')" and "0 < px"
  shows "GET api t k db' = GET api t k db"
proof (cases "GET api t key db")
  case None
  with assms(1) show ?thesis by (auto dest!: renewScript_Some)
next
  case (Some v)
  from assms(2) have "t < t + px * millisecond" by (simp add: millisecond_def)
  with Some assms(1) show ?thesis
    by (cases "k = key") (auto dest!: renewScript_Some simp: pexpire_get pexpire_other)
qed

lemma redis_ClaimSlot_tail:
  assumes "redis_ClaimSlot api t k c i b = (r, b')"
    and "call (claimScript api t (slotRedisKey k) (slotValue i c) (Milliseconds (rb_ttl b)) c) b = (x, b1)"
  shows "redis_held api t' b' = redis_held api t' b1" and "rb_ttl b' = rb_ttl b"
    and "r = (case x of None \<Rightarrow> Inl ErrUnavailable
       | Some (ec, ei) \<Rightarrow> Inr \<lparr>cr_Won = True, cr_EvictedConnID = ec,
           cr_EvictedOnThisInstance = (ec \<noteq> '''' \<and> ei = i)\<rparr>)"
proof -
  have ttl: "rb_ttl b1 = rb_ttl b" using assms(2) call_ttl by (metis snd_conv)
  have "b' = b1 \<or> (\<exists>ei. b' = snd (publishJSON api (evictPrefix @ ei) (MsgEvict k) b1))"
    using assms by (cases x) (auto simp: redis_ClaimSlot_def Let_def split: if_splits)
  then show "redis_held api t' b' = redis_held api t' b1" and "rb_ttl b' = rb_ttl b"
    using ttl by (auto simp: publishJSON_held)
  show "r = (case x of None \<Rightarrow> Inl ErrUnavailable
       | Some (ec, ei) \<Rightarrow> Inr \<lparr>cr_Won = True, cr_EvictedConnID = ec,
           cr_EvictedOnThisInstance = (ec \<noteq> '''' \<and> ei = i)\<rparr>)"
    using assms by (cases x) (auto simp: redis_ClaimSlot_def Let_def split: if_splits)
qed

lemma redis_ClaimSlot_Inr:
  assumes "redis_ClaimSlot api t k c i b = (Inr res, b')"
  obtains ec ei b1 where
    "claimScript api t (slotRedisKey k) (slotValue i c) (Milliseconds (rb_ttl b)) c (rb_db b)
       = Some ((ec, ei), rb_db b1)"
    and "res = \<lparr>cr_Won = True, cr_EvictedConnID = ec, cr_EvictedOnThisInstance = (ec \<noteq> '''' \<and> ei = i)\<rparr>"
    and "\<And>t'. redis_held api t' b' = redis_held api t' b1"
proof -
  obtain x b1 where c: "call (claimScript api t (slotRedisKey k) (slotValue i c)
      (Milliseconds (rb_ttl b)) c) b = (x, b1)" by fastforce
  note tail = redis_ClaimSlot_tail [OF assms c]
  from tail(3) obtain ec ei where x: "x = Some (ec, ei)" by (cases x) auto
  from call_Some(1) [OF c [unfolded x]] tail x that show ?thesis by simp
qed

lemma redis_ClaimSlot_frame:
  assumes "redis_ClaimSlot api t k c i b = (r, b')" and "slotRedisKey k' \<noteq> slotRedisKey k"
  shows "redis_held api t' b' k' = redis_held api t' b k'"
proof -
  obtain x b1 where c: "call (claimScript api t (slotRedisKey k) (slotValue i c)
      (Milliseconds (rb_ttl b)) c) b = (x, b1)" by fastforce
  have "GET api t' (slotRedisKey k') (rb_db b1) = GET api t' (slotRedisKey k') (rb_db b)"
  proof (rule call_keeps [OF c])
    fix y db'
    assume "claimScript api t (slotRedisKey k) (slotValue i c) (Milliseconds (rb_ttl b)) c (rb_db b)
      = Some (y, db')"
    then show "GET api t' (slotRedisKey k') db' = GET api t' (slotRedisKey k') (rb_db b)"
      using assms(2) by (cases y) (auto dest: claimScript_Some(1) simp: set_other)
  qed
  with redis_ClaimSlot_tail(1) [OF assms(1) c] show ?thesis by (simp add: redis_held_def)
qed

lemma redis_ClaimSlot_who:
  assumes "redis_ClaimSlot api t k c i b = (r, b')" and "CHR ''|'' \<notin> set i" and "t \<le> t'"
    and "redis_held api t' b' k = Some x"
  shows "x = (c, i) \<or> redis_held api t' b k = Some x"
proof -
  obtain y b1 where c: "call (claimScript api t (slotRedisKey k) (slotValue i c)
      (Milliseconds (rb_ttl b)) c) b = (y, b1)" by fastforce
  have x: "redis_held api t' b1 k = Some x" using redis_ClaimSlot_tail(1) [OF assms(1) c] assms(4) by simp
  from call_db [OF c] show ?thesis
  proof
    assume "rb_db b1 = rb_db b"
    with x show ?thesis by (simp add: redis_held_def)
  next
    assume "\<exists>y. claimScript api t (slotRedisKey k) (slotValue i c) (Milliseconds (rb_ttl b)) c (rb_db b)
      = Some (y, rb_db b1)"
    then have "SET_PX api t (slotRedisKey k) (slotValue i c) (Milliseconds (rb_ttl b)) (rb_db b) = Some (rb_db b1)"
      using claimScript_Some(1) by fastforce
    then have "GET api t' (slotRedisKey k) (rb_db b1) \<in> {None, Some (slotValue i c)}"
      using set_get [of t _ _ _ _ _ t'] set_expires [of t _ _ _ _ _ t'] assms(3)
      by (cases "t' < t + Milliseconds (rb_ttl b) * millisecond") auto
    with x assms(2) show ?thesis by (auto simp: redis_held_def splitSlotValue_slotValue)
  qed
qed

lemma redis_ClaimSlot_won:
  assumes "redis_ok b" and "CHR ''|'' \<notin> set i" and "redis_ClaimSlot api t k c i b = (Inr res, b')"
  shows "cr_Won res" and "redis_held api t b' k = Some (c, i)"
proof -
  from assms(3) obtain ec ei b1 where
    s: "claimScript api t (slotRedisKey k) (slotValue i c) (Milliseconds (rb_ttl b)) c (rb_db b)
      = Some ((ec, ei), rb_db b1)"
    and res: "cr_Won res" and h: "\<And>t'. redis_held api t' b' = redis_held api t' b1"
    by (rule redis_ClaimSlot_Inr) auto
  have "t < t + Milliseconds (rb_ttl b) * millisecond"
    using Milliseconds_pos [OF assms(1)] by (simp add: millisecond_def)
  then have "GET api t (slotRedisKey k) (rb_db b1) = Some (slotValue i c)"
    using set_get [OF claimScript_Some(1) [OF s], of t] by simp
  then show "cr_Won res" and "redis_held api t b' k = Some (c, i)"
    using res h assms(2) by (simp_all add: redis_held_def splitSlotValue_slotValue)
qed

lemma redis_ClaimSlot_evicts:
  assumes "redis_ClaimSlot api t k c i b = (Inr res, b')"
  shows "cr_EvictedConnID res =
      (case redis_held api t b k of None \<Rightarrow> '''' | Some (c', i') \<Rightarrow> if c' \<noteq> c then c' else '''')"
    and "redis_held api t b k = Some (c', i') \<Longrightarrow> c' \<noteq> c \<Longrightarrow> c' \<noteq> '''' \<Longrightarrow>
      cr_EvictedOnThisInstance res = (i' = i)"
proof -
  obtain ec ei and b1 :: "'r redis_bp" where
    s: "claimScript api t (slotRedisKey k) (slotValue i c) (Milliseconds (rb_ttl b)) c (rb_db b)
      = Some ((ec, ei), rb_db b1)"
    and res: "res = \<lparr>cr_Won = True, cr_EvictedConnID = ec, cr_EvictedOnThisInstance = (ec \<noteq> '''' \<and> ei = i)\<rparr>"
    by (rule redis_ClaimSlot_Inr [OF assms])
  show "cr_EvictedConnID res =
      (case redis_held api t b k of None \<Rightarrow> '''' | Some (c', i') \<Rightarrow> if c' \<noteq> c then c' else '''')"
    using claimScript_Some(2,3) [OF s] res
    by (cases "GET api t (slotRedisKey k) (rb_db b)") (auto simp: redis_held_def split: if_splits)
  show "cr_EvictedOnThisInstance res = (i' = i)"
    if "redis_held api t b k = Some (c', i')" "c' \<noteq> c" "c' \<noteq> ''''"
    using claimScript_Some(3) [OF s] res that by (auto simp: redis_held_def split: if_splits)
qed

lemma redis_RenewSlot_keeps:
  assumes "redis_ok b" and "redis_RenewSlot api t k c b = (r, b')"
  shows "redis_ok b'" and "redis_held api t b' = redis_held api t b"
    and "r = Inr () \<Longrightarrow> \<exists>i. redis_held api t b k = Some (c, i)"
    and "t \<le> t' \<Longrightarrow> redis_held api t' b' k' = Some w \<Longrightarrow> redis_held api t b k' = Some w"
proof -
  let ?f = "renewScript api t (slotRedisKey k) c (Milliseconds (rb_ttl b))"
  obtain x b1 where c: "call ?f b = (x, b1)" by fastforce
  from assms(2) c have b': "b' = b1"
    and r: "r = (case x of None \<Rightarrow> Inl ErrTransport | Some n \<Rightarrow> if n = 0 then Inl ErrNotSlotOwner else Inr ())"
    by (auto simp: redis_RenewSlot_def split: option.splits if_splits)
  have "rb_ttl b1 = rb_ttl b" using call_ttl [of ?f b] c by simp
  with b' assms(1) show "redis_ok b'" by (simp add: redis_ok_def)
  show held: "redis_held api t b' = redis_held api t b"
  proof
    fix k'
    have "GET api t (slotRedisKey k') (rb_db b1) = GET api t (slotRedisKey k') (rb_db b)"
      by (rule call_keeps [OF c]) (use renewScript_get Milliseconds_pos [OF assms(1)] in blast)
    with b' show "redis_held api t b' k' = redis_held api t b k'" by (simp add: redis_held_def)
  qed
  show "\<exists>i. redis_held api t b k = Some (c, i)" if "r = Inr ()"
  proof -
    from that r obtain n where x: "x = Some n" "n \<noteq> 0" by (cases x) (auto split: if_splits)
    from renewScript_Some [OF call_Some(1) [OF c [unfolded x(1)]]] x(2) show ?thesis
      by (auto simp: redis_held_def)
  qed
  show "redis_held api t b k' = Some w" if le: "t \<le> t'" and w: "redis_held api t' b' k' = Some w"
  proof -
    from w b' have "redis_held api t b1 k' = Some w"
      using get_lapse [OF _ le] by (auto simp: redis_held_def)
    then show ?thesis using held b' by simp
  qed
qed

lemma redis_RenewSlot_errors:
  "redis_RenewSlot api t k c b = (Inl e, b') \<Longrightarrow> e = ErrNotSlotOwner \<or> e = ErrTransport"
  by (auto simp: redis_RenewSlot_def split: prod.splits option.splits if_splits)

lemma redis_ReleaseSlot_effect:
  assumes "redis_ok b" and "redis_ReleaseSlot api t k c b = (r, b')"
  shows "redis_ok b'"
    and "r = Inr () \<Longrightarrow> redis_held api t b k = Some (c, i) \<Longrightarrow> redis_held api t b' k = None"
    and "(\<And>i. redis_held api t b k \<noteq> Some (c, i)) \<Longrightarrow> redis_held api t' b' = redis_held api t' b"
    and "redis_held api t' b' k' = Some w \<Longrightarrow> redis_held api t' b k' = Some w"
proof -
  let ?f = "releaseScript api t (slotRedisKey k) c"
  obtain x b1 where c: "call ?f b = (x, b1)" by fastforce
  from assms(2) c have b': "b' = b1" and r: "r = (case x of None \<Rightarrow> Inl ErrTransport | Some n \<Rightarrow> Inr ())"
    by (auto simp: redis_ReleaseSlot_def split: option.splits)
  have "rb_ttl b1 = rb_ttl b" using call_ttl [of ?f b] c by simp
  with b' assms(1) show "redis_ok b'" by (simp add: redis_ok_def)
  have db: "rb_db b1 = rb_db b \<or> rb_db b1 = DEL api t (slotRedisKey k) (rb_db b) \<and>
      (\<exists>v. GET api t (slotRedisKey k) (rb_db b) = Some v \<and> snd (splitSlotValue v) = c)"
    using call_db [OF c] by (auto dest!: releaseScript_Some split: if_splits)
  show "redis_held api t b' k = None" if "r = Inr ()" "redis_held api t b k = Some (c, i)"
  proof -
    from that r obtain n where x: "x = Some n" by (cases x) auto
    have "rb_db b1 = DEL api t (slotRedisKey k) (rb_db b)"
      using releaseScript_Some [OF call_Some(1) [OF c [unfolded x]]] that(2) by (auto simp: redis_held_def)
    then show ?thesis using b' by (simp add: redis_held_def del_get)
  qed
  show "redis_held api t' b' = redis_held api t' b" if free: "\<And>i. redis_held api t b k \<noteq> Some (c, i)"
  proof -
    have "\<not> (\<exists>v. GET api t (slotRedisKey k) (rb_db b) = Some v \<and> snd (splitSlotValue v) = c)"
      using free by (auto simp: redis_held_def)
    then have "rb_db b1 = rb_db b" using db by blast
    with b' show ?thesis by (simp add: redis_held_def fun_eq_iff)
  qed
  show "redis_held api t' b k' = Some w" if w: "redis_held api t' b' k' = Some w"
  proof -
    show ?thesis
      using db w b' del_get [of t' "slotRedisKey k" t] del_other [of "slotRedisKey k'" "slotRedisKey k" t' t]
      by (cases "slotRedisKey k' = slotRedisKey k") (auto simp: redis_held_def)
  qed
qed

lemma redis_LookupInstance_effect:
  assumes "redis_LookupInstance api t k b = (r, b')"
  shows "rb_db b' = rb_db b" and "rb_ttl b' = rb_ttl b"
    and "r = Inr i \<Longrightarrow> i = (case redis_held api t b k of None \<Rightarrow> '''' | Some (c, i') \<Rightarrow> i')"
proof -
  let ?f = "\<lambda>db. Some (GET api t (slotRedisKey k) db, db)"
  obtain x b1 where c: "call ?f b = (x, b1)" by fastforce
  have b': "b' = b1" using assms c by (auto simp: redis_LookupInstance_def split: option.splits)
  show "rb_db b' = rb_db b" using call_keeps [OF c, of "\<lambda>x. x"] b' by simp
  show "rb_ttl b' = rb_ttl b" using call_ttl [of ?f b] c b' by simp
  show "i = (case redis_held api t b k of None \<Rightarrow> '''' | Some (c, i') \<Rightarrow> i')" if "r = Inr i"
  proof -
    from that assms c obtain v where x: "x = Some v" by (cases x) (auto simp: redis_LookupInstance_def)
    with call_Some(1) [OF c [unfolded x]] assms c that show ?thesis
      by (auto simp: redis_LookupInstance_def redis_held_def split: option.splits)
  qed
qed

end

lemma redis_ops_simps [simp]:
  "ClaimSlot (redis_ops api) = redis_ClaimSlot api" "RenewSlot (redis_ops api) = redis_RenewSlot api"
  "ReleaseSlot (redis_ops api) = redis_ReleaseSlot api"
  "LookupInstance (redis_ops api) = redis_LookupInstance api"
  "Publish (redis_ops api) = redis_Publish api"
  "PublishRevocation (redis_ops api) = redis_PublishRevocation api"
  by (simp_all add: redis_ops_def)

sublocale redis_server \<subseteq> slot: slot_registry "redis_ops api" redis_ok "redis_held api" "redis_held api" no_bar
proof (unfold_locales, unfold redis_ops_simps, goal_cases)
  case (2 t' b k x t)
  then obtain v where v: "GET api t' (slotRedisKey k) (rb_db b) = Some v"
    and x: "x = (snd (splitSlotValue v), fst (splitSlotValue v))" by (auto simp: redis_held_def)
  from get_lapse [OF v 2(2)] x show ?case by (simp add: redis_held_def)
next
  case (3 b t k c i rc b')
  obtain x b1 where c: "call (claimScript api t (slotRedisKey k) (slotValue i c) (Milliseconds (rb_ttl b)) c) b
    = (x, b1)" by fastforce
  from redis_ClaimSlot_tail(2) [OF 3(2) c] 3(1) show ?case by (simp add: redis_ok_def)
next
  case (4 b c i t k res b')
  then have "CHR ''|'' \<notin> set i" by (simp add: no_bar_def)
  from redis_ClaimSlot_won [OF 4(1) this 4(3)] show ?case by simp
next
  case (5 b t k c i rc b' k' t')
  then have "slotRedisKey k' \<noteq> slotRedisKey k" by (simp add: slotRedisKey_inj)
  from redis_ClaimSlot_frame [OF 5(2) this] show ?case .
next
  case (6 b c i t k rc b' t' x)
  then have "CHR ''|'' \<notin> set i" by (simp add: no_bar_def)
  from redis_ClaimSlot_who [OF 6(3) this 6(4,5)] show ?case .
next
  case (7 b t k c i res b' c' i')
  from redis_ClaimSlot_evicts(1) [OF 7(2)] redis_ClaimSlot_evicts(2) [OF 7(2-4)] 7(3,4) show ?case by simp
next
  case (8 b t k c i res b')
  from redis_ClaimSlot_evicts(1) [OF 8(2)] 8(3) show ?case by (auto split: option.splits if_splits)
next
  case (9 b t k c rr b')
  from redis_RenewSlot_keeps(1) [OF this] show ?case .
next
  case (10 b t k c b')
  from redis_RenewSlot_keeps(2,3) [OF 10] show ?case by simp
next
  case (11 b t k c rr b')
  from redis_RenewSlot_keeps(2) [OF this] show ?case .
next
  case (12 b t k c rr b' t' k' x)
  from redis_RenewSlot_keeps(4) [OF this] show ?case .
next
  case (13 t k c b e b')
  from redis_RenewSlot_errors [OF this] show ?case .
next
  case (14 b t k c rl b')
  from redis_ReleaseSlot_effect(1) [OF this] show ?case .
next
  case (15 b t k c i b')
  from redis_ReleaseSlot_effect(2) [OF 15(1,3) refl 15(2)] show ?case .
next
  case (16 b t k c rl b' t')
  from redis_ReleaseSlot_effect(3) [OF 16(1,3,2)] show ?case .
next
  case (17 b t k c rl b' t' k' x)
  from redis_ReleaseSlot_effect(4) [OF this] show ?case .
next
  case (18 b t k i b')
  from redis_LookupInstance_effect(3) [OF 18(2) refl] show ?case .
next
  case (19 b t k ro b' t')
  from redis_LookupInstance_effect(1,2) [OF 19(2)] 19(1) show ?case
    by (simp add: redis_held_def redis_ok_def fun_eq_iff)
next
  case (20 b inst f rp b' t')
  then have "b' = snd (publishJSON api (routePrefix @ inst) (MsgFrame f) b)"
    by (simp add: redis_Publish_def)
  with 20(1) show ?case by (simp add: fun_eq_iff publishJSON_held redis_ok_def)
next
  case (21 b ev rv b' t')
  then have "b' = snd (publishJSON api revocationChan (MsgRevocation ev) b)"
    by (simp add: redis_PublishRevocation_def)
  with 21(1) show ?case by (simp add: fun_eq_iff publishJSON_held redis_ok_def)
qed simp

context redis_server
begin

lemma redis_superseded:
  assumes "redis_ok b" and "CHR ''|'' \<notin> set i2"
    and "redis_ClaimSlot api t k c2 i2 b = (Inr res, b2)" and "c1 \<noteq> c2"
    and "role_Valid (sk_Role k)" and "bp_run (redis_ops api) no_bar c1 k t b2 t' b'"
  shows "fst (redis_RenewSlot api t' k c1 b') \<in> {Inl ErrNotSlotOwner, Inl ErrTransport}"
    and "redis_held api t' (snd (redis_ReleaseSlot api t' k c1 b')) = redis_held api t' b'"
    and "redis_held api t' b' k \<noteq> Some (c1, i1)"
proof -
  have "no_bar c2 i2" using assms(2) by (simp add: no_bar_def)
  note s = slot.superseded [OF assms(1) this assms(3) [folded redis_ops_simps(1)] assms(4-6)]
  show "fst (redis_RenewSlot api t' k c1 b') \<in> {Inl ErrNotSlotOwner, Inl ErrTransport}"
    and "redis_held api t' (snd (redis_ReleaseSlot api t' k c1 b')) = redis_held api t' b'"
    and "redis_held api t' b' k \<noteq> Some (c1, i1)"
    using s by simp_all
qed

lemma delivered_RenewSlot:
  assumes "rb_net b = []"
  shows "fst (redis_RenewSlot api t k c b) =
    (case renewScript api t (slotRedisKey k) c (Milliseconds (rb_ttl b)) (rb_db b) of
       None \<Rightarrow> Inl ErrTransport
     | Some (n, _) \<Rightarrow> if n = 0 then Inl ErrNotSlotOwner else Inr ())"
  using assms by (auto simp: redis_RenewSlot_def call_def next_net_def Let_def split: option.splits)

lemma claim_stores:
  assumes "redis_ok b" and "redis_ClaimSlot api t k c i b = (Inr res, b')"
  shows "GET api t (slotRedisKey k) (rb_db b') = Some (slotValue i c)"
    and "t + Milliseconds (rb_ttl b) * millisecond \<le> t' \<Longrightarrow> GET api t' (slotRedisKey k) (rb_db b') = None"
proof -
  obtain x b1 where c: "call (claimScript api t (slotRedisKey k) (slotValue i c)
      (Milliseconds (rb_ttl b)) c) b = (x, b1)" by fastforce
  have "\<exists>ec ei. x = Some (ec, ei)" using redis_ClaimSlot_tail(3) [OF assms(2) c] by (cases x) auto
  then obtain ec ei where x: "x = Some (ec, ei)" by blast
  have s: "SET_PX api t (slotRedisKey k) (slotValue i c) (Milliseconds (rb_ttl b)) (rb_db b) = Some (rb_db b1)"
    using claimScript_Some(1) [OF call_Some(1) [OF c [unfolded x]]] .
  have b': "b' = b1 \<or> (\<exists>ei. b' = snd (publishJSON api (evictPrefix @ ei) (MsgEvict k) b1))"
    using assms(2) c by (cases x) (auto simp: redis_ClaimSlot_def Let_def split: if_splits)
  have get: "GET api u (slotRedisKey k) (rb_db b') = GET api u (slotRedisKey k) (rb_db b1)" for u
    using b' by (auto simp: publishJSON_get)
  have "t < t + Milliseconds (rb_ttl b) * millisecond"
    using Milliseconds_pos [OF assms(1)] by (simp add: millisecond_def)
  with set_get [OF s] get show "GET api t (slotRedisKey k) (rb_db b') = Some (slotValue i c)" by simp
  show "t + Milliseconds (rb_ttl b) * millisecond \<le> t' \<Longrightarrow> GET api t' (slotRedisKey k) (rb_db b') = None"
    using set_expires [OF s] get by simp
qed

end

subsection \<open>A key space that behaves as documented\<close>

text \<open>
  Keys with their value and expiry instant; a read at or after the expiry finds nothing, \<^verbatim>\<open>SET PX\<close>
  refuses a lifetime that is not positive, \<^verbatim>\<open>PEXPIRE\<close> does nothing to an absent key. Published
  messages are kept in order.
\<close>

record keyspace =
  ks_keys :: "(string, string \<times> time) gomap"
  ks_log :: "(string \<times> redis_msg) list"

definition ks_GET :: "time \<Rightarrow> string \<Rightarrow> keyspace \<Rightarrow> string option" where
  "ks_GET t k r =
     (case map_of (ks_keys r) k of None \<Rightarrow> None | Some (v, e) \<Rightarrow> if t < e then Some v else None)"

definition keyspace_api :: "keyspace redis_api" where
  "keyspace_api =
     \<lparr>GET = ks_GET,
      SET_PX = (\<lambda>t k v px r. if px \<le> 0 then None
        else Some (r\<lparr>ks_keys := AList.update k (v, t + px * millisecond) (ks_keys r)\<rparr>)),
      PEXPIRE = (\<lambda>t k px r. case ks_GET t k r of None \<Rightarrow> r
        | Some v \<Rightarrow> r\<lparr>ks_keys := AList.update k (v, t + px * millisecond) (ks_keys r)\<rparr>),
      DEL = (\<lambda>t k r. r\<lparr>ks_keys := AList.delete k (ks_keys r)\<rparr>),
      PUBLISH = (\<lambda>c m r. r\<lparr>ks_log := ks_log r @ [(c, m)]\<rparr>)\<rparr>"

lemma keyspace_api_simps [simp]:
  "GET keyspace_api = ks_GET"
  "SET_PX keyspace_api t k v px r =
     (if px \<le> 0 then None else Some (r\<lparr>ks_keys := AList.update k (v, t + px * millisecond) (ks_keys r)\<rparr>))"
  "PEXPIRE keyspace_api t k px r =
     (case ks_GET t k r of None \<Rightarrow> r
      | Some v \<Rightarrow> r\<lparr>ks_keys := AList.update k (v, t + px * millisecond) (ks_keys r)\<rparr>)"
  "DEL keyspace_api t k r = r\<lparr>ks_keys := AList.delete k (ks_keys r)\<rparr>"
  "PUBLISH keyspace_api c m r = r\<lparr>ks_log := ks_log r @ [(c, m)]\<rparr>"
  by (simp_all add: keyspace_api_def)

lemma ks_GET_update [simp]:
  "ks_GET t k' (r\<lparr>ks_keys := AList.update k (v, e) m\<rparr>) =
     (if k' = k then (if t < e then Some v else None) else ks_GET t k' (r\<lparr>ks_keys := m\<rparr>))"
  by (simp add: ks_GET_def)

lemma ks_GET_frame [simp]:
  "ks_GET t k (r\<lparr>ks_keys := ks_keys r\<rparr>) = ks_GET t k r"
  "ks_GET t k (r\<lparr>ks_log := l\<rparr>) = ks_GET t k r"
  "ks_GET t k' (r\<lparr>ks_keys := AList.delete k (ks_keys r)\<rparr>) = (if k' = k then None else ks_GET t k' r)"
  by (simp_all add: ks_GET_def)

interpretation ks: redis_server keyspace_api
proof (unfold_locales, goal_cases)
  case (1 t' k r v t)
  then show ?case by (auto simp: ks_GET_def split: option.splits if_split_asm)
qed (auto split: option.splits if_split_asm)


subsection \<open>Properties\<close>

text \<open>
  C4. Newest wins on Redis, whatever the network does: after connection \<open>c2\<close> has claimed a slot, and
  whatever calls any instance makes afterwards, delivered or lost, a connection \<open>c1\<close> other than \<open>c2\<close> that
  does not claim the slot again never renews it successfully, is never recorded as its holder, and by
  releasing it takes nothing from whoever holds it. Instance identifiers have no bar in them.
\<close>

theorem redis_newest_wins:
  assumes "redis_server api" and "redis_ok b" and "CHR ''|'' \<notin> set i2"
    and "redis_ClaimSlot api t k c2 i2 b = (Inr res, b2)" and "c1 \<noteq> c2"
    and "role_Valid (sk_Role k)" and "bp_run (redis_ops api) no_bar c1 k t b2 t' b'"
  shows "fst (redis_RenewSlot api t' k c1 b') \<in> {Inl ErrNotSlotOwner, Inl ErrTransport} \<and>
    redis_held api t' (snd (redis_ReleaseSlot api t' k c1 b')) = redis_held api t' b' \<and>
    (\<forall>i1. redis_held api t' b' k \<noteq> Some (c1, i1))"
  using redis_server.redis_superseded [OF assms] by blast

theorem redis_newest_wins_witness:
  "let b0 = \<lparr>rb_db = \<lparr>ks_keys = [], ks_log = []\<rparr>, rb_ttl = second, rb_net = []\<rparr>;
       b1 = snd (redis_ClaimSlot keyspace_api 10 ex_key ''c1'' ''i1'' b0);
       b2 = snd (redis_ClaimSlot keyspace_api 20 ex_key ''c2'' ''i2'' b1)
   in fst (redis_RenewSlot keyspace_api 20 ex_key ''c1'' b2) \<in> {Inl ErrNotSlotOwner, Inl ErrTransport}"
proof -
  define b0 :: "keyspace redis_bp"
    where "b0 = \<lparr>rb_db = \<lparr>ks_keys = [], ks_log = []\<rparr>, rb_ttl = second, rb_net = []\<rparr>"
  define b1 where "b1 = snd (redis_ClaimSlot keyspace_api 10 ex_key ''c1'' ''i1'' b0)"
  define b2 where "b2 = snd (redis_ClaimSlot keyspace_api 20 ex_key ''c2'' ''i2'' b1)"
  have ok: "redis_ok b1"
    by (simp add: b1_def b0_def redis_ok_def redis_ClaimSlot_def call_def next_net_def claimScript_def
        ks_GET_def Milliseconds_def second_def millisecond_def)
  have "\<exists>res. redis_ClaimSlot keyspace_api 20 ex_key ''c2'' ''i2'' b1 = (Inr res, b2)"
    by (simp add: b2_def b1_def b0_def redis_ClaimSlot_def call_def next_net_def claimScript_def
        ks_GET_def Milliseconds_def second_def millisecond_def slotValue_def Cut_def Let_def publishJSON_def)
  then obtain res where "redis_ClaimSlot keyspace_api 20 ex_key ''c2'' ''i2'' b1 = (Inr res, b2)" ..
  from redis_newest_wins [OF ks.redis_server_axioms ok _ this _ _ bp_run.none, of "''c1''"]
  show ?thesis by (simp add: b2_def b1_def b0_def)
qed

text \<open>
  The text stored for a slot is unambiguous: the owner's instance and connection are recovered from
  it when the instance identifier has no bar, and two slots with valid roles share a Redis key only if
  they are the same slot, whatever bytes the pair identifiers hold.
\<close>

theorem slot_encoding:
  "(CHR ''|'' \<notin> set i \<longrightarrow> splitSlotValue (slotValue i c) = (i, c)) \<and>
   (role_Valid (sk_Role a) \<and> role_Valid (sk_Role b) \<longrightarrow> (slotRedisKey a = slotRedisKey b \<longleftrightarrow> a = b))"
  by (simp add: splitSlotValue_slotValue slotRedisKey_inj)

theorem slot_encoding_witness:
  "splitSlotValue (slotValue ''i1'' ''c|1'') = (''i1'', ''c|1'') \<and>
   slotRedisKey ex_key \<noteq> slotRedisKey \<lparr>sk_PairID = ''p1:mobile'', sk_Role = RoleMobile\<rparr>"
  using slot_encoding [of "''i1''" "''c|1''" ex_key "\<lparr>sk_PairID = ''p1:mobile'', sk_Role = RoleMobile\<rparr>"]
  by (simp add: ex_key_def)

text \<open>
  C13. A lapsed slot: once the time-to-live has passed without a renewal, the owner's next renewal fails
  on Redis as a lost slot, while the in-memory backplane renews it. The two implementations of the
  interface differ here.
\<close>

theorem renew_after_expiry:
  assumes "redis_server api" and "redis_ok b" and "redis_ClaimSlot api t k c i b = (Inr res, b')"
    and "rb_net b' = []" and "t + Milliseconds (rb_ttl b) * millisecond \<le> t'"
    and "mem_ClaimSlot t k c i m = (r, m')" and "t + mb_ttl m \<le> t'"
  shows "fst (redis_RenewSlot api t' k c b') = Inl ErrNotSlotOwner \<and> fst (mem_RenewSlot t' k c m') = Inr ()"
  using redis_server.claim_stores(2) [OF assms(1-3,5)] redis_server.delivered_RenewSlot [OF assms(1,4)]
    mem_ClaimSlot_slots [OF assms(6)]
  by (simp add: renewScript_def mem_RenewSlot_def)

theorem renew_after_expiry_witness:
  "let b0 = \<lparr>rb_db = \<lparr>ks_keys = [], ks_log = []\<rparr>, rb_ttl = second, rb_net = []\<rparr>;
       b1 = snd (redis_ClaimSlot keyspace_api 0 ex_key ''c1'' ''i1'' b0);
       m1 = snd (mem_ClaimSlot 0 ex_key ''c1'' ''i1'' (mem_New second 8))
   in fst (redis_RenewSlot keyspace_api second ex_key ''c1'' b1) = Inl ErrNotSlotOwner \<and>
      fst (mem_RenewSlot second ex_key ''c1'' m1) = Inr ()"
proof -
  define b0 :: "keyspace redis_bp"
    where "b0 = \<lparr>rb_db = \<lparr>ks_keys = [], ks_log = []\<rparr>, rb_ttl = second, rb_net = []\<rparr>"
  define b1 where "b1 = snd (redis_ClaimSlot keyspace_api 0 ex_key ''c1'' ''i1'' b0)"
  have ok: "redis_ok b0" by (simp add: b0_def redis_ok_def second_def millisecond_def)
  have "\<exists>res. redis_ClaimSlot keyspace_api 0 ex_key ''c1'' ''i1'' b0 = (Inr res, b1)" and net: "rb_net b1 = []"
    by (simp_all add: b1_def b0_def redis_ClaimSlot_def call_def next_net_def claimScript_def
        ks_GET_def Milliseconds_def second_def millisecond_def)
  then obtain res where c: "redis_ClaimSlot keyspace_api 0 ex_key ''c1'' ''i1'' b0 = (Inr res, b1)" by blast
  have "0 + Milliseconds (rb_ttl b0) * millisecond \<le> second"
    by (simp add: b0_def Milliseconds_def second_def millisecond_def)
  from renew_after_expiry [OF ks.redis_server_axioms ok c net this prod.collapse [symmetric], of "mem_New second 8"]
  show ?thesis by (simp add: b1_def b0_def mem_New_def)
qed

text \<open>
  C14. An instance identifier with a bar in it breaks renewal on Redis: the owner itself is told, at its
  next renewal, that it is not the slot's owner, because the stored value is split at the first bar.
\<close>

theorem bar_in_instance_id:
  assumes "redis_server api" and "redis_ok b" and "redis_ClaimSlot api t k c i b = (Inr res, b')"
    and "rb_net b' = []" and "CHR ''|'' \<in> set i"
  shows "fst (redis_RenewSlot api t k c b') = Inl ErrNotSlotOwner"
proof -
  from assms(5) obtain u v where i: "i = u @ CHR ''|'' # v" "CHR ''|'' \<notin> set u"
    by (meson split_list_first)
  then have "Cut CHR ''|'' (slotValue i c) = (u, v @ CHR ''|'' # c, True)"
    by (simp add: slotValue_def Cut_append)
  moreover have "v @ CHR ''|'' # c \<noteq> c"
  proof
    assume "v @ CHR ''|'' # c = c"
    then have "length (v @ CHR ''|'' # c) = length c" by (rule arg_cong)
    then show False by simp
  qed
  ultimately show ?thesis
    using redis_server.claim_stores(1) [OF assms(1-3)] redis_server.delivered_RenewSlot [OF assms(1,4)]
    by (simp add: renewScript_def)
qed

theorem bar_in_instance_id_witness:
  "fst (redis_RenewSlot keyspace_api 0 ex_key ''c1'' (snd (redis_ClaimSlot keyspace_api 0 ex_key ''c1'' ''eu|1''
     \<lparr>rb_db = \<lparr>ks_keys = [], ks_log = []\<rparr>, rb_ttl = second, rb_net = []\<rparr>))) = Inl ErrNotSlotOwner"
proof -
  define b0 :: "keyspace redis_bp"
    where "b0 = \<lparr>rb_db = \<lparr>ks_keys = [], ks_log = []\<rparr>, rb_ttl = second, rb_net = []\<rparr>"
  define b1 where "b1 = snd (redis_ClaimSlot keyspace_api 0 ex_key ''c1'' ''eu|1'' b0)"
  have ok: "redis_ok b0" by (simp add: b0_def redis_ok_def second_def millisecond_def)
  have "\<exists>res. redis_ClaimSlot keyspace_api 0 ex_key ''c1'' ''eu|1'' b0 = (Inr res, b1)" and net: "rb_net b1 = []"
    by (simp_all add: b1_def b0_def redis_ClaimSlot_def call_def next_net_def claimScript_def
        ks_GET_def Milliseconds_def second_def millisecond_def)
  then obtain res where c: "redis_ClaimSlot keyspace_api 0 ex_key ''c1'' ''eu|1'' b0 = (Inr res, b1)" by blast
  from bar_in_instance_id [OF ks.redis_server_axioms ok c net] show ?thesis by (simp add: b1_def b0_def)
qed

end
