(* ===== verification/Hub_Registry.thy ===== *)
theory Hub_Registry
  imports Hub Memory_Backplane Redis_Backplane
begin

section \<open>The hub on a slot registry\<close>

text \<open>
  What registration, deregistration, routing and the heartbeat achieve on any backplane that keeps the
  slot contract, proved once in the locale \<open>slot_registry\<close>, and the properties of the hub.
\<close>

lemma announcePresence_index [simp]:
  "h_local (announcePresence ops cd io p s h) = h_local h"
  "h_instanceID (announcePresence ops cd io p s h) = h_instanceID h"
  by (auto simp: announcePresence_def Let_def split: option.splits prod.splits)

lemma announcePresence_bp:
  "h_bp (announcePresence ops cd io p s h) = h_bp h \<or>
   h_bp (announcePresence ops cd io p s h) = snd (LookupInstance ops (io_now io 1) (peerKey s) (h_bp h))"
  by (auto simp: announcePresence_def Let_def split: option.splits prod.splits)

lemma announcePresence_close:
  "map_option close_view (sess (announcePresence ops cd io p s h) q) = map_option close_view (sess h q)"
  by (auto simp: announcePresence_def Let_def send_sys_def option.map_comp comp_def
      split: option.splits prod.splits)

lemma SetSlotRenewer_close [simp]: "close_view (SetSlotRenewer fn s) = close_view s"
  by (simp add: SetSlotRenewer_def close_view_def)

lemma Register_Inr:
  assumes "Register ops cd io p s h = (Inr u, h')"
  obtains res b' where
    "ClaimSlot ops (io_now io 0) (slotKey s) (s_ID s) (h_instanceID h) (h_bp h) = (Inr res, b')"
    and "h' = Register_index ops cd io p s res (h\<lparr>h_bp := b'\<rparr>)"
  using assms by (auto simp: Register_def Register_claim_def split: prod.splits sum.splits)

lemma Register_index_view:
  assumes "cr_Won res"
  shows "map_of (h_local (Register_index ops cd io p s res h)) = (map_of (h_local h))(slotKey s \<mapsto> p)"
    and "map_option close_view (sess (Register_index ops cd io p s res h) q) =
      map_option close_view (sess (supersede res (slotKey s) h) q)"
    and "h_bp (Register_index ops cd io p s res h) = h_bp h \<or>
      h_bp (Register_index ops cd io p s res h) = snd (LookupInstance ops (io_now io 1) (peerKey s) (h_bp h))"
proof -
  let ?h1 = "supersede res (slotKey s) h"
  let ?h4 = "on_session p (SetSlotRenewer (slotKey s, s_ID s))
     (on_metrics (\<lambda>m. m\<lparr>mt_ConnsActive := gadd (c_Role (s_Claims s)) 1 (mt_ConnsActive m),
        mt_ConnectsTotal := mt_ConnectsTotal m + 1\<rparr>) (?h1\<lparr>h_local := AList.update (slotKey s) p (h_local ?h1)\<rparr>))"
  have r: "Register_index ops cd io p s res h = announcePresence ops cd io p s ?h4"
    using assms by (simp add: Register_index_def Let_def)
  show "map_of (h_local (Register_index ops cd io p s res h)) = (map_of (h_local h))(slotKey s \<mapsto> p)"
    by (simp add: r)
  show "map_option close_view (sess (Register_index ops cd io p s res h) q) =
      map_option close_view (sess (supersede res (slotKey s) h) q)"
    by (simp add: r announcePresence_close option.map_comp comp_def)
  show "h_bp (Register_index ops cd io p s res h) = h_bp h \<or>
      h_bp (Register_index ops cd io p s res h) = snd (LookupInstance ops (io_now io 1) (peerKey s) (h_bp h))"
    using announcePresence_bp [of ops cd io p s ?h4] by (simp add: r)
qed

context slot_registry
begin

text \<open>A registration that succeeds leaves the slot with the new connection and the index at the new object.\<close>

lemma Register_takes_slot:
  assumes "ok (h_bp h)" and "good_ids (s_ID s) (h_instanceID h)"
    and "Register ops cd io p s h = (Inr u, h')"
  shows "held (io_now io 0) (h_bp h') (slotKey s) = Some (s_ID s, h_instanceID h)"
    and "map_of (h_local h') = (map_of (h_local h))(slotKey s \<mapsto> p)" and "ok (h_bp h')"
proof -
  from assms(3) obtain res b' where
    c: "ClaimSlot ops (io_now io 0) (slotKey s) (s_ID s) (h_instanceID h) (h_bp h) = (Inr res, b')"
    and h': "h' = Register_index ops cd io p s res (h\<lparr>h_bp := b'\<rparr>)"
    by (rule Register_Inr)
  have ok': "ok b'" using claim_ok [OF assms(1) c] .
  have won: "cr_Won res" using claim_won [OF assms(1,2) c] by simp
  note v = Register_index_view [OF won, of ops cd io p s "h\<lparr>h_bp := b'\<rparr>"]
  show "map_of (h_local h') = (map_of (h_local h))(slotKey s \<mapsto> p)" using v(1) h' by simp
  have "ok (h_bp h') \<and> held (io_now io 0) (h_bp h') = held (io_now io 0) b'"
    using v(3) h' ok' lookup_frame [OF ok' prod.collapse [symmetric]] by auto
  then show "ok (h_bp h')" and "held (io_now io 0) (h_bp h') (slotKey s) = Some (s_ID s, h_instanceID h)"
    using claim_held [OF assms(1,2) c] by simp_all
qed

text \<open>A session of this instance that held the slot is closed as superseded.\<close>

lemma Register_closes_old:
  assumes "ok (h_bp h)" and "good_ids (s_ID s) (h_instanceID h)"
    and "Register ops cd io p s h = (Inr u, h')"
    and "map_of (h_local h) (slotKey s) = Some q" and "sess h q = Some sq"
    and "live (io_now io 0) (h_bp h) (slotKey s) = Some (s_ID sq, h_instanceID h)"
    and "s_ID sq \<noteq> s_ID s" and "s_ID sq \<noteq> ''''"
  shows "map_option close_view (sess h' q) =
    Some (close_view (CloseWith CloseSuperseded ''connected elsewhere'' sq))"
proof -
  from assms(3) obtain res b' where
    c: "ClaimSlot ops (io_now io 0) (slotKey s) (s_ID s) (h_instanceID h) (h_bp h) = (Inr res, b')"
    and h': "h' = Register_index ops cd io p s res (h\<lparr>h_bp := b'\<rparr>)"
    by (rule Register_Inr)
  have won: "cr_Won res" using claim_won [OF assms(1,2) c] by simp
  have "cr_EvictedConnID res = s_ID sq" "cr_EvictedOnThisInstance res"
    using claim_evicts [OF assms(1) c assms(6,7)] assms(8) by simp_all
  then have "sess (supersede res (slotKey s) (h\<lparr>h_bp := b'\<rparr>)) q
      = Some (CloseWith CloseSuperseded ''connected elsewhere'' sq)"
    using assms(4,5,8) by (simp add: supersede_def)
  then show ?thesis unfolding h' Register_index_view(2) [OF won] by simp
qed

text \<open>Deregistering a session that has been superseded disturbs nobody.\<close>

lemma Deregister_superseded:
  assumes "ok (h_bp h)" and "map_of (h_local h) (slotKey s) \<noteq> Some p"
    and "\<And>i. held (io_now io 0) (h_bp h) (slotKey s) \<noteq> Some (s_ID s, i)"
  shows "h_local (Deregister ops cd io p s h) = h_local h"
    and "h_sessions (Deregister ops cd io p s h) = h_sessions h"
    and "held t (h_bp (Deregister ops cd io p s h)) = held t (h_bp h)"
  using assms release_other [OF assms(1,3) prod.collapse [symmetric]]
  by (simp_all add: Deregister_def Let_def on_metrics_def)

end


lemma mem_Register_Inr: "\<exists>h'. Register mem_ops cd io p s h = (Inr (), h')"
proof -
  obtain res b' where "mem_ClaimSlot (io_now io 0) (slotKey s) (s_ID s) (h_instanceID h) (h_bp h) = (Inr res, b')"
    using mem_ClaimSlot_Inr by blast
  then show ?thesis by (simp add: Register_def Register_claim_def)
qed

subsection \<open>Concrete hubs\<close>

text \<open>
  For the witnesses: a hub of instance \<open>i1\<close> on an in-memory backplane, with a registered desktop session
  at address 0.
\<close>

definition ex_io :: io where
  "ex_io = \<lparr>io_now = (\<lambda>n. 100 + int n), io_id = (\<lambda>_. ''id''), io_pick = (\<lambda>_. False)\<rparr>"

definition ex_io0 :: io where
  "ex_io0 = \<lparr>io_now = (\<lambda>n. 10 + int n), io_id = (\<lambda>_. ''id''), io_pick = (\<lambda>_. False)\<rparr>"

definition ex_session2 :: session where
  "ex_session2 = session_New ex_claims ''c2'' ex_opts"

definition ex_hub0 :: "mem_bp hub" where
  "ex_hub0 = (hub_New ''i1'' (mem_New second 8))\<lparr>h_sessions := [(0, ex_session), (2, ex_session2)]\<rparr>"

definition ex_hub :: "mem_bp hub" where
  "ex_hub = snd (Register mem_ops ex_codec ex_io0 0 ex_session ex_hub0)"

lemma ex_io_simps [simp]: "io_now ex_io n = 100 + int n" "io_now ex_io0 n = 10 + int n"
  by (simp_all add: ex_io_def ex_io0_def)

lemma ex_session2_simps [simp]:
  "s_Claims ex_session2 = ex_claims" "s_ID ex_session2 = ''c2''" "\<not> s_closeOnce ex_session2"
  "slotKey ex_session2 = \<lparr>sk_PairID = ''p1'', sk_Role = RoleDesktop\<rparr>"
  "slotKey ex_session = \<lparr>sk_PairID = ''p1'', sk_Role = RoleDesktop\<rparr>"
  by (simp_all add: ex_session2_def session_New_def slotKey_def)

lemma ex_hub0_ok: "hub_ok ex_hub0" "mem_ok (h_bp ex_hub0)"
  by (auto simp: ex_hub0_def hub_New_def hub_ok_def mem_ok_def mem_New_def ex_session_def ex_session2_def
      session_New_ok split: if_splits)

lemma ex_hub_ok: "hub_ok ex_hub"
  unfolding ex_hub_def by (rule Register_ok [OF ex_hub0_ok(1)]) (simp add: ex_hub0_def)

lemma ex_hub_eval:
  "map_of (h_local ex_hub) \<lparr>sk_PairID = ''p1'', sk_Role = RoleDesktop\<rparr> = Some 0"
  "sess ex_hub 0 = Some (SetSlotRenewer (\<lparr>sk_PairID = ''p1'', sk_Role = RoleDesktop\<rparr>, ''c1'') ex_session)"
  "sess ex_hub 2 = Some ex_session2" "h_instanceID ex_hub = ''i1''"
  "mb_slots (h_bp ex_hub) =
     [(\<lparr>sk_PairID = ''p1'', sk_Role = RoleDesktop\<rparr>, \<lparr>e_connID = ''c1'', e_instanceID = ''i1'', e_expiresAt = 10 + second\<rparr>)]"
  "mem_ok (h_bp ex_hub)" "mb_ttl (h_bp ex_hub) = second"
  by (simp_all add: ex_hub_def ex_hub0_def hub_New_def Register_def Register_claim_def mem_ClaimSlot_def
      mem_New_def Register_index_def supersede_def announcePresence_def on_session_def on_metrics_def Let_def
      peerKey_def mem_LookupInstance_def mem_ok_def second_def)


text \<open>The heartbeat of a superseded session: an answered ping finds the slot lost; an unanswered one renews nothing.\<close>

lemma tick_answered:
  assumes "mem_ok b" and "mem_held t b k = Some (c2, i2)" and "role_Valid (sk_Role k)" and "c \<noteq> c2"
    and "bp_run mem_ops (\<lambda>_ _. True) c k t b t' (h_bp h)"
    and "sess h p = Some s" and "s_renewSlot s = Some (k, c)" and "\<not> s_closeOnce s"
  shows "\<exists>s'. sess (snd (heartbeat_tick mem_ops t' True p m h)) p = Some s' \<and> s_closeOnce s' \<and> s_closeCode s' = 4001"
proof -
  have "fst (mem_RenewSlot t' k c (h_bp h)) = Inl ErrNotSlotOwner"
    using mem.excluded(1) [OF assms(1,2,4,3,5)] mem_RenewSlot_error [of t' k c "h_bp h"]
    by (cases "mem_RenewSlot t' k c (h_bp h)") auto
  then obtain b' where "mem_RenewSlot t' k c (h_bp h) = (Inl ErrNotSlotOwner, b')"
    by (cases "mem_RenewSlot t' k c (h_bp h)") auto
  with assms(6-8) show ?thesis
    by (simp add: heartbeat_tick_def renewer_def renew_def CloseWith_open CloseSuperseded_def)
qed

lemma tick_missed:
  assumes "sess h p = Some s" and "\<not> s_closeOnce s"
  shows "h_bp (snd (heartbeat_tick ops t False p m h)) = h_bp h"
    and "m_missed m = 0 \<Longrightarrow> m_missed (fst (heartbeat_tick ops t False p m h)) = 1"
    and "m_missed m = 0 \<Longrightarrow> sess (snd (heartbeat_tick ops t False p m h)) p = Some s"
    and "m_missed m \<ge> 1 \<Longrightarrow> \<exists>s'. sess (snd (heartbeat_tick ops t False p m h)) p = Some s' \<and> s_closeOnce s' \<and>
      s_closeCode s' = 1001"
  using assms by (simp_all add: heartbeat_tick_def CloseWith_open StatusGoingAway_def)


subsection \<open>Properties\<close>

text \<open>
  C7. The index of a hub is sound in every state it can reach, whatever the order in which registrations,
  deregistrations, frames, backplane events, drains and the loops of its sessions run: a slot is mapped to
  a session object that exists and whose token names exactly that pair and role, and that object is
  well-formed.
\<close>

theorem hub_index_sound:
  assumes "hub_reach ops cd inst b h" and "map_of (h_local h) k = Some p"
  shows "\<exists>s. sess h p = Some s \<and> slotKey s = k \<and> session_ok s"
  using hub_reach_ok [OF assms(1)] assms(2) unfolding hub_ok_def by blast

theorem hub_index_sound_witness:
  "\<exists>h s. hub_reach mem_ops ex_codec ''i1'' (mem_New second 8) h \<and>
     map_of (h_local h) \<lparr>sk_PairID = ''p1'', sk_Role = RoleDesktop\<rparr> = Some 0 \<and> sess h 0 = Some s \<and> session_ok s"
proof -
  let ?h0 = "hub_New ''i1'' (mem_New second 8)"
  let ?h1 = "?h0\<lparr>h_sessions := AList.update 0 (session_New ex_claims ''c1'' ex_opts) (h_sessions ?h0)\<rparr>"
  let ?h2 = "Register_index mem_ops ex_codec ex_io 0 (session_New ex_claims ''c1'' ex_opts)
    \<lparr>cr_Won = True, cr_EvictedConnID = '''', cr_EvictedOnThisInstance = False\<rparr> ?h1"
  have "hub_step mem_ops ex_codec ?h0 ?h1" by (rule hub_step.accepted) (simp add: hub_New_def)
  moreover have "hub_step mem_ops ex_codec ?h1 ?h2" by (rule hub_step.indexed) simp
  ultimately have r: "hub_reach mem_ops ex_codec ''i1'' (mem_New second 8) ?h2"
    by (blast intro: hub_reach.init hub_reach.next_state)
  have k: "map_of (h_local ?h2) \<lparr>sk_PairID = ''p1'', sk_Role = RoleDesktop\<rparr> = Some 0"
    by (simp add: Register_index_view(1) slotKey_def session_New_def)
  from hub_index_sound [OF r k] k r show ?thesis by blast
qed

text \<open>
  C1. Newest wins at the hub, on any backplane that keeps the slot contract: when a session registers for
  a slot that another session of the instance holds, the slot then belongs to the new connection, the
  index points at the new session, and the old one is closed, with code 4001 if it was still open.
\<close>

theorem register_newest_wins:
  assumes "slot_registry ops ok held live good" and "ok (h_bp h)" and "good (s_ID s) (h_instanceID h)"
    and "Register ops cd io p s h = (Inr u, h')"
    and "map_of (h_local h) (slotKey s) = Some q" and "sess h q = Some sq"
    and "live (io_now io 0) (h_bp h) (slotKey s) = Some (s_ID sq, h_instanceID h)"
    and "s_ID sq \<noteq> s_ID s" and "s_ID sq \<noteq> ''''"
  shows "held (io_now io 0) (h_bp h') (slotKey s) = Some (s_ID s, h_instanceID h) \<and>
    map_of (h_local h') (slotKey s) = Some p \<and>
    (\<exists>s'. sess h' q = Some s' \<and> s_closeOnce s' \<and>
       s_closeCode s' = (if s_closeOnce sq then s_closeCode sq else CloseSuperseded))"
  using slot_registry.Register_takes_slot [OF assms(1-4)] slot_registry.Register_closes_old [OF assms]
  by (auto simp: close_view_def CloseWith_def)

theorem register_newest_wins_witness:
  "\<exists>s'. sess (snd (Register mem_ops ex_codec ex_io 2 ex_session2 ex_hub)) 0 = Some s' \<and> s_closeCode s' = 4001"
proof -
  have live: "mem_live (io_now ex_io 0) (h_bp ex_hub) (slotKey ex_session2) = Some (''c1'', ''i1'')"
    by (simp add: mem_live_def ex_hub_eval second_def)
  obtain u h' where r: "Register mem_ops ex_codec ex_io 2 ex_session2 ex_hub = (Inr u, h')"
    using mem_Register_Inr by blast
  from register_newest_wins [OF mem.slot_registry_axioms ex_hub_eval(6) TrueI r, of 0
      "SetSlotRenewer (\<lparr>sk_PairID = ''p1'', sk_Role = RoleDesktop\<rparr>, ''c1'') ex_session"] live
  show ?thesis by (auto simp: r ex_hub_eval SetSlotRenewer_def CloseSuperseded_def)
qed

text \<open>
  C2. A superseded session cannot linger: from the moment another connection holds its slot on the in-memory
  backplane, and however the calls of all instances continue, the next heartbeat of the old session whose ping
  is answered closes it with code 4001, on whatever instance it runs. An unanswered ping renews nothing and, if
  it is the first, leaves the session as it was, but the heartbeat after it closes the session in either
  case: with code 4001 if its ping is answered, else with code 1001. So two heartbeats suffice.
\<close>

theorem superseded_closes_on_heartbeat:
  assumes "mem_ok b" and "mem_held t b k = Some (c2, i2)" and "role_Valid (sk_Role k)" and "c \<noteq> c2"
    and "bp_run mem_ops (\<lambda>_ _. True) c k t b t1 (h_bp h1)"
    and "sess h1 p = Some s1" and "s_renewSlot s1 = Some (k, c)" and "\<not> s_closeOnce s1"
    and "heartbeat_tick mem_ops t1 pong1 p m1 h1 = (m1', h1')"
    and "bp_run mem_ops (\<lambda>_ _. True) c k t1 (h_bp h1') t2 (h_bp h2)"
    and "sess h2 p = Some s2" and "s_renewSlot s2 = Some (k, c)" and "\<not> s_closeOnce s2" and "m_missed m2 = m_missed m1'"
    and "heartbeat_tick mem_ops t2 pong2 p m2 h2 = (m2', h2')"
  shows "if pong1 then \<exists>s. sess h1' p = Some s \<and> s_closeOnce s \<and> s_closeCode s = 4001
    else h_bp h1' = h_bp h1 \<and>
      (if m_missed m1 \<ge> 1 then \<exists>s. sess h1' p = Some s \<and> s_closeOnce s \<and> s_closeCode s = 1001
       else sess h1' p = Some s1 \<and>
         (\<exists>s. sess h2' p = Some s \<and> s_closeOnce s \<and> s_closeCode s = (if pong2 then 4001 else 1001)))"
proof (cases pong1)
  case True
  then show ?thesis using tick_answered [where m = m1, OF assms(1-8)] assms(9) by simp
next
  case False
  then have bp: "h_bp h1' = h_bp h1" using tick_missed(1) [where ops = mem_ops and t = t1 and m = m1, OF assms(6,8)] assms(9) by simp
  with assms(10) have run: "bp_run mem_ops (\<lambda>_ _. True) c k t b t2 (h_bp h2)"
    using bp_run_trans [OF assms(5)] by simp
  have two: "\<exists>s. sess h2' p = Some s \<and> s_closeOnce s \<and> s_closeCode s = (if pong2 then 4001 else 1001)" if "m_missed m1 = 0"
  proof (cases pong2)
    case True
    then show ?thesis using tick_answered [where m = m2, OF assms(1-4) run assms(11-13)] assms(15) by simp
  next
    case False
    have "m_missed m2 \<ge> 1" using tick_missed(2) [where ops = mem_ops and t = t1, OF assms(6,8) that] assms(9,14) \<open>\<not> pong1\<close> by simp
    with False show ?thesis using tick_missed(4) [where ops = mem_ops and t = t2 and m = m2, OF assms(11,13)] assms(15) by simp
  qed
  show ?thesis
  proof (cases "m_missed m1 \<ge> 1")
    case True
    then show ?thesis using tick_missed(4) [where ops = mem_ops and t = t1, OF assms(6,8) True] assms(9) bp \<open>\<not> pong1\<close> by auto
  next
    case one: False
    then show ?thesis using tick_missed(3) [where ops = mem_ops and t = t1 and m = m1, OF assms(6,8)] assms(9) bp \<open>\<not> pong1\<close> two by auto
  qed
qed

theorem superseded_closes_on_heartbeat_witness:
  "\<exists>m h1 s2 h2 s. heartbeat_tick mem_ops 200 False 0 \<lparr>m_missed = 0, m_deadline = 900, m_running = True\<rparr> (ex_hub\<lparr>h_bp :=
       snd (mem_ClaimSlot 200 \<lparr>sk_PairID = ''p1'', sk_Role = RoleDesktop\<rparr> ''c9'' ''i2'' (h_bp ex_hub))\<rparr>) = (m, h1) \<and>
     sess h1 0 = Some s2 \<and> \<not> s_closeOnce s2 \<and> heartbeat_tick mem_ops 200 True 0 m h1 = h2 \<and> sess (snd h2) 0 = Some s \<and>
     s_closeCode s = 4001"
proof -
  let ?k = "\<lparr>sk_PairID = ''p1'', sk_Role = RoleDesktop\<rparr>"
  let ?b = "snd (mem_ClaimSlot 200 ?k ''c9'' ''i2'' (h_bp ex_hub))"
  let ?h = "ex_hub\<lparr>h_bp := ?b\<rparr>"
  let ?m = "\<lparr>m_missed = 0, m_deadline = 900, m_running = True\<rparr>"
  let ?s = "SetSlotRenewer (?k, ''c1'') ex_session"
  have slots: "mb_slots ?b = AList.update ?k \<lparr>e_connID = ''c9'', e_instanceID = ''i2'', e_expiresAt = 200 + second\<rparr>
      (mb_slots (h_bp ex_hub)) \<and> mb_ttl ?b = second \<and> mb_qsize ?b = mb_qsize (h_bp ex_hub)"
    using mem_ClaimSlot_slots [OF prod.collapse [symmetric]] by (metis ex_hub_eval(7))
  then have b: "mem_ok ?b" "mem_held 200 ?b ?k = Some (''c9'', ''i2'')"
    using ex_hub_eval(6) by (auto simp: mem_held_def mem_ok_def)
  have r: "role_Valid (sk_Role ?k)" "''c1'' \<noteq> ''c9''" by (simp_all add: role_Valid_def)
  have s: "s_renewSlot ?s = Some (?k, ''c1'')" "\<not> s_closeOnce ?s" by (simp_all add: SetSlotRenewer_def)
  have h: "sess ?h 0 = Some ?s" by (simp add: ex_hub_eval)
  obtain m h1 where one: "heartbeat_tick mem_ops 200 False 0 ?m ?h = (m, h1)" by fastforce
  then have h1: "sess h1 0 = Some ?s" "h_bp h1 = ?b"
    using tick_missed(1,3) [where ops = mem_ops and t = 200 and m = ?m, OF h s(2)] by simp_all
  obtain m2 h2 where two: "heartbeat_tick mem_ops 200 True 0 m h1 = (m2, h2)" by fastforce
  from superseded_closes_on_heartbeat [OF b r _ h s one _ h1(1) s refl two] h1(2)
  show ?thesis using one two h1(1) s(2) bp_run.none by fastforce
qed

text \<open>
  The deferred clean-up of a superseded session disturbs nobody, on any backplane that keeps the
  contract: when the index and the slot belong to others, it removes nothing from the index, sends nothing
  to any session, and leaves every slot with its holder.
\<close>

theorem deregister_superseded:
  assumes "slot_registry ops ok held live good" and "ok (h_bp h)"
    and "map_of (h_local h) (slotKey s) \<noteq> Some p"
    and "held (io_now io 0) (h_bp h) (slotKey s) = Some (c2, i2)" and "c2 \<noteq> s_ID s"
  shows "h_local (Deregister ops cd io p s h) = h_local h \<and>
    h_sessions (Deregister ops cd io p s h) = h_sessions h \<and>
    held t (h_bp (Deregister ops cd io p s h)) = held t (h_bp h)"
  using slot_registry.Deregister_superseded [OF assms(1-3)] assms(4,5) by simp

theorem deregister_superseded_witness:
  "h_local (Deregister mem_ops ex_codec ex_io 2 ex_session2 ex_hub) = h_local ex_hub \<and>
   mem_held 500 (h_bp (Deregister mem_ops ex_codec ex_io 2 ex_session2 ex_hub))
     \<lparr>sk_PairID = ''p1'', sk_Role = RoleDesktop\<rparr> = Some (''c1'', ''i1'')"
proof -
  have held: "mem_held t (h_bp ex_hub) \<lparr>sk_PairID = ''p1'', sk_Role = RoleDesktop\<rparr> = Some (''c1'', ''i1'')" for t
    by (simp add: mem_held_def ex_hub_eval)
  from deregister_superseded [OF mem.slot_registry_axioms ex_hub_eval(6), of ex_session2 2 ex_io "''c1''" "''i1''" ex_codec 500]
  show ?thesis by (simp add: ex_hub_eval held)
qed


text \<open>
  C5. Frames stay inside their pair on one instance: routing a frame changes no session except the sender
  itself and the one indexed for the sender's pair and the opposite role. In particular no session of
  another pair, and no other session of the sender's role, is touched.
\<close>

theorem route_isolation:
  assumes "hub_reach ops cd inst b h" and "sess h q = Some sq" and "q \<noteq> p"
    and "c_PairID (s_Claims sq) \<noteq> c_PairID (s_Claims from) \<or>
         c_Role (s_Claims sq) \<noteq> Opposite (c_Role (s_Claims from))"
  shows "sess (Route ops cd io p from raw h) q = Some sq"
  by (rule Route_sess [OF hub_reach_ok [OF assms(1)] assms(2) _ assms(3)])
     (use assms(4) in \<open>auto simp: slotKey_def peerKey_def\<close>)

lemma ex_reach:
  "hub_reach mem_ops ex_codec ''i1'' (mem_New second 8) (Register_index mem_ops ex_codec ex_io 0
     (session_New ex_claims ''c1'' ex_opts) \<lparr>cr_Won = True, cr_EvictedConnID = '''', cr_EvictedOnThisInstance = False\<rparr>
     ((hub_New ''i1'' (mem_New second 8))\<lparr>h_sessions := [(0, session_New ex_claims ''c1'' ex_opts)]\<rparr>))"
proof -
  let ?h0 = "hub_New ''i1'' (mem_New second 8)"
  have "hub_step mem_ops ex_codec ?h0
      (?h0\<lparr>h_sessions := AList.update 0 (session_New ex_claims ''c1'' ex_opts) (h_sessions ?h0)\<rparr>)"
    by (rule hub_step.accepted) (simp add: hub_New_def)
  then have "hub_reach mem_ops ex_codec ''i1'' (mem_New second 8)
      (?h0\<lparr>h_sessions := [(0, session_New ex_claims ''c1'' ex_opts)]\<rparr>)"
    using hub_reach.next_state [OF hub_reach.init] by (simp add: hub_New_def)
  moreover have "sess (?h0\<lparr>h_sessions := [(0, session_New ex_claims ''c1'' ex_opts)]\<rparr>) 0
      = Some (session_New ex_claims ''c1'' ex_opts)" by simp
  ultimately show ?thesis by (rule hub_reach.next_state [OF _ hub_step.indexed])
qed

theorem route_isolation_witness:
  "\<exists>h s. hub_reach mem_ops ex_codec ''i1'' (mem_New second 8) h \<and> sess h 0 = Some s \<and>
     sess (Route mem_ops ex_codec ex_io 7 (session_New (ex_claims\<lparr>c_PairID := ''p2'', c_Role := RoleMobile\<rparr>) ''c7'' ex_opts)
       ''data'' h) 0 = Some s"
proof -
  let ?h = "Register_index mem_ops ex_codec ex_io 0 (session_New ex_claims ''c1'' ex_opts)
     \<lparr>cr_Won = True, cr_EvictedConnID = '''', cr_EvictedOnThisInstance = False\<rparr>
     ((hub_New ''i1'' (mem_New second 8))\<lparr>h_sessions := [(0, session_New ex_claims ''c1'' ex_opts)]\<rparr>)"
  have "map_of (h_local ?h) (slotKey (session_New ex_claims ''c1'' ex_opts)) = Some 0"
    by (simp add: Register_index_view(1))
  from hub_ok_sess [OF hub_reach_ok [OF ex_reach] this] obtain s where
    s: "sess ?h 0 = Some s" "slotKey s = slotKey (session_New ex_claims ''c1'' ex_opts)" by blast
  have "sess (Route mem_ops ex_codec ex_io 7 (session_New (ex_claims\<lparr>c_PairID := ''p2'', c_Role := RoleMobile\<rparr>) ''c7'' ex_opts)
       ''data'' ?h) 0 = Some s"
    by (rule route_isolation [OF ex_reach s(1)]) (use s(2) in \<open>simp_all add: slotKey_def session_New_def\<close>)
  with s ex_reach show ?thesis by blast
qed

lemma mem_Publish_frames:
  "map_of (mb_frames (snd (mem_Publish i f b))) j =
     (if j = i then map_option (try_send (mb_qsize b) f) (map_of (mb_frames b) i) else map_of (mb_frames b) j)"
  by (simp add: mem_Publish_def split: option.splits)

lemma mem_LookupInstance_snd [simp]: "mem_LookupInstance t k b = (r, b') \<Longrightarrow> b' = b"
  by (auto simp: mem_LookupInstance_def split: option.splits if_splits)

lemma peer_offline_bp [simp]: "h_bp (peer_offline cd io p h) = h_bp h"
  by (simp add: peer_offline_def)

lemma Route_published:
  "h_bp (Route mem_ops cd io p from raw h) = h_bp h \<or>
   (\<exists>i. h_bp (Route mem_ops cd io p from raw h) =
      snd (mem_Publish i \<lparr>rf_PairID = c_PairID (s_Claims from), rf_ToRole = Opposite (c_Role (s_Claims from)),
        rf_FromConn = s_ID from, rf_Data = raw\<rparr> (h_bp h)))"
proof (cases "map_of (h_local h) (peerKey from)")
  case None
  obtain r where r: "mem_LookupInstance (io_now io 1) (peerKey from) (h_bp h) = (r, h_bp h)"
    by (cases "mem_LookupInstance (io_now io 1) (peerKey from) (h_bp h)") (use mem_LookupInstance_snd in blast)
  show ?thesis
  proof (cases r)
    case (Inl e)
    with None r show ?thesis by (simp add: Route_def)
  next
    case (Inr i)
    obtain e b' where "mem_Publish i \<lparr>rf_PairID = sk_PairID (peerKey from), rf_ToRole = sk_Role (peerKey from),
        rf_FromConn = s_ID from, rf_Data = raw\<rparr> (h_bp h) = (e, b')" by fastforce
    with None r Inr show ?thesis
      by (cases e; cases "i \<noteq> [] \<and> i \<noteq> h_instanceID h") (auto simp: Route_def peerKey_def intro: exI [of _ i])
  qed
next
  case (Some q)
  then show ?thesis by (simp add: Route_def split: option.splits prod.splits bool.splits)
qed

text \<open>
  C6. Frames stay inside their pair across instances: a frame that routing a message of a session has put
  on the in-memory backplane carries that session's pair and the opposite role, and delivering it on any
  instance changes no session of another pair or of another role.
\<close>

theorem remote_isolation:
  assumes "map_of (mb_frames (h_bp (Route mem_ops cd io p from raw h))) inst = Some fs" and "f \<in> set fs"
    and "\<And>gs. map_of (mb_frames (h_bp h)) inst = Some gs \<Longrightarrow> f \<notin> set gs"
    and "hub_reach ops' cd' inst' b' g" and "sess g q = Some sq"
    and "c_PairID (s_Claims sq) \<noteq> c_PairID (s_Claims from) \<or>
         c_Role (s_Claims sq) \<noteq> Opposite (c_Role (s_Claims from))"
  shows "rf_Data f = raw \<and> sess (deliverLocal pick f g) q = Some sq"
proof -
  have "f = \<lparr>rf_PairID = c_PairID (s_Claims from), rf_ToRole = Opposite (c_Role (s_Claims from)),
      rf_FromConn = s_ID from, rf_Data = raw\<rparr>"
    using Route_published [of cd io p "from" raw h] assms(1-3)
    by (auto simp: mem_Publish_frames try_send_def split: option.splits if_splits)
  then show ?thesis
    using deliverLocal_sess [OF hub_reach_ok [OF assms(4)] assms(5), of f pick] assms(6)
    by (auto simp: slotKey_def)
qed


theorem remote_isolation_witness:
  "\<exists>f (g :: mem_bp hub) s. f \<in> set (the (map_of (mb_frames (h_bp (Route mem_ops ex_codec ex_io 7
       (session_New (ex_claims\<lparr>c_PairID := ''p2'', c_Role := RoleMobile\<rparr>) ''c7'' ex_opts) ''data''
       (hub_New ''i1'' (mem_SubscribeFrames ''i2'' (snd (mem_ClaimSlot 10 \<lparr>sk_PairID = ''p2'', sk_Role = RoleDesktop\<rparr>
          ''c9'' ''i2'' (mem_New second 8)))))))) ''i2'')) \<and>
     rf_Data f = ''data'' \<and> sess g 0 = Some s \<and> sess (deliverLocal False f g) 0 = Some s"
proof -
  let ?g = "Register_index mem_ops ex_codec ex_io 0 (session_New ex_claims ''c1'' ex_opts)
     \<lparr>cr_Won = True, cr_EvictedConnID = '''', cr_EvictedOnThisInstance = False\<rparr>
     ((hub_New ''i1'' (mem_New second 8))\<lparr>h_sessions := [(0, session_New ex_claims ''c1'' ex_opts)]\<rparr>)"
  let ?from = "session_New (ex_claims\<lparr>c_PairID := ''p2'', c_Role := RoleMobile\<rparr>) ''c7'' ex_opts"
  let ?h = "hub_New ''i1'' (mem_SubscribeFrames ''i2'' (snd (mem_ClaimSlot 10 \<lparr>sk_PairID = ''p2'', sk_Role = RoleDesktop\<rparr>
          ''c9'' ''i2'' (mem_New second 8)))) :: mem_bp hub"
  let ?f = "\<lparr>rf_PairID = ''p2'', rf_ToRole = RoleDesktop, rf_FromConn = ''c7'', rf_Data = ''data''\<rparr>"
  have fs: "map_of (mb_frames (h_bp (Route mem_ops ex_codec ex_io 7 ?from ''data'' ?h))) ''i2'' = Some [?f]"
    by (simp add: Route_def hub_New_def peerKey_def session_New_def mem_SubscribeFrames_def mem_ClaimSlot_def
        mem_New_def mem_LookupInstance_def mem_Publish_def try_send_def recordRelay_def on_metrics_def second_def Let_def)
  have new: "f \<notin> set gs" if "map_of (mb_frames (h_bp ?h)) ''i2'' = Some gs" for gs and f :: routed_frame
    using that by (simp add: hub_New_def mem_SubscribeFrames_def)
  have "map_of (h_local ?g) (slotKey (session_New ex_claims ''c1'' ex_opts)) = Some 0"
    by (simp add: Register_index_view(1))
  from hub_ok_sess [OF hub_reach_ok [OF ex_reach] this] obtain s where
    s: "sess ?g 0 = Some s" "slotKey s = slotKey (session_New ex_claims ''c1'' ex_opts)" by blast
  have d: "rf_Data ?f = ''data'' \<and> sess (deliverLocal False ?f ?g) 0 = Some s"
    by (rule remote_isolation [OF fs _ new ex_reach s(1)]) (use s(2) in \<open>simp_all add: slotKey_def session_New_def\<close>)
  have "?f \<in> set (the (map_of (mb_frames (h_bp (Route mem_ops ex_codec ex_io 7 ?from ''data'' ?h))) ''i2''))"
    unfolding fs by simp
  with d s(1) show ?thesis by blast
qed

text \<open>
  A local peer with room in its queue receives exactly the frame, at the end of its queue, and the
  relay counters record it; if the queue is full the peer is closed with code 4005, keeps what it had
  queued, and the frame is counted as undeliverable.
\<close>

theorem route_local:
  assumes "hub_reach ops cd inst b h" and "sess h p = Some from" and "role_Valid (c_Role (s_Claims from))"
    and "map_of (h_local h) (peerKey from) = Some q" and "sess h q = Some sq" and "\<not> s_closeOnce sq" and "\<not> s_ctxDone sq"
  shows "let h' = Route ops cd io p from raw h
    in if int (length (s_out sq)) < OutQueueSize (s_opts sq)
       then sess h' q = Some (sq\<lparr>s_out := s_out sq @ [raw]\<rparr>) \<and> sess h' p = Some from \<and>
         mt_PeerOffline (h_metrics h') = mt_PeerOffline (h_metrics h) \<and>
         mt_ForwardLatency (h_metrics h') = mt_ForwardLatency (h_metrics h) + 1
       else \<exists>sq'. sess h' q = Some sq' \<and> s_closeCode sq' = CloseProtocol \<and> s_out sq' = s_out sq \<and>
         mt_PeerOffline (h_metrics h') = mt_PeerOffline (h_metrics h) + 1"
proof -
  obtain sq0 where "sess h q = Some sq0" "slotKey sq0 = peerKey from"
    using hub_ok_sess [OF hub_reach_ok [OF assms(1)] assms(4)] by blast
  then have "slotKey sq = peerKey from" using assms(5) by simp
  then have "q \<noteq> p" using assms(2,3,5) Opposite_neq by (fastforce simp: slotKey_def peerKey_def)
  with assms show ?thesis
    by (simp add: Route_def Let_def Enqueue_def recordRelay_def on_metrics_def peer_offline_def send_error_def
        CloseWith_open)
qed


text \<open>For the remaining witnesses: the two ends of a pair, both registered on one instance.\<close>

definition ex_mobile :: session where
  "ex_mobile = session_New (ex_claims\<lparr>c_Role := RoleMobile, c_DeviceID := ''d2''\<rparr>) ''c3'' ex_opts"

definition ex_won :: claim_result where
  "ex_won = \<lparr>cr_Won = True, cr_EvictedConnID = '''', cr_EvictedOnThisInstance = False\<rparr>"

definition ex_pair0 :: "mem_bp hub" where
  "ex_pair0 = (hub_New ''i1'' (mem_New second 8))\<lparr>h_sessions := [(0, ex_session), (3, ex_mobile)]\<rparr>"

definition ex_pair :: "mem_bp hub" where
  "ex_pair = Register_index mem_ops ex_codec ex_io 3 ex_mobile ex_won
     (Register_index mem_ops ex_codec ex_io0 0 ex_session ex_won ex_pair0)"

lemma ex_pair_reach: "hub_reach mem_ops ex_codec ''i1'' (mem_New second 8) ex_pair"
proof -
  let ?h0 = "hub_New ''i1'' (mem_New second 8) :: mem_bp hub"
  let ?h1 = "?h0\<lparr>h_sessions := AList.update 0 (session_New ex_claims ''c1'' ex_opts) (h_sessions ?h0)\<rparr>"
  let ?h2 = "?h1\<lparr>h_sessions := AList.update 3 (session_New (ex_claims\<lparr>c_Role := RoleMobile, c_DeviceID := ''d2''\<rparr>)
     ''c3'' ex_opts) (h_sessions ?h1)\<rparr>"
  have "hub_step mem_ops ex_codec ?h0 ?h1" by (rule hub_step.accepted) (simp add: hub_New_def)
  moreover have "hub_step mem_ops ex_codec ?h1 ?h2" by (rule hub_step.accepted) (simp add: hub_New_def)
  moreover have "?h2 = ex_pair0" by (simp add: ex_pair0_def ex_session_def ex_mobile_def hub_New_def)
  ultimately have r: "hub_reach mem_ops ex_codec ''i1'' (mem_New second 8) ex_pair0"
    by (metis hub_reach.init hub_reach.next_state)
  have "sess ex_pair0 0 = Some ex_session" by (simp add: ex_pair0_def)
  from hub_reach.next_state [OF r hub_step.indexed [OF this]]
  have r1: "hub_reach mem_ops ex_codec ''i1'' (mem_New second 8)
    (Register_index mem_ops ex_codec ex_io0 0 ex_session ex_won ex_pair0)" .
  have "sess (Register_index mem_ops ex_codec ex_io0 0 ex_session ex_won ex_pair0) 3 = Some ex_mobile"
    by (simp add: ex_pair0_def ex_won_def hub_New_def Register_index_def supersede_def announcePresence_def on_metrics_def
        Let_def peerKey_def mem_LookupInstance_def mem_New_def)
  from hub_reach.next_state [OF r1 hub_step.indexed [OF this]] show ?thesis by (simp add: ex_pair_def)
qed

lemma ex_mobile_simps [simp]:
  "slotKey ex_mobile = \<lparr>sk_PairID = ''p1'', sk_Role = RoleMobile\<rparr>"
  "peerKey ex_mobile = \<lparr>sk_PairID = ''p1'', sk_Role = RoleDesktop\<rparr>"
  "peerKey ex_session = \<lparr>sk_PairID = ''p1'', sk_Role = RoleMobile\<rparr>"
  "s_out ex_mobile = []" "OutQueueSize (s_opts ex_mobile) = 4" "\<not> s_ctxDone ex_mobile" "\<not> s_closeOnce ex_mobile"
  "s_ID ex_mobile = ''c3''" "c_PairID (s_Claims ex_mobile) = ''p1''" "c_AccountID (s_Claims ex_mobile) = ''a1''"
  "c_Role (s_Claims ex_mobile) = RoleMobile" "c_DeviceID (s_Claims ex_mobile) = ''d2''"
  by (simp_all add: ex_mobile_def session_New_def slotKey_def peerKey_def ex_opts_def)

definition ex_desktop1 :: session where
  "ex_desktop1 = (SetSlotRenewer (\<lparr>sk_PairID = ''p1'', sk_Role = RoleDesktop\<rparr>, ''c1'') ex_session)\<lparr>s_out := [''sys'']\<rparr>"

definition ex_mobile1 :: session where
  "ex_mobile1 = (SetSlotRenewer (\<lparr>sk_PairID = ''p1'', sk_Role = RoleMobile\<rparr>, ''c3'') ex_mobile)\<lparr>s_out := [''sys'']\<rparr>"

lemma ex_pair_eval:
  "map_of (h_local ex_pair) \<lparr>sk_PairID = ''p1'', sk_Role = RoleDesktop\<rparr> = Some 0"
  "map_of (h_local ex_pair) \<lparr>sk_PairID = ''p1'', sk_Role = RoleMobile\<rparr> = Some 3"
  "sess ex_pair 0 = Some ex_desktop1" "sess ex_pair 3 = Some ex_mobile1"
  by (simp_all add: ex_pair_def ex_pair0_def ex_won_def hub_New_def Register_index_def supersede_def announcePresence_def
      on_metrics_def Let_def mem_LookupInstance_def mem_New_def send_sys_def SendSys_def NewSys_def Encode_def
      ex_codec_def Enqueue_def ex_desktop1_def ex_mobile1_def SetSlotRenewer_def TypeSys_def)

lemma ex_live_simps [simp]:
  "s_Claims ex_desktop1 = ex_claims" "\<not> s_closeOnce ex_desktop1" "\<not> s_ctxDone ex_desktop1"
  "s_out ex_desktop1 = [''sys'']" "OutQueueSize (s_opts ex_desktop1) = 4"
  "s_Claims ex_mobile1 = s_Claims ex_mobile" "\<not> s_closeOnce ex_mobile1" "\<not> s_ctxDone ex_mobile1"
  "s_expiry ex_desktop1 = 1000000"
  by (simp_all add: ex_desktop1_def ex_mobile1_def SetSlotRenewer_def)

theorem route_local_witness:
  "sess (Route mem_ops ex_codec ex_io 3 ex_mobile1 ''data'' ex_pair) 0 = Some (ex_desktop1\<lparr>s_out := [''sys'', ''data'']\<rparr>)"
proof -
  have "peerKey ex_mobile1 = \<lparr>sk_PairID = ''p1'', sk_Role = RoleDesktop\<rparr>" by (simp add: peerKey_def)
  with route_local [OF ex_pair_reach ex_pair_eval(4), of 0 ex_desktop1 ex_io "''data''"] show ?thesis
    by (simp add: ex_pair_eval Let_def)
qed


text \<open>
  C8. Revocation reaches exactly the sessions in its scope: an indexed session is closed, with code 4004 if it was
  still open, when the event names a pair and that is the session's, or names an account and that is the
  session's; every other session is left as it was, and the index does not change.
\<close>

theorem revoke_scope:
  assumes "sess h p = Some s"
  shows "sess (revoke ev h) p =
      Some (if p \<in> set (mvals (h_local h)) \<and>
          (re_PairID ev \<noteq> '''' \<and> c_PairID (s_Claims s) = re_PairID ev \<or>
           re_AccountID ev \<noteq> '''' \<and> c_AccountID (s_Claims s) = re_AccountID ev)
        then (if s_closeOnce s then s
          else s\<lparr>s_closeOnce := True, s_closeCode := 4004, s_closeReason := ''revoked'',
            s_closeFrame := Some (4004, ''revoked''), s_ctxDone := True\<rparr>)
        else s) \<and>
    h_local (revoke ev h) = h_local h"
proof -
  have "h_local (fold (revoke_one ev) ps g) = h_local g" for ps and g :: "'a hub"
    by (induction ps arbitrary: g) (auto simp: revoke_one_def split: option.splits)
  with assms show ?thesis
    by (simp add: revoke_def revoke_fold revoked_by_def CloseWith_def CloseRevoked_def truncateReason_def)
qed

theorem revoke_scope_witness:
  "\<exists>s. sess (revoke \<lparr>re_PairID = ''p1'', re_AccountID = ''''\<rparr> ex_pair) 3 = Some s \<and> s_closeCode s = 4004"
proof -
  have "3 \<in> set (mvals (h_local ex_pair))" using map_of_mvals ex_pair_eval(2) by metis
  with revoke_scope [OF ex_pair_eval(4), of "\<lparr>re_PairID = ''p1'', re_AccountID = ''''\<rparr>"] show ?thesis
    by simp
qed

text \<open>
  C9. Refreshing a token over the live socket cannot change who the session is: its expiry moves only if
  the verifier accepts the new token and that token names the same pair, role, account and device, and
  then to the expiry of that token; an accepted token of another identity closes the session with code
  4005; claims never change, and no other session is touched.
\<close>

theorem refresh_identity:
  assumes "sess h p = Some s" and "\<not> s_closeOnce s"
  shows "\<exists>s'. sess (Refresh verify cd io p s tok h) p = Some s' \<and> s_Claims s' = s_Claims s \<and>
    (s_expiry s' = s_expiry s \<or>
      (\<exists>c e. verify tok = Inr c \<and> c_PairID c = c_PairID (s_Claims s) \<and> c_Role c = c_Role (s_Claims s) \<and>
        c_AccountID c = c_AccountID (s_Claims s) \<and> c_DeviceID c = c_DeviceID (s_Claims s) \<and>
        c_ExpiresAt c = Some e \<and> s_expiry s' = Unix e)) \<and>
    (s_closeOnce s' \<longleftrightarrow> tok \<noteq> '''' \<and> (\<exists>c. verify tok = Inr c \<and> (c_PairID c, c_Role c, c_AccountID c, c_DeviceID c) \<noteq>
        (c_PairID (s_Claims s), c_Role (s_Claims s), c_AccountID (s_Claims s), c_DeviceID (s_Claims s)))) \<and>
    (s_closeOnce s' \<longrightarrow> s_closeCode s' = CloseProtocol) \<and>
    (\<forall>q. q \<noteq> p \<longrightarrow> sess (Refresh verify cd io p s tok h) q = sess h q)"
proof -
  have err: "s_expiry (snd (SendError cd pk i t c d s)) = s_expiry s"
    "s_closeOnce (snd (SendError cd pk i t c d s)) = s_closeOnce s" for pk i t c d
    using SendError_Enqueue [of cd pk i t c d s] by auto
  have set: "s_Claims (SetExpiry u s) = s_Claims s" "s_expiry (SetExpiry u s) = u" for u
    by (simp_all add: SetExpiry_def)
  show ?thesis
  proof (cases "tok = '''' \<or> (\<exists>ae. verify tok = Inl ae)")
    case True
    then show ?thesis using assms by (auto simp: Refresh_def send_error_def err)
  next
    case False
    then obtain c where c: "tok \<noteq> ''''" "verify tok = Inr c" by (cases "verify tok") auto
    then show ?thesis using assms
      by (cases "c_ExpiresAt c") (auto simp: Refresh_def set CloseWith_open)
  qed
qed

theorem refresh_identity_witness:
  "\<exists>s'. sess (Refresh (\<lambda>_. Inr (ex_claims\<lparr>c_DeviceID := ''d9''\<rparr>)) ex_codec ex_io 0 ex_desktop1 ''tok'' ex_pair) 0 = Some s' \<and>
     s_closeCode s' = CloseProtocol"
  using refresh_identity [OF ex_pair_eval(3), of "\<lambda>_. Inr (ex_claims\<lparr>c_DeviceID := ''d9''\<rparr>)" ex_codec ex_io "''tok''"]
  by auto

lemma drain_fold:
  "fst (fold (\<lambda>p (n, h). (n + 1, send_sys cd io n SysShutdown d p h)) ps x) = fst x + length ps \<and>
   map_option close_view (sess (snd (fold (\<lambda>p (n, h). (n + 1, send_sys cd io n SysShutdown d p h)) ps x)) q) =
     map_option close_view (sess (snd x) q) \<and>
   h_local (snd (fold (\<lambda>p (n, h). (n + 1, send_sys cd io n SysShutdown d p h)) ps x)) = h_local (snd x)"
proof (induction ps arbitrary: x)
  case (Cons p ps)
  obtain n h where x: "x = (n, h)" by fastforce
  have "map_option close_view (sess (send_sys cd io n SysShutdown d p h) q) = map_option close_view (sess h q)"
    by (simp add: send_sys_def option.map_comp comp_def)
  with Cons [of "(n + 1, send_sys cd io n SysShutdown d p h)"] x show ?case by simp
qed simp

text \<open>
  A drain reaches everybody: after the shutdown notice and the closing of all sessions, every indexed
  session is closed, with code 1001 if it was still open, and the number of notices is the number of
  indexed sessions.
\<close>

theorem drain_closes_all:
  assumes "map_of (h_local h) k = Some p" and "sess h p = Some s"
    and "DrainNotify cd io detail h = (n, h1)"
  shows "n = length (h_local h) \<and>
    (\<exists>s'. sess (CloseAll StatusGoingAway reason h1) p = Some s' \<and> s_closeOnce s' \<and>
       s_closeCode s' = (if s_closeOnce s then s_closeCode s else StatusGoingAway))"
proof -
  from drain_fold [of cd io detail "mvals (h_local h)" "(0, h)"] assms(3)
  have n: "n = length (h_local h)" and l: "h_local h1 = h_local h"
    and v: "map_option close_view (sess h1 p) = map_option close_view (sess h p)"
    by (simp_all add: DrainNotify_def)
  from v assms(2) obtain s1 where s1: "sess h1 p = Some s1" "close_view s1 = close_view s" by auto
  have "p \<in> set (mvals (h_local h1))" using map_of_mvals [OF assms(1)] l by simp
  with s1 n show ?thesis by (auto simp: CloseAll_def CloseAll_fold close_view_def CloseWith_def)
qed

theorem drain_closes_all_witness:
  "\<exists>s'. sess (CloseAll StatusGoingAway ''server draining'' (snd (DrainNotify ex_codec ex_io ''server draining'' ex_pair))) 0
     = Some s' \<and> s_closeCode s' = 1001"
  using drain_closes_all [OF ex_pair_eval(1,3) prod.collapse [symmetric], of ex_codec ex_io "''server draining''" "''server draining''"]
  by (auto simp: StatusGoingAway_def)


text \<open>
  C15. An eviction notice is not tied to the connection it was meant for: handled on an instance after a
  session of that instance has registered for the slot, it closes that session with code 4001 although
  the session is the slot's rightful holder. The witness is a notice queued for an earlier connection,
  still waiting when the newer one registers.
\<close>

theorem late_eviction_hits_holder:
  assumes "slot_registry ops ok held live good" and "ok (h_bp h)" and "good (s_ID s) (h_instanceID h)"
    and "sess h p = Some s" and "\<not> s_closeOnce s"
    and "map_of (h_local h) (slotKey s) \<noteq> Some p"
    and "Register ops cd io p s h = (Inr u, h')"
  shows "held (io_now io 0) (h_bp h') (slotKey s) = Some (s_ID s, h_instanceID h) \<and>
    (\<exists>s'. sess (Run_turn pick (EvictionEvent (slotKey s)) h') p = Some s' \<and> s_closeOnce s' \<and>
       s_closeCode s' = CloseSuperseded)"
proof -
  note t = slot_registry.Register_takes_slot [OF assms(1-3,7)]
  from assms(7) obtain res b' where
    c: "ClaimSlot ops (io_now io 0) (slotKey s) (s_ID s) (h_instanceID h) (h_bp h) = (Inr res, b')"
    and h': "h' = Register_index ops cd io p s res (h\<lparr>h_bp := b'\<rparr>)"
    by (rule Register_Inr)
  have won: "cr_Won res" using slot_registry.claim_won [OF assms(1-3) c] by simp
  have "sess (supersede res (slotKey s) (h\<lparr>h_bp := b'\<rparr>)) p = Some s"
    using assms(4,6) by (auto simp: supersede_def split: option.splits)
  then have "map_option close_view (sess h' p) = Some (close_view s)"
    unfolding h' Register_index_view(2) [OF won] by simp
  then obtain s1 where "sess h' p = Some s1" "\<not> s_closeOnce s1"
    using assms(5) by (auto simp: close_view_def)
  with t show ?thesis by (simp add: evictLocal_def CloseWith_open)
qed

definition ex_raced :: "mem_bp hub" where
  "ex_raced = ex_hub\<lparr>h_bp := snd (mem_ClaimSlot 20 \<lparr>sk_PairID = ''p1'', sk_Role = RoleDesktop\<rparr> ''c8'' ''i2''
     (mem_SubscribeEvictions ''i1'' (h_bp ex_hub)))\<rparr>"


theorem late_eviction_hits_holder_witness:
  "map_of (mb_evictions (h_bp ex_raced)) ''i1'' = Some [\<lparr>sk_PairID = ''p1'', sk_Role = RoleDesktop\<rparr>] \<and>
   (\<exists>h' s'. Register mem_ops ex_codec ex_io 2 ex_session2 ex_raced = (Inr (), h') \<and>
     mem_held 100 (h_bp h') \<lparr>sk_PairID = ''p1'', sk_Role = RoleDesktop\<rparr> = Some (''c2'', ''i1'') \<and>
     sess (Run_turn False (EvictionEvent \<lparr>sk_PairID = ''p1'', sk_Role = RoleDesktop\<rparr>) h') 2 = Some s' \<and>
     s_closeCode s' = 4001)"
proof -
  let ?k = "\<lparr>sk_PairID = ''p1'', sk_Role = RoleDesktop\<rparr>"
  have queued: "map_of (mb_evictions (h_bp ex_raced)) ''i1'' = Some [?k]"
    by (simp add: ex_raced_def mem_ClaimSlot_def mem_SubscribeEvictions_def ex_hub_eval second_def notifyEviction_def
        try_send_def) (use ex_hub_eval(6) in \<open>simp add: mem_ok_def\<close>)
  have ok: "mem_ok (h_bp ex_raced)"
    using mem_ClaimSlot_slots [OF prod.collapse [symmetric], of 20 ?k "''c8''" "''i2''"
        "mem_SubscribeEvictions ''i1'' (h_bp ex_hub)"] ex_hub_eval(6)
    by (simp add: ex_raced_def mem_ok_def mem_SubscribeEvictions_def)
  obtain h' where r: "Register mem_ops ex_codec ex_io 2 ex_session2 ex_raced = (Inr (), h')"
    using mem_Register_Inr by blast
  have e: "sess ex_raced 2 = Some ex_session2" "map_of (h_local ex_raced) ?k = Some 0" "h_instanceID ex_raced = ''i1''"
    by (simp_all add: ex_raced_def ex_hub_eval)
  from late_eviction_hits_holder [OF mem.slot_registry_axioms ok TrueI e(1) _ _ r] queued r e show ?thesis
    by (auto simp: CloseSuperseded_def)
qed

end
