(* ===== verification/RateLimit.thy ===== *)
theory RateLimit
  imports SG_Prelude
begin

section \<open>Rate limiting and bans\<close>

text \<open>
  Models \<^verbatim>\<open>internal/ratelimit/ratelimit.go\<close>. The token bucket is \<^verbatim>\<open>golang.org/x/time/rate\<close>: a record of its
  constructor and its \<^verbatim>\<open>Allow\<close>. Rates are events per minute, as the callers give them; dividing by sixty
  keeps the sign, which is all this package looks at.
\<close>

subsection \<open>Per-key token buckets\<close>

record 'l bucket_ops =
  NewLimiter :: "int \<Rightarrow> int \<Rightarrow> 'l"
  bucket_Allow :: "time \<Rightarrow> 'l \<Rightarrow> bool \<times> 'l"

record 'l limiterEntry =
  le_lim :: 'l
  le_seen :: time

record 'l keyed_limiter =
  kl_perMinute :: int
  kl_burst :: int
  kl_entries :: "(string, 'l limiterEntry) gomap"

definition NewKeyedLimiter :: "int \<Rightarrow> int \<Rightarrow> 'l keyed_limiter" where
  "NewKeyedLimiter perMinute burst = \<lparr>kl_perMinute = perMinute, kl_burst = burst, kl_entries = []\<rparr>"

definition limiter_disabled :: "'l keyed_limiter \<Rightarrow> bool" where
  "limiter_disabled k \<longleftrightarrow> kl_perMinute k \<le> 0 \<or> kl_burst k \<le> 0"

definition Allow :: "'l bucket_ops \<Rightarrow> time \<Rightarrow> string \<Rightarrow> 'l keyed_limiter \<Rightarrow> bool \<times> 'l keyed_limiter" where
  "Allow ops now key k =
     (if limiter_disabled k then (True, k)
      else let lim = (case map_of (kl_entries k) key of
                        Some e \<Rightarrow> le_lim e
                      | None \<Rightarrow> NewLimiter ops (kl_perMinute k) (kl_burst k))
           in case bucket_Allow ops now lim of
                (ok, lim') \<Rightarrow>
                  (ok, k\<lparr>kl_entries := AList.update key \<lparr>le_lim = lim', le_seen = now\<rparr> (kl_entries k)\<rparr>))"

definition limiter_Sweep :: "time \<Rightarrow> duration \<Rightarrow> 'l keyed_limiter \<Rightarrow> 'l keyed_limiter" where
  "limiter_Sweep now idle k = k\<lparr>kl_entries := mfilter (\<lambda>e. \<not> le_seen e < now - idle) (kl_entries k)\<rparr>"

definition limiter_Size :: "'l keyed_limiter \<Rightarrow> nat" where
  "limiter_Size k = length (kl_entries k)"

subsection \<open>Strikes and bans\<close>

record banEntry =
  be_strikes :: int
  be_windowStart :: time
  be_bannedUntil :: time

record ban_tracker =
  bt_threshold :: int
  bt_strikeWindow :: duration
  bt_banWindow :: duration
  bt_entries :: "(string, banEntry) gomap"

definition NewBanTracker :: "int \<Rightarrow> duration \<Rightarrow> duration \<Rightarrow> ban_tracker" where
  "NewBanTracker threshold strikeWindow banWindow =
     \<lparr>bt_threshold = threshold, bt_strikeWindow = strikeWindow, bt_banWindow = banWindow, bt_entries = []\<rparr>"

definition bans_disabled :: "ban_tracker \<Rightarrow> bool" where
  "bans_disabled b \<longleftrightarrow> bt_threshold b \<le> 0"

definition Strike :: "time \<Rightarrow> string \<Rightarrow> ban_tracker \<Rightarrow> bool \<times> ban_tracker" where
  "Strike now key b =
     (if bans_disabled b then (False, b)
      else
        let e0 = (case map_of (bt_entries b) key of
                    Some e \<Rightarrow> e
                  | None \<Rightarrow> \<lparr>be_strikes = 0, be_windowStart = now, be_bannedUntil = 0\<rparr>);
            e1 = (if now > be_bannedUntil e0 \<and> time_Sub now (be_windowStart e0) > bt_strikeWindow b
                  then e0\<lparr>be_strikes := 0, be_windowStart := now\<rparr> else e0);
            e2 = e1\<lparr>be_strikes := be_strikes e1 + 1\<rparr>
        in if be_strikes e2 \<ge> bt_threshold b
           then (True, b\<lparr>bt_entries := AList.update key
                   (e2\<lparr>be_bannedUntil := now + bt_banWindow b, be_strikes := 0, be_windowStart := now\<rparr>) (bt_entries b)\<rparr>)
           else (False, b\<lparr>bt_entries := AList.update key e2 (bt_entries b)\<rparr>))"

definition Banned :: "time \<Rightarrow> string \<Rightarrow> ban_tracker \<Rightarrow> bool \<times> duration" where
  "Banned now key b =
     (if bans_disabled b then (False, 0)
      else case map_of (bt_entries b) key of
             None \<Rightarrow> (False, 0)
           | Some e \<Rightarrow> (if \<not> now < be_bannedUntil e then (False, 0) else (True, time_Sub (be_bannedUntil e) now)))"

definition ActiveBans :: "time \<Rightarrow> ban_tracker \<Rightarrow> nat" where
  "ActiveBans now b = (if bans_disabled b then 0 else mcount (\<lambda>e. now < be_bannedUntil e) (bt_entries b))"

definition bans_Sweep :: "time \<Rightarrow> ban_tracker \<Rightarrow> ban_tracker" where
  "bans_Sweep now b =
     (if bans_disabled b then b
      else b\<lparr>bt_entries := mfilter (\<lambda>e. now < be_bannedUntil e \<or>
               \<not> time_Sub now (be_windowStart e) > bt_strikeWindow b) (bt_entries b)\<rparr>)"

subsection \<open>Facts\<close>

lemma Allow_frame:
  "Allow ops now key k = (ok, k') \<Longrightarrow> key' \<noteq> key \<Longrightarrow> map_of (kl_entries k') key' = map_of (kl_entries k) key'"
  by (auto simp: Allow_def Let_def split: if_splits prod.splits)

lemma Strike_frame:
  "Strike now key b = (r, b') \<Longrightarrow> bt_threshold b' = bt_threshold b \<and> bt_strikeWindow b' = bt_strikeWindow b \<and>
     bt_banWindow b' = bt_banWindow b \<and> (key' \<noteq> key \<longrightarrow> map_of (bt_entries b') key' = map_of (bt_entries b) key')"
  by (auto simp: Strike_def Let_def split: if_splits)

lemma Banned_frame: "Strike now key b = (r, b') \<Longrightarrow> key' \<noteq> key \<Longrightarrow> Banned t key' b' = Banned t key' b"
  using Strike_frame [of now key b r b' key'] by (simp add: Banned_def bans_disabled_def)

text \<open>Strikes at the given times, in order, and what each returned.\<close>

fun strikes :: "time list \<Rightarrow> string \<Rightarrow> ban_tracker \<Rightarrow> bool list \<times> ban_tracker" where
  "strikes [] key b = ([], b)"
| "strikes (t # ts) key b =
     (case Strike t key b of (r, b1) \<Rightarrow> (case strikes ts key b1 of (rs, b2) \<Rightarrow> (r # rs, b2)))"

text \<open>
  While the strikes stay inside one window and below the threshold, the entry counts them; \<open>counting\<close> is
  that state.
\<close>

definition counting :: "string \<Rightarrow> time \<Rightarrow> int \<Rightarrow> ban_tracker \<Rightarrow> bool" where
  "counting key t0 n b \<longleftrightarrow>
     (\<exists>e. map_of (bt_entries b) key = Some e \<and> be_strikes e = n \<and> be_windowStart e = t0)"

lemma Strike_counting:
  assumes "\<not> bans_disabled b" and "counting key t0 n b" and "time_Sub t t0 \<le> bt_strikeWindow b"
  shows "Strike t key b = (n + 1 \<ge> bt_threshold b, snd (Strike t key b))"
    and "n + 1 < bt_threshold b \<Longrightarrow> counting key t0 (n + 1) (snd (Strike t key b))"
    and "n + 1 \<ge> bt_threshold b \<Longrightarrow> \<exists>e. map_of (bt_entries (snd (Strike t key b))) key = Some e \<and>
      be_bannedUntil e = t + bt_banWindow b"
  using assms by (auto simp: Strike_def counting_def Let_def)

lemma Strike_fresh:
  assumes "\<not> bans_disabled b" and "map_of (bt_entries b) key = None" and "0 \<le> bt_strikeWindow b"
  shows "Strike t key b = (1 \<ge> bt_threshold b, snd (Strike t key b))"
    and "1 < bt_threshold b \<Longrightarrow> counting key t 1 (snd (Strike t key b))"
    and "1 \<ge> bt_threshold b \<Longrightarrow> \<exists>e. map_of (bt_entries (snd (Strike t key b))) key = Some e \<and>
      be_bannedUntil e = t + bt_banWindow b"
  using assms by (auto simp: Strike_def counting_def Let_def time_Sub_def)

lemma time_Sub_le_window: "t - t0 \<le> w \<Longrightarrow> min_int64 \<le> w \<Longrightarrow> time_Sub t t0 \<le> w"
  by (simp add: time_Sub_def)

lemma strikes_counting:
  assumes "\<not> bans_disabled b" and "counting key t0 n b" and "ts \<noteq> []"
    and "\<forall>t \<in> set ts. time_Sub t t0 \<le> bt_strikeWindow b" and "n + int (length ts) = bt_threshold b"
  shows "fst (strikes ts key b) = replicate (length ts - 1) False @ [True] \<and>
    (\<exists>e. map_of (bt_entries (snd (strikes ts key b))) key = Some e \<and> be_bannedUntil e = last ts + bt_banWindow b)"
  using assms
proof (induction ts arbitrary: b n)
  case (Cons t ts)
  obtain r b1 where s: "Strike t key b = (r, b1)" by fastforce
  have fr: "bt_threshold b1 = bt_threshold b" "bt_strikeWindow b1 = bt_strikeWindow b" "bt_banWindow b1 = bt_banWindow b"
    using Strike_frame [OF s] by auto
  note c = Strike_counting [OF Cons.prems(1,2), of t]
  have w: "time_Sub t t0 \<le> bt_strikeWindow b" using Cons.prems(4) by simp
  show ?case
  proof (cases "ts = []")
    case True
    with c(1,3) [OF w] s Cons.prems(5) show ?thesis by simp
  next
    case False
    then have rep: "replicate (length ts) False = False # replicate (length ts - 1) False" by (cases ts) auto
    have lt: "n + 1 < bt_threshold b" using Cons.prems(5) False by (cases ts) auto
    have "r = False" using c(1) [OF w] s lt by simp
    moreover have "counting key t0 (n + 1) b1" using c(2) [OF w lt] s by simp
    then have "fst (strikes ts key b1) = replicate (length ts - 1) False @ [True] \<and>
      (\<exists>e. map_of (bt_entries (snd (strikes ts key b1))) key = Some e \<and> be_bannedUntil e = last ts + bt_banWindow b1)"
      using Cons.IH [of b1 "n + 1"] Cons.prems fr False by (simp add: bans_disabled_def)
    moreover obtain rs b2 where "strikes ts key b1 = (rs, b2)" by fastforce
    ultimately show ?thesis using s False fr(3) rep by simp
  qed
qed simp


lemma snd_strikes: "Strike t key b = (r, b1) \<Longrightarrow> snd (strikes (t # ts) key b) = snd (strikes ts key b1)"
  by (simp split: prod.splits)

lemma strikes_frame: "bt_threshold (snd (strikes ts key b)) = bt_threshold b"
proof (induction ts arbitrary: b)
  case (Cons t ts)
  obtain r b1 where s: "Strike t key b = (r, b1)" by fastforce
  then show ?case using Cons [of b1] Strike_frame [OF s] by (simp add: snd_strikes del: strikes.simps)
qed simp

lemma strikes_fresh:
  assumes "\<not> bans_disabled b" and "map_of (bt_entries b) key = None"
    and "\<forall>t \<in> set ts. time_Sub t (hd ts) \<le> bt_strikeWindow b" and "int (length ts) = bt_threshold b"
    and "0 \<le> bt_strikeWindow b"
  shows "fst (strikes ts key b) = replicate (length ts - 1) False @ [True] \<and>
    (\<exists>e. map_of (bt_entries (snd (strikes ts key b))) key = Some e \<and> be_bannedUntil e = last ts + bt_banWindow b)"
proof (cases ts)
  case Nil
  with assms(1,4) show ?thesis by (simp add: bans_disabled_def)
next
  case (Cons t us)
  obtain r b1 where s: "Strike t key b = (r, b1)" by fastforce
  note f = Strike_fresh [OF assms(1,2,5), of t]
  have fr: "bt_threshold b1 = bt_threshold b" "bt_strikeWindow b1 = bt_strikeWindow b" "bt_banWindow b1 = bt_banWindow b"
    using Strike_frame [OF s] by auto
  show ?thesis
  proof (cases "us = []")
    case True
    with f(1,3) s Cons assms(4) show ?thesis by simp
  next
    case False
    then have rep: "replicate (length us) False = False # replicate (length us - 1) False" by (cases us) auto
    have lt: "1 < bt_threshold b" using assms(4) Cons False by (cases us) auto
    have "r = False" using f(1) s lt by simp
    moreover have "counting key t 1 b1" using f(2) [OF lt] s by simp
    then have "fst (strikes us key b1) = replicate (length us - 1) False @ [True] \<and>
      (\<exists>e. map_of (bt_entries (snd (strikes us key b1))) key = Some e \<and> be_bannedUntil e = last us + bt_banWindow b1)"
      using strikes_counting [of b1 key t 1 us] assms Cons False fr by (simp add: bans_disabled_def)
    moreover obtain rs b2 where "strikes us key b1 = (rs, b2)" by fastforce
    ultimately show ?thesis using s Cons False fr(3) rep by simp
  qed
qed

subsection \<open>Properties\<close>

text \<open>
  C18. Bans follow the configured policy: for a key not seen before, a run of as many offences as the
  threshold, all within the strike window of the first, reports a ban at the last one and only there; from
  then on the key is banned until exactly the ban window after that offence has passed, and no other key's
  ban status changes.
\<close>

theorem ban_policy:
  assumes "0 < bt_threshold b" and "map_of (bt_entries b) key = None" and "0 \<le> bt_strikeWindow b"
    and "int (length ts) = bt_threshold b" and "\<forall>t \<in> set ts. time_Sub t (hd ts) \<le> bt_strikeWindow b"
  shows "fst (strikes ts key b) = replicate (length ts - 1) False @ [True] \<and>
    (\<forall>t. fst (Banned t key (snd (strikes ts key b))) \<longleftrightarrow> t < last ts + bt_banWindow b) \<and>
    (\<forall>t key'. key' \<noteq> key \<longrightarrow> Banned t key' (snd (strikes ts key b)) = Banned t key' b)"
proof -
  have en: "\<not> bans_disabled b" using assms(1) by (simp add: bans_disabled_def)
  note f = strikes_fresh [OF en assms(2,5,4,3)]
  have "Banned t key' (snd (strikes us key c)) = Banned t key' c" if "key' \<noteq> key" for t key' us c
  proof (induction us arbitrary: c)
    case (Cons u us)
    obtain r c1 where s: "Strike u key c = (r, c1)" by fastforce
    then show ?case using Cons [of c1] Banned_frame [OF s that] by (simp add: snd_strikes del: strikes.simps)
  qed simp
  moreover have "fst (Banned t key (snd (strikes ts key b))) \<longleftrightarrow> t < last ts + bt_banWindow b" for t
    using f strikes_frame [of ts key b] assms(1) by (auto simp: Banned_def bans_disabled_def split: if_splits)
  ultimately show ?thesis using f by blast
qed

theorem ban_policy_witness:
  "fst (Banned 120 ''10.0.0.1'' (snd (strikes [5, 9, 20] ''10.0.0.1'' (NewBanTracker 3 60 200))))"
  using ban_policy [of "NewBanTracker 3 60 200" "''10.0.0.1''" "[5, 9, 20]"]
  by (simp add: NewBanTracker_def time_Sub_def min_int64_def max_int64_def)

text \<open>
  Sweeping is invisible: after entries have been dropped at \<open>now\<close>, every later question whether a key
  is banned, and every later strike, is answered as if nothing had been dropped.
\<close>

theorem sweep_invisible:
  assumes "wf_map (bt_entries b)" and "now < t"
  shows "Banned t key (bans_Sweep now b) = Banned t key b \<and>
    fst (Strike t key (bans_Sweep now b)) = fst (Strike t key b)"
proof (cases "bans_disabled b")
  case True
  then show ?thesis by (simp add: bans_Sweep_def)
next
  case False
  have mono: "time_Sub now w \<le> time_Sub t w" for w
    using assms(2) by (simp add: time_Sub_def)
  show ?thesis
  proof (cases "map_of (bt_entries b) key")
    case None
    then show ?thesis using False assms(1)
      by (simp add: bans_Sweep_def Banned_def Strike_def bans_disabled_def map_of_mfilter Let_def)
  next
    case (Some e)
    show ?thesis
    proof (cases "now < be_bannedUntil e \<or> \<not> time_Sub now (be_windowStart e) > bt_strikeWindow b")
      case True
      then show ?thesis using False assms(1) Some
        by (simp add: bans_Sweep_def Banned_def Strike_def bans_disabled_def map_of_mfilter Let_def)
    next
      case dropped: False
      then have "be_bannedUntil e < t" "bt_strikeWindow b < time_Sub t (be_windowStart e)"
        using assms(2) mono [of "be_windowStart e"] by linarith+
      then show ?thesis using False assms(1) Some dropped
        by (simp add: bans_Sweep_def Banned_def Strike_def bans_disabled_def map_of_mfilter Let_def)
    qed
  qed
qed

theorem sweep_invisible_witness:
  "Banned 500 ''ip'' (bans_Sweep 400 (snd (strikes [5, 9] ''ip'' (NewBanTracker 3 60 200))))
     = Banned 500 ''ip'' (snd (strikes [5, 9] ''ip'' (NewBanTracker 3 60 200))) \<and>
   fst (Strike 500 ''ip'' (bans_Sweep 400 (snd (strikes [5, 9] ''ip'' (NewBanTracker 3 60 200))))) = False"
  using sweep_invisible [of "snd (strikes [5, 9] ''ip'' (NewBanTracker 3 60 200))" 400 500 "''ip''"]
  by (simp add: NewBanTracker_def Strike_def bans_disabled_def time_Sub_def min_int64_def max_int64_def)

end
