(* ===== verification/Httpsec.thy ===== *)
theory Httpsec
  imports SG_Prelude
begin

section \<open>HTTP requests and client addresses\<close>

text \<open>
  What the two services read of an HTTP request, and \<^verbatim>\<open>internal/httpsec/httpsec.go\<close>. A header is its first
  value, empty when absent; the query is the list of its parameters. \<^verbatim>\<open>net.SplitHostPort\<close> is
  written out.
\<close>

record request =
  rq_remoteAddr :: string
  rq_forwardedFor :: string
  rq_authorization :: string
  rq_query :: "(string \<times> string) list"
  rq_stripeSignature :: string
  rq_body :: bytes

definition index :: "char \<Rightarrow> string \<Rightarrow> nat option" where
  "index c s = (if c \<in> set s then Some (length (takeWhile (\<lambda>x. x \<noteq> c) s)) else None)"

definition last_index :: "char \<Rightarrow> string \<Rightarrow> nat option" where
  "last_index c s =
     (if c \<in> set s then Some (length s - 1 - length (takeWhile (\<lambda>x. x \<noteq> c) (rev s))) else None)"

definition SplitHostPort :: "string \<Rightarrow> (string \<times> string) option" where
  "SplitHostPort s =
     (case last_index CHR '':'' s of
        None \<Rightarrow> None
      | Some i \<Rightarrow>
          (if hd s = CHR ''['' then
             (case index CHR '']'' s of
                None \<Rightarrow> None
              | Some e \<Rightarrow>
                  (if e + 1 \<noteq> i then None
                   else if CHR ''['' \<in> set (drop 1 s) \<or> CHR '']'' \<in> set (drop (e + 1) s) then None
                   else Some (take (e - 1) (drop 1 s), drop (i + 1) s)))
           else if CHR '':'' \<in> set (take i s) then None
           else if CHR ''['' \<in> set s \<or> CHR '']'' \<in> set s then None
           else Some (take i s, drop (i + 1) s)))"

definition hstsValue :: string where "hstsValue = ''max-age=63072000; includeSubDomains''"

text \<open>The TLS settings of a server: \<open>None\<close> is plain HTTP behind a proxy; else the least version.\<close>

datatype tls_version = TLS12 | TLS13

definition ServerTLSConfig :: "string \<Rightarrow> string \<Rightarrow> tls_version option" where
  "ServerTLSConfig certFile minVersion =
     (if certFile = '''' then None else Some (if minVersion = ''1.3'' then TLS13 else TLS12))"

definition ClientIP :: "request \<Rightarrow> bool \<Rightarrow> string" where
  "ClientIP r trustProxy =
     (let first = TrimSpace (takeWhile (\<lambda>c. c \<noteq> CHR '','') (rq_forwardedFor r));
          socket = (case SplitHostPort (rq_remoteAddr r) of None \<Rightarrow> rq_remoteAddr r | Some (host, _) \<Rightarrow> host)
      in if trustProxy \<and> rq_forwardedFor r \<noteq> '''' \<and> first \<noteq> '''' then first else socket)"

lemma last_index_append: "c \<notin> set b \<Longrightarrow> last_index c (a @ c # b) = Some (length a)"
proof -
  assume "c \<notin> set b"
  then have "takeWhile (\<lambda>x. x \<noteq> c) (rev (a @ c # b)) = rev b"
    using takeWhile_no_sep [of c "rev b" "rev a"] by simp
  then show ?thesis by (simp add: last_index_def)
qed

lemma SplitHostPort_plain:
  assumes "set h \<inter> {CHR '':'', CHR ''['', CHR '']''} = {}" and "set p \<inter> {CHR '':'', CHR ''['', CHR '']''} = {}"
  shows "SplitHostPort (h @ CHR '':'' # p) = Some (h, p)"
proof -
  have "last_index CHR '':'' (h @ CHR '':'' # p) = Some (length h)"
    using assms(2) by (intro last_index_append) auto
  moreover have "hd (h @ CHR '':'' # p) \<noteq> CHR ''[''" using assms(1) by (cases h) auto
  ultimately show ?thesis using assms by (auto simp: SplitHostPort_def)
qed

lemma SplitHostPort_bracket:
  assumes "set h \<inter> {CHR ''['', CHR '']''} = {}" and "set p \<inter> {CHR '':'', CHR ''['', CHR '']''} = {}"
  shows "SplitHostPort (CHR ''['' # h @ CHR '']'' # CHR '':'' # p) = Some (h, p)"
proof -
  have "last_index CHR '':'' ((CHR ''['' # h @ [CHR '']'']) @ CHR '':'' # p) = Some (length h + 2)"
    using last_index_append [of "CHR '':''" p "CHR ''['' # h @ [CHR '']'']"] assms(2) by auto
  moreover have "takeWhile (\<lambda>x. x \<noteq> CHR '']'') (h @ CHR '']'' # CHR '':'' # p) = h"
    using assms(1) by (intro takeWhile_no_sep) auto
  then have "index CHR '']'' (CHR ''['' # h @ CHR '']'' # CHR '':'' # p) = Some (length h + 1)"
    by (simp add: index_def)
  ultimately show ?thesis using assms by (auto simp: SplitHostPort_def)
qed

lemma ClientIP_untrusted: "ClientIP (r\<lparr>rq_forwardedFor := x\<rparr>) False = ClientIP r False"
  by (simp add: ClientIP_def Let_def split: option.splits)

end
