(* ===== verification/Relay_Server.thy ===== *)
theory Relay_Server
  imports Hub_Registry RateLimit Httpsec
begin

section \<open>The relay's HTTP surface\<close>

text \<open>
  Models \<^verbatim>\<open>internal/relay/server/connect.go\<close> and the parts of \<^verbatim>\<open>internal/relay/server/server.go\<close> that change
  state: the connect handler, the strike hook, the periodic sweep and draining.
\<close>

record ('b, 'l) relay =
  sv_draining :: bool
  sv_trustProxy :: bool
  sv_options :: options
  sv_ipLimiter :: "'l keyed_limiter option"
  sv_bans :: "ban_tracker option"
  sv_hub :: "'b hub"
  sv_rateLimitedBan :: nat
  sv_rateLimitedIP :: nat
  sv_authFailures :: "(string, nat) gomap"
  sv_bansActive :: nat

record relay_config =
  rc_RateLimitEnabled :: bool
  rc_RateLimitIPPerMin :: int
  rc_RateLimitIPBurst :: int
  rc_AbuseStrikeThreshold :: int
  rc_AbuseStrikeWindow :: duration
  rc_AbuseBanWindow :: duration
  rc_TrustProxy :: bool

definition server_New :: "relay_config \<Rightarrow> options \<Rightarrow> 'b hub \<Rightarrow> ('b, 'l) relay" where
  "server_New cfg opts h =
     \<lparr>sv_draining = False, sv_trustProxy = rc_TrustProxy cfg, sv_options = opts,
      sv_ipLimiter = (if rc_RateLimitEnabled cfg
        then Some (NewKeyedLimiter (rc_RateLimitIPPerMin cfg) (rc_RateLimitIPBurst cfg)) else None),
      sv_bans = (if rc_RateLimitEnabled cfg
        then Some (NewBanTracker (rc_AbuseStrikeThreshold cfg) (rc_AbuseStrikeWindow cfg) (rc_AbuseBanWindow cfg))
        else None),
      sv_hub = h, sv_rateLimitedBan = 0, sv_rateLimitedIP = 0, sv_authFailures = [], sv_bansActive = 0\<rparr>"

definition bearerToken :: "request \<Rightarrow> reason + string" where
  "bearerToken r =
     (if ''token'' \<in> fst ` set (rq_query r) \<or> ''access_token'' \<in> fst ` set (rq_query r) then Inl ReasonMalformed
      else let h = rq_authorization r
           in if h = '''' then Inl ReasonMissingToken
              else if \<not> prefix ''Bearer '' h then Inl ReasonMalformed
              else let tok = TrimSpace (drop (length ''Bearer '') h)
                   in if tok = '''' then Inl ReasonMissingToken else Inr tok)"

definition reject429 :: "duration \<Rightarrow> int" where
  "reject429 retry =
     (let secs = sgn retry * (\<bar>retry\<bar> div second)
      in if sgn retry * (\<bar>retry\<bar> mod second) \<noteq> 0 \<or> secs < 1 then secs + 1 else secs)"

text \<open>
  The answer to a connection attempt: the HTTP answers before the upgrade, a failed upgrade, the close
  frame when the registry is unavailable, or a session that is being served, by its address.
\<close>

datatype connect_result =
  ServerDraining
| TooManyRequests int
| RejectConnect nat reason
| UpgradeFailed
| RegistryUnavailable nat
| Serving nat

definition rejectConnect :: "auth_error \<Rightarrow> ('b, 'l) relay \<Rightarrow> connect_result \<times> ('b, 'l) relay" where
  "rejectConnect ae s =
     (RejectConnect (if ae_HTTPStatus ae = 0 then 401 else ae_HTTPStatus ae) (ae_Reason ae),
      s\<lparr>sv_authFailures := gadd (reason_string (ae_Reason ae)) 1 (sv_authFailures s)\<rparr>)"

text \<open>
  The handler up to the point where the session is served. \<open>p\<close> is the address of the new session object,
  \<open>connID\<close> its fresh identifier, \<open>accepted\<close> whether the WebSocket upgrade succeeds.
\<close>

definition handleConnect ::
  "'b bp_ops \<Rightarrow> 'l bucket_ops \<Rightarrow> (string \<Rightarrow> auth_error + claims) \<Rightarrow> codec \<Rightarrow> io \<Rightarrow> nat \<Rightarrow> string \<Rightarrow> bool \<Rightarrow> request \<Rightarrow>
     ('b, 'l) relay \<Rightarrow> connect_result \<times> ('b, 'l) relay" where
  "handleConnect ops lops verify cd io p connID accepted r s =
     (if sv_draining s then (ServerDraining, s)
      else
        let now = io_now io 0; ip = ClientIP r (sv_trustProxy s);
            ban = (case sv_bans s of None \<Rightarrow> (False, 0) | Some b \<Rightarrow> Banned now ip b)
        in if fst ban then (TooManyRequests (reject429 (snd ban)), s\<lparr>sv_rateLimitedBan := sv_rateLimitedBan s + 1\<rparr>)
           else
             case (case sv_ipLimiter s of
                     None \<Rightarrow> (True, s)
                   | Some k \<Rightarrow> (case Allow lops now ip k of (ok, k') \<Rightarrow> (ok, s\<lparr>sv_ipLimiter := Some k'\<rparr>))) of
               (False, s1) \<Rightarrow> (TooManyRequests (reject429 second), s1\<lparr>sv_rateLimitedIP := sv_rateLimitedIP s1 + 1\<rparr>)
             | (True, s1) \<Rightarrow>
                 (case bearerToken r of
                    Inl reason \<Rightarrow> rejectConnect (authErr reason 401) s1
                  | Inr raw \<Rightarrow>
                      (case verify raw of
                         Inl ae \<Rightarrow> rejectConnect ae s1
                       | Inr claims \<Rightarrow>
                           (if \<not> accepted then (UpgradeFailed, s1)
                            else
                              let sess0 = session_New claims connID (sv_options s1);
                                  sess1 = (case sv_bans s1 of None \<Rightarrow> sess0
                                           | Some _ \<Rightarrow> SetProtocolViolationHook ip sess0);
                                  h0 = sv_hub s1;
                                  h1 = h0\<lparr>h_sessions := AList.update p sess1 (h_sessions h0)\<rparr>
                              in case Register ops cd io p sess1 h1 of
                                   (Inl e, h2) \<Rightarrow> (RegistryUnavailable StatusTryAgainLater, s1\<lparr>sv_hub := h2\<rparr>)
                                 | (Inr u, h2) \<Rightarrow> (Serving p, s1\<lparr>sv_hub := h2\<rparr>)))))"

text \<open>The hook of a session: one strike for the address it was built for.\<close>

definition protocolViolation :: "time \<Rightarrow> string \<Rightarrow> ('b, 'l) relay \<Rightarrow> ('b, 'l) relay" where
  "protocolViolation now ip s =
     (case sv_bans s of
        None \<Rightarrow> s
      | Some b \<Rightarrow>
          (case Strike now ip b of
             (banned, b') \<Rightarrow>
               (if banned then s\<lparr>sv_bans := Some b', sv_bansActive := ActiveBans now b'\<rparr>
                else s\<lparr>sv_bans := Some b'\<rparr>)))"

text \<open>One frame read by a session: the read pump's turn, then the strike or the hub's handler.\<close>

definition readFrame ::
  "'b bp_ops \<Rightarrow> (string \<Rightarrow> auth_error + claims) \<Rightarrow> codec \<Rightarrow> io \<Rightarrow> nat \<Rightarrow> bytes \<Rightarrow> ('b, 'l) relay \<Rightarrow> ('b, 'l) relay" where
  "readFrame ops verify cd io p data s =
     (case sess (sv_hub s) p of
        None \<Rightarrow> s
      | Some x \<Rightarrow>
          (case readPump_turn cd (ReadFrame data) x of
             (ReadViolation hook, x') \<Rightarrow>
               (let s1 = s\<lparr>sv_hub := on_session p (\<lambda>_. x') (sv_hub s)\<rparr>
                in case hook of None \<Rightarrow> s1 | Some ip \<Rightarrow> protocolViolation (io_now io 0) ip s1)
           | (ReadDispatch env raw, x') \<Rightarrow>
               s\<lparr>sv_hub := OnFrame ops (Some verify) cd io p x env raw (sv_hub s)\<rparr>
           | (ReadStop, x') \<Rightarrow> s))"

definition sweepLimiters :: "time \<Rightarrow> ('b, 'l) relay \<Rightarrow> ('b, 'l) relay" where
  "sweepLimiters now s =
     (let s1 = s\<lparr>sv_ipLimiter := map_option (limiter_Sweep now (10 * minute)) (sv_ipLimiter s)\<rparr>
      in case sv_bans s1 of
           None \<Rightarrow> s1
         | Some b \<Rightarrow> s1\<lparr>sv_bans := Some (bans_Sweep now b), sv_bansActive := ActiveBans now (bans_Sweep now b)\<rparr>)"

definition Drain :: "codec \<Rightarrow> io \<Rightarrow> ('b, 'l) relay \<Rightarrow> ('b, 'l) relay" where
  "Drain cd io s =
     s\<lparr>sv_draining := True,
       sv_hub := CloseAll StatusGoingAway ''server draining'' (snd (DrainNotify cd io ''server draining'' (sv_hub s)))\<rparr>"

subsection \<open>What registration keeps\<close>

definition claims_view :: "'b hub \<Rightarrow> nat \<Rightarrow> claims option" where
  "claims_view h p = map_option s_Claims (sess h p)"

lemma claims_view_simps [simp]:
  "claims_view (on_metrics g h) = claims_view h" "claims_view (h\<lparr>h_bp := b\<rparr>) = claims_view h"
  "claims_view (h\<lparr>h_local := l\<rparr>) = claims_view h"
  by (simp_all add: claims_view_def fun_eq_iff)

lemma claims_view_on_session: "(\<And>s. s_Claims (f s) = s_Claims s) \<Longrightarrow> claims_view (on_session p f h) = claims_view h"
  by (simp add: claims_view_def fun_eq_iff option.map_comp comp_def)

lemma claims_view_send [simp]:
  "claims_view (send_sys cd io n k d p h) = claims_view h" "claims_view (send_error cd io n k d p h) = claims_view h"
  by (simp_all add: send_sys_def send_error_def claims_view_on_session)

lemma claims_view_Register_index: "claims_view (Register_index ops cd io p s res h) = claims_view h"
proof -
  have a: "claims_view (announcePresence ops cd io p s g) = claims_view g" for g :: "'a hub"
    by (simp add: announcePresence_def Let_def split: option.splits prod.splits)
  have b: "claims_view (supersede res k g) = claims_view g" for k and g :: "'a hub"
    by (simp add: supersede_def claims_view_on_session split: option.splits)
  have "s_Claims (SetSlotRenewer fn x) = s_Claims x" for fn x by (simp add: SetSlotRenewer_def)
  then show ?thesis by (simp add: Register_index_def Let_def a b claims_view_on_session)
qed

lemma claims_view_Register: "claims_view (snd (Register ops cd io p s h)) = claims_view h"
proof -
  obtain r b' where "ClaimSlot ops (io_now io 0) (slotKey s) (s_ID s) (h_instanceID h) (h_bp h) = (r, b')"
    by fastforce
  then show ?thesis by (cases r) (simp_all add: Register_def Register_claim_def claims_view_Register_index)
qed

text \<open>The handler splits into its gate, which only counts, and the admission of a verified token.\<close>

definition limiter_gate ::
  "'l bucket_ops \<Rightarrow> time \<Rightarrow> string \<Rightarrow> ('b, 'l) relay \<Rightarrow> bool \<times> ('b, 'l) relay" where
  "limiter_gate lops now ip s =
     (case sv_ipLimiter s of
        None \<Rightarrow> (True, s)
      | Some k \<Rightarrow> (case Allow lops now ip k of (ok, k') \<Rightarrow> (ok, s\<lparr>sv_ipLimiter := Some k'\<rparr>)))"

lemma limiter_gate_frame [simp]:
  "sv_hub (snd (limiter_gate lops now ip s)) = sv_hub s" "sv_bans (snd (limiter_gate lops now ip s)) = sv_bans s"
  "sv_options (snd (limiter_gate lops now ip s)) = sv_options s"
  by (simp_all add: limiter_gate_def split: option.splits prod.splits)

lemma rejectConnect_frame [simp]:
  "sv_hub (snd (rejectConnect ae s)) = sv_hub s" "sv_bans (snd (rejectConnect ae s)) = sv_bans s"
  "fst (rejectConnect ae s) \<noteq> Serving q" "fst (rejectConnect ae s) \<noteq> RegistryUnavailable c"
  by (simp_all add: rejectConnect_def)

definition admit ::
  "'b bp_ops \<Rightarrow> codec \<Rightarrow> io \<Rightarrow> nat \<Rightarrow> string \<Rightarrow> string \<Rightarrow> claims \<Rightarrow> ('b, 'l) relay \<Rightarrow> connect_result \<times> ('b, 'l) relay" where
  "admit ops cd io p connID ip c s1 =
     (let sess0 = session_New c connID (sv_options s1);
          sess1 = (case sv_bans s1 of None \<Rightarrow> sess0 | Some _ \<Rightarrow> SetProtocolViolationHook ip sess0);
          h0 = sv_hub s1;
          h1 = h0\<lparr>h_sessions := AList.update p sess1 (h_sessions h0)\<rparr>
      in case Register ops cd io p sess1 h1 of
           (Inl e, h2) \<Rightarrow> (RegistryUnavailable StatusTryAgainLater, s1\<lparr>sv_hub := h2\<rparr>)
         | (Inr u, h2) \<Rightarrow> (Serving p, s1\<lparr>sv_hub := h2\<rparr>))"

lemma handleConnect_gate:
  "handleConnect ops lops verify cd io p connID accepted r s =
     (if sv_draining s then (ServerDraining, s)
      else
        let now = io_now io 0; ip = ClientIP r (sv_trustProxy s);
            ban = (case sv_bans s of None \<Rightarrow> (False, 0) | Some b \<Rightarrow> Banned now ip b)
        in if fst ban then (TooManyRequests (reject429 (snd ban)), s\<lparr>sv_rateLimitedBan := sv_rateLimitedBan s + 1\<rparr>)
           else
             case limiter_gate lops now ip s of
               (False, s1) \<Rightarrow> (TooManyRequests (reject429 second), s1\<lparr>sv_rateLimitedIP := sv_rateLimitedIP s1 + 1\<rparr>)
             | (True, s1) \<Rightarrow>
                 (case bearerToken r of
                    Inl reason \<Rightarrow> rejectConnect (authErr reason 401) s1
                  | Inr raw \<Rightarrow>
                      (case verify raw of
                         Inl ae \<Rightarrow> rejectConnect ae s1
                       | Inr c \<Rightarrow> (if \<not> accepted then (UpgradeFailed, s1) else admit ops cd io p connID ip c s1))))"
  by (simp only: handleConnect_def limiter_gate_def admit_def)

lemma admit_result: "fst (admit ops cd io p connID ip c s1) \<in> {Serving p, RegistryUnavailable StatusTryAgainLater}"
  by (simp add: admit_def Let_def split: prod.splits sum.splits)

lemma admit_claims: "claims_view (sv_hub (snd (admit ops cd io p connID ip c s1))) p = Some c"
proof -
  let ?x = "case sv_bans s1 of None \<Rightarrow> session_New c connID (sv_options s1)
    | Some _ \<Rightarrow> SetProtocolViolationHook ip (session_New c connID (sv_options s1))"
  let ?h = "(sv_hub s1)\<lparr>h_sessions := AList.update p ?x (h_sessions (sv_hub s1))\<rparr>"
  have "s_Claims ?x = c" by (simp add: session_New_def SetProtocolViolationHook_def split: option.splits)
  then have "claims_view ?h p = Some c" by (simp add: claims_view_def)
  then have "claims_view (snd (Register ops cd io p ?x ?h)) p = Some c" by (simp add: claims_view_Register)
  then show ?thesis
    by (cases "Register ops cd io p ?x ?h") (auto simp: admit_def Let_def split: sum.splits)
qed

fun reached_hub :: "connect_result \<Rightarrow> bool" where
  "reached_hub (Serving q) = True"
| "reached_hub (RegistryUnavailable c) = True"
| "reached_hub _ = False"

lemma rejectConnect_reached [simp]: "\<not> reached_hub (fst (rejectConnect ae s))"
  by (simp add: rejectConnect_def)

text \<open>Either nothing reached the hub, or a verified token was admitted.\<close>

lemma handleConnect_cases:
  assumes "handleConnect ops lops verify cd io p connID accepted r s = (res, s')"
  obtains (refused) "sv_hub s' = sv_hub s" "sv_bans s' = sv_bans s" "\<not> reached_hub res"
  | (admitted) raw c s1 where "\<not> sv_draining s"
      "case sv_bans s of None \<Rightarrow> True | Some b \<Rightarrow> \<not> fst (Banned (io_now io 0) (ClientIP r (sv_trustProxy s)) b)"
      "bearerToken r = Inr raw" "verify raw = Inr c"
      "sv_hub s1 = sv_hub s" "(res, s') = admit ops cd io p connID (ClientIP r (sv_trustProxy s)) c s1"
      "limiter_gate lops (io_now io 0) (ClientIP r (sv_trustProxy s)) s = (True, s1)"
proof -
  let ?ip = "ClientIP r (sv_trustProxy s)"
  let ?g = "limiter_gate lops (io_now io 0) ?ip s"
  note h = assms [unfolded handleConnect_gate Let_def]
  show thesis
  proof (cases "sv_draining s \<or> (case sv_bans s of None \<Rightarrow> False | Some b \<Rightarrow> fst (Banned (io_now io 0) ?ip b)) \<or> \<not> fst ?g")
    case True
    with h refused limiter_gate_frame [of lops "io_now io 0" ?ip s] show thesis
      by (cases ?g) (auto split: if_splits option.splits)
  next
    case False
    then obtain s1 where g: "?g = (True, s1)" by (cases ?g) auto
    have s1: "sv_hub s1 = sv_hub s" "sv_bans s1 = sv_bans s" using limiter_gate_frame(1,2) [of lops "io_now io 0" ?ip s] g by auto
    have h': "(res, s') = (case bearerToken r of
        Inl reason \<Rightarrow> rejectConnect (authErr reason 401) s1
      | Inr raw \<Rightarrow> (case verify raw of Inl ae \<Rightarrow> rejectConnect ae s1
        | Inr c \<Rightarrow> (if \<not> accepted then (UpgradeFailed, s1) else admit ops cd io p connID ?ip c s1)))"
      using False h g by (auto split: option.splits)
    show thesis
    proof (cases "\<exists>raw c. bearerToken r = Inr raw \<and> verify raw = Inr c \<and> accepted")
      case True
      then obtain raw c where rc: "bearerToken r = Inr raw" "verify raw = Inr c" "accepted" by blast
      show thesis
        by (rule admitted [OF _ _ rc(1,2) s1(1) _ g]) (use False h' rc in \<open>auto split: option.splits\<close>)
    next
      case False
      then have "(res, s') = (UpgradeFailed, s1) \<or> (\<exists>ae. (res, s') = rejectConnect ae s1)"
        using h' by (auto split: sum.splits if_splits)
      then show thesis using refused s1 by (auto simp: rejectConnect_def)
    qed
  qed
qed


subsection \<open>Properties\<close>

text \<open>
  C16. Only verified tokens reach the hub: when the relay serves a connection, or has tried to register it and
  the registry was unavailable, or has changed the hub in any way, it was not draining, the client's address
  was not banned and its rate limit, where limiting is on, allowed the attempt, the request carried no token in
  its URL, and the verifier accepted the bearer token of the Authorization header; the session that was made
  carries exactly the verified claims, which name an account, a pair, a device, a licence and a valid role.
\<close>

theorem connect_requires_token:
  assumes "handleConnect ops lops (Verify parse) cd io p connID accepted r s = (res, s')"
    and "(\<exists>q. res = Serving q) \<or> (\<exists>code. res = RegistryUnavailable code) \<or> sv_hub s' \<noteq> sv_hub s"
  shows "res \<in> {Serving p, RegistryUnavailable 1013} \<and> \<not> sv_draining s \<and>
    ''token'' \<notin> fst ` set (rq_query r) \<and> ''access_token'' \<notin> fst ` set (rq_query r) \<and>
    (\<forall>b. sv_bans s = Some b \<longrightarrow> \<not> fst (Banned (io_now io 0) (ClientIP r (sv_trustProxy s)) b)) \<and>
    (\<forall>k. sv_ipLimiter s = Some k \<longrightarrow> fst (Allow lops (io_now io 0) (ClientIP r (sv_trustProxy s)) k)) \<and>
    (\<exists>raw c. bearerToken r = Inr raw \<and> parse raw = Parsed c \<and> claims_view (sv_hub s') p = Some c \<and>
       c_AccountID c \<noteq> '''' \<and> c_PairID c \<noteq> '''' \<and> c_DeviceID c \<noteq> '''' \<and> c_LicenseID c \<noteq> '''' \<and> role_Valid (c_Role c))"
  using assms(1)
proof (cases rule: handleConnect_cases)
  case refused
  with assms(2) show ?thesis by auto
next
  case (admitted raw c s1)
  have "res \<in> {Serving p, RegistryUnavailable 1013}"
    using admit_result [of ops cd io p connID "ClientIP r (sv_trustProxy s)" c s1] admitted(6) [symmetric]
    by (simp add: StatusTryAgainLater_def)
  moreover have "claims_view (sv_hub s') p = Some c"
    using admit_claims [of ops cd io p connID "ClientIP r (sv_trustProxy s)" c s1] admitted(6) [symmetric] by simp
  moreover have "''token'' \<notin> fst ` set (rq_query r) \<and> ''access_token'' \<notin> fst ` set (rq_query r)"
    using admitted(3) by (auto simp: bearerToken_def split: if_splits)
  moreover have "parse raw = Parsed c \<and> claims_ok c" using admitted(4) by (simp add: Verify_Inr)
  moreover have "\<forall>k. sv_ipLimiter s = Some k \<longrightarrow> fst (Allow lops (io_now io 0) (ClientIP r (sv_trustProxy s)) k)"
    using admitted(7) by (auto simp: limiter_gate_def split: prod.splits)
  ultimately show ?thesis using admitted(1-3) unfolding claims_ok_def by auto
qed

definition ex_bucket :: "unit bucket_ops" where
  "ex_bucket = \<lparr>NewLimiter = (\<lambda>_ _. ()), bucket_Allow = (\<lambda>_ l. (True, l))\<rparr>"

definition ex_relay :: "(mem_bp, unit) relay" where
  "ex_relay = server_New \<lparr>rc_RateLimitEnabled = True, rc_RateLimitIPPerMin = 120, rc_RateLimitIPBurst = 60,
     rc_AbuseStrikeThreshold = 1, rc_AbuseStrikeWindow = minute, rc_AbuseBanWindow = 1000, rc_TrustProxy = False\<rparr>
     ex_opts (hub_New ''i1'' (mem_New second 8))"

definition ex_request :: request where
  "ex_request = \<lparr>rq_remoteAddr = ''10.0.0.1:5000'', rq_forwardedFor = '''', rq_authorization = ''Bearer tok'', rq_query = [],
     rq_stripeSignature = '''', rq_body = ''''\<rparr>"

lemma ex_bearer: "bearerToken ex_request = Inr ''tok''"
  by (simp add: bearerToken_def ex_request_def TrimSpace_def strip_prefixes.simps white_space_def)

lemma ex_connect: "\<exists>s'. handleConnect mem_ops ex_bucket (Verify (\<lambda>_. Parsed ex_claims)) ex_codec ex_io 0 ''c1'' True ex_request ex_relay
    = (Serving 0, s')"
proof -
  have v: "Verify (\<lambda>_. Parsed ex_claims) ''tok'' = Inr ex_claims" using ex_claims_ok by (simp add: Verify_Inr)
  show ?thesis
    by (auto simp: handleConnect_gate ex_bearer v limiter_gate_def Allow_def ex_bucket_def ex_relay_def server_New_def
        NewKeyedLimiter_def NewBanTracker_def Banned_def bans_disabled_def limiter_disabled_def Let_def admit_def
        split: prod.splits sum.splits) (metis mem_Register_Inr Inl_Inr_False prod.inject)
qed

theorem connect_requires_token_witness:
  "\<exists>s'. handleConnect mem_ops ex_bucket (Verify (\<lambda>_. Parsed ex_claims)) ex_codec ex_io 0 ''c1'' True ex_request ex_relay = (Serving 0, s') \<and>
     claims_view (sv_hub s') 0 = Some ex_claims"
proof -
  from ex_connect obtain s' where h: "handleConnect mem_ops ex_bucket (Verify (\<lambda>_. Parsed ex_claims)) ex_codec ex_io 0 ''c1'' True
    ex_request ex_relay = (Serving 0, s')" by blast
  from connect_requires_token [OF h] h show ?thesis by auto
qed

text \<open>
  A refused attempt leaves no trace beyond counters: unless the answer is a served session or an
  unavailable registry, the hub with its sessions, index and slots, and the ban list, are exactly as
  before.
\<close>

theorem refused_no_effect:
  assumes "handleConnect ops lops verify cd io p connID accepted r s = (res, s')" and "\<not> reached_hub res"
  shows "sv_hub s' = sv_hub s \<and> sv_bans s' = sv_bans s"
  using assms(1)
proof (cases rule: handleConnect_cases)
  case (admitted raw c s1)
  then have "reached_hub res"
    using admit_result [of ops cd io p connID "ClientIP r (sv_trustProxy s)" c s1] by (metis fst_conv insertE reached_hub.simps(1,2) singletonD)
  with assms(2) show ?thesis by simp
qed simp

theorem refused_no_effect_witness:
  "sv_hub (snd (handleConnect mem_ops ex_bucket (Verify (\<lambda>_. ParseError [ErrTokenExpired])) ex_codec ex_io 0 ''c1'' True
     ex_request ex_relay)) = sv_hub ex_relay"
proof -
  have v: "Verify (\<lambda>_. ParseError [ErrTokenExpired]) ''tok'' = Inl (unauthorized ReasonExpired)"
    by (simp add: Verify_def classify_def)
  have "\<not> reached_hub (fst (handleConnect mem_ops ex_bucket (Verify (\<lambda>_. ParseError [ErrTokenExpired])) ex_codec ex_io 0 ''c1'' True
     ex_request ex_relay))"
    by (simp add: handleConnect_gate ex_bearer v limiter_gate_def Allow_def ex_bucket_def ex_relay_def server_New_def
        NewKeyedLimiter_def NewBanTracker_def Banned_def bans_disabled_def limiter_disabled_def Let_def)
  from refused_no_effect [OF prod.collapse [symmetric] this] show ?thesis by simp
qed

lemma reject429_covers: "0 < d \<Longrightarrow> d \<le> reject429 d * second \<and> 1 \<le> reject429 d"
proof -
  assume d: "0 < d"
  have "d = d div second * second + d mod second" "0 \<le> d mod second" "d mod second < second" "0 \<le> d div second"
    using d by (simp_all add: pos_imp_zdiv_nonneg_iff)
  then show ?thesis using d by (auto simp: reject429_def Let_def sgn_if algebra_simps second_def)
qed

text \<open>
  C17. Protocol abuse is answered by a ban that holds at the door: when the strike for a violation is the one
  that bans the address, every later attempt of that address before the ban window has passed gets 429 with
  a Retry-After that covers the rest of the window, and reaches neither the verifier nor the hub.
\<close>

theorem violation_bans:
  assumes "sv_bans s = Some b" and "0 < bt_threshold b" and "fst (Strike t ip b)"
    and "ClientIP r (sv_trustProxy s) = ip" and "\<not> sv_draining s"
    and "t \<le> io_now io 0" and "io_now io 0 < t + bt_banWindow b" and "bt_banWindow b \<le> max_int64"
  shows "\<exists>secs. handleConnect ops lops verify cd io p connID accepted r (protocolViolation t ip s) =
      (TooManyRequests secs, (protocolViolation t ip s)\<lparr>sv_rateLimitedBan := sv_rateLimitedBan s + 1\<rparr>) \<and>
    t + bt_banWindow b - io_now io 0 \<le> secs * second \<and> 1 \<le> secs"
proof -
  obtain b' where st: "Strike t ip b = (True, b')" using assms(3) by (cases "Strike t ip b") auto
  have e: "\<exists>e. map_of (bt_entries b') ip = Some e \<and> be_bannedUntil e = t + bt_banWindow b"
    using st by (auto simp: Strike_def Let_def split: if_splits)
  have "bt_threshold b' = bt_threshold b" using Strike_frame [OF st] by simp
  moreover have sub: "time_Sub (t + bt_banWindow b) (io_now io 0) = t + bt_banWindow b - io_now io 0"
    by (rule time_Sub_exact) (use assms(6-8) in \<open>auto simp: min_int64_def\<close>)
  ultimately have ban: "Banned (io_now io 0) ip b' = (True, t + bt_banWindow b - io_now io 0)"
    using e assms(2,7) by (auto simp: Banned_def bans_disabled_def)
  have pv: "sv_bans (protocolViolation t ip s) = Some b'" "sv_draining (protocolViolation t ip s) = sv_draining s"
    "sv_trustProxy (protocolViolation t ip s) = sv_trustProxy s"
    "sv_rateLimitedBan (protocolViolation t ip s) = sv_rateLimitedBan s"
    using assms(1) st by (simp_all add: protocolViolation_def)
  show ?thesis using reject429_covers [of "t + bt_banWindow b - io_now io 0"] assms(4,5,7) pv ban
    by (auto simp: handleConnect_gate Let_def)
qed

theorem violation_bans_witness:
  "\<exists>secs s'. handleConnect mem_ops ex_bucket (Verify (\<lambda>_. Parsed ex_claims)) ex_codec ex_io 0 ''c1'' True ex_request
     (protocolViolation 90 ''10.0.0.1'' ex_relay) = (TooManyRequests secs, s')"
proof -
  have ip: "ClientIP ex_request False = ''10.0.0.1''"
    by (simp add: ClientIP_def ex_request_def SplitHostPort_def last_index_def Let_def TrimSpace_def strip_prefixes.simps white_space_def)
  have strike: "fst (Strike 90 ''10.0.0.1'' (NewBanTracker 1 minute 1000))"
    by (simp add: NewBanTracker_def Strike_def bans_disabled_def Let_def go_defs)
  show ?thesis
    using violation_bans [of ex_relay "NewBanTracker 1 minute 1000" 90 "''10.0.0.1''" ex_request ex_io
        mem_ops ex_bucket "Verify (\<lambda>_. Parsed ex_claims)" ex_codec 0 "''c1''" True] ip strike
    by (auto simp: ex_relay_def server_New_def NewBanTracker_def max_int64_def)
qed

end
