(* ===== verification/E2EE.thy ===== *)
theory E2EE
  imports Token
begin

section \<open>End-to-end encryption\<close>

text \<open>
  Models \<^verbatim>\<open>internal/e2ee/e2ee.go\<close>: the key schedule, sealing and opening, and the replay guard. The
  primitives of \<^verbatim>\<open>golang.org/x/crypto\<close> are the record \<open>prims\<close>; the predicate \<open>crypto_laws\<close> states what is
  documented of them. Timestamps are 64-bit integers, and the window arithmetic of the guard wraps.
\<close>

record prims =
  X25519 :: "bytes \<Rightarrow> bytes \<Rightarrow> bytes option"
  Basepoint :: bytes
  hkdf :: "bytes \<Rightarrow> bytes \<Rightarrow> bytes \<Rightarrow> bytes"
  aead_seal :: "bytes \<Rightarrow> bytes \<Rightarrow> bytes \<Rightarrow> bytes \<Rightarrow> bytes"
  aead_open :: "bytes \<Rightarrow> bytes \<Rightarrow> bytes \<Rightarrow> bytes \<Rightarrow> bytes option"

definition NonceSize :: nat where "NonceSize = 24"
definition infoPrefix :: string where "infoPrefix = ''secure-gateway/e2ee/v2|''"
definition dirM2D :: string where "dirM2D = ''m2d''"
definition dirD2M :: string where "dirD2M = ''d2m''"
definition defaultReplayWindowMillis :: int where "defaultReplayWindowMillis = 5 * 60 * 1000"

datatype e2ee_error = ErrReplay | ErrStale | ErrRole | ErrECDH | ErrNonce | ErrShort | ErrAEAD

subsection \<open>The replay guard\<close>

record replay_guard =
  g_window :: int
  g_lastTS :: int
  g_seen :: "(string, int) gomap"
  g_primed :: bool

definition newReplayGuard :: "int \<Rightarrow> replay_guard" where
  "newReplayGuard window = \<lparr>g_window = window, g_lastTS = 0, g_seen = [], g_primed = False\<rparr>"

definition check :: "string \<Rightarrow> int \<Rightarrow> replay_guard \<Rightarrow> (e2ee_error + unit) \<times> replay_guard" where
  "check i ts g =
     (if g_primed g \<and> ts < wrap64 (g_lastTS g - g_window g) then (Inl ErrStale, g)
      else if map_of (g_seen g) i \<noteq> None then (Inl ErrReplay, g)
      else
        let seen1 = AList.update i ts (g_seen g);
            last1 = (if \<not> g_primed g \<or> ts > g_lastTS g then ts else g_lastTS g);
            floor1 = wrap64 (last1 - g_window g)
        in (Inr (), g\<lparr>g_lastTS := last1, g_primed := True, g_seen := mfilter (\<lambda>v. \<not> v < floor1) seen1\<rparr>))"

subsection \<open>Session keys\<close>

record e2ee_session =
  x_sendKey :: bytes
  x_recvKey :: bytes
  x_recv :: replay_guard

definition PublicFromPrivate :: "prims \<Rightarrow> bytes \<Rightarrow> bytes option" where
  "PublicFromPrivate pr priv = X25519 pr priv (Basepoint pr)"

definition GenerateKeyPair :: "prims \<Rightarrow> bytes \<Rightarrow> (bytes \<times> bytes) option" where
  "GenerateKeyPair pr rnd = (case PublicFromPrivate pr rnd of None \<Rightarrow> None | Some pub \<Rightarrow> Some (rnd, pub))"

definition deriveKey :: "prims \<Rightarrow> bytes \<Rightarrow> bytes \<Rightarrow> string \<Rightarrow> bytes" where
  "deriveKey pr ikm salt dir = hkdf pr ikm salt (infoPrefix @ dir)"

definition cross_secrets ::
  "prims \<Rightarrow> bytes \<Rightarrow> bytes \<Rightarrow> bytes \<Rightarrow> bytes \<Rightarrow> role \<Rightarrow> (bytes \<times> bytes) option" where
  "cross_secrets pr idPriv peerIDPub ephPriv peerEphPub myRole =
     (if myRole = RoleMobile
      then (case X25519 pr idPriv peerEphPub of
              None \<Rightarrow> None
            | Some md \<Rightarrow> (case X25519 pr ephPriv peerIDPub of None \<Rightarrow> None | Some dm \<Rightarrow> Some (md, dm)))
      else (case X25519 pr ephPriv peerIDPub of
              None \<Rightarrow> None
            | Some md \<Rightarrow> (case X25519 pr idPriv peerEphPub of None \<Rightarrow> None | Some dm \<Rightarrow> Some (md, dm))))"

definition NewSession ::
  "prims \<Rightarrow> bytes \<Rightarrow> bytes \<Rightarrow> bytes \<Rightarrow> bytes \<Rightarrow> role \<Rightarrow> e2ee_error + e2ee_session" where
  "NewSession pr idPriv peerIDPub ephPriv peerEphPub myRole =
     (if myRole \<noteq> RoleMobile \<and> myRole \<noteq> RoleDesktop then Inl ErrRole
      else case PublicFromPrivate pr ephPriv of
        None \<Rightarrow> Inl ErrECDH
      | Some myEphPub \<Rightarrow>
          (case X25519 pr idPriv peerIDPub of
             None \<Rightarrow> Inl ErrECDH
           | Some ss \<Rightarrow>
               (case X25519 pr ephPriv peerEphPub of
                  None \<Rightarrow> Inl ErrECDH
                | Some ee \<Rightarrow>
                    (case cross_secrets pr idPriv peerIDPub ephPriv peerEphPub myRole of
                       None \<Rightarrow> Inl ErrECDH
                     | Some (md, dm) \<Rightarrow>
                         let ikm = ss @ ee @ md @ dm;
                             salt = (if myRole = RoleMobile then myEphPub @ peerEphPub else peerEphPub @ myEphPub);
                             keyM2D = deriveKey pr ikm salt dirM2D;
                             keyD2M = deriveKey pr ikm salt dirD2M;
                             g = newReplayGuard defaultReplayWindowMillis
                         in Inr (if myRole = RoleMobile
                                 then \<lparr>x_sendKey = keyM2D, x_recvKey = keyD2M, x_recv = g\<rparr>
                                 else \<lparr>x_sendKey = keyD2M, x_recvKey = keyM2D, x_recv = g\<rparr>)))))"

subsection \<open>Sealing and opening\<close>

text \<open>\<^verbatim>\<open>binary.BigEndian.PutUint64\<close> of the two's complement of a timestamp.\<close>

primrec be_bytes :: "nat \<Rightarrow> nat \<Rightarrow> bytes" where
  "be_bytes 0 x = []"
| "be_bytes (Suc n) x = be_bytes n (x div 256) @ [char_of (x mod 256)]"

definition aad :: "string \<Rightarrow> int \<Rightarrow> bytes" where
  "aad i ts = i @ be_bytes 8 (nat (ts mod 18446744073709551616))"

definition sealWith :: "prims \<Rightarrow> bytes \<Rightarrow> string \<Rightarrow> int \<Rightarrow> bytes \<Rightarrow> e2ee_session \<Rightarrow> e2ee_error + bytes" where
  "sealWith pr nonce i ts plaintext s =
     (if length nonce \<noteq> NonceSize then Inl ErrNonce
      else Inr (nonce @ aead_seal pr (x_sendKey s) nonce plaintext (aad i ts)))"

definition e2ee_Open ::
  "prims \<Rightarrow> string \<Rightarrow> int \<Rightarrow> bytes \<Rightarrow> e2ee_session \<Rightarrow> (e2ee_error + bytes) \<times> e2ee_session" where
  "e2ee_Open pr i ts wire s =
     (if length wire < NonceSize then (Inl ErrShort, s)
      else case aead_open pr (x_recvKey s) (take NonceSize wire) (drop NonceSize wire) (aad i ts) of
             None \<Rightarrow> (Inl ErrAEAD, s)
           | Some pt \<Rightarrow>
               (case check i ts (x_recv s) of
                  (Inl e, g) \<Rightarrow> (Inl e, s\<lparr>x_recv := g\<rparr>)
                | (Inr _, g) \<Rightarrow> (Inr pt, s\<lparr>x_recv := g\<rparr>)))"

subsection \<open>The primitives' documented behaviour\<close>

text \<open>
  Diffie-Hellman commutes; opening what was sealed with the same key, nonce and associated data returns
  the plaintext; and what opens is the one ciphertext that sealing produces.
\<close>

definition crypto_laws :: "prims \<Rightarrow> bool" where
  "crypto_laws pr \<longleftrightarrow>
     (\<forall>a b pa pb. X25519 pr a (Basepoint pr) = Some pa \<longrightarrow> X25519 pr b (Basepoint pr) = Some pb \<longrightarrow>
        X25519 pr a pb = X25519 pr b pa) \<and>
     (\<forall>k n pt ad. aead_open pr k n (aead_seal pr k n pt ad) ad = Some pt) \<and>
     (\<forall>k n ct ad pt. aead_open pr k n ct ad = Some pt \<longrightarrow> ct = aead_seal pr k n pt ad)"


lemma dh_comm:
  "crypto_laws pr \<Longrightarrow> X25519 pr a (Basepoint pr) = Some pa \<Longrightarrow> X25519 pr b (Basepoint pr) = Some pb \<Longrightarrow>
     X25519 pr a pb = X25519 pr b pa"
  unfolding crypto_laws_def by blast

lemma open_seal: "crypto_laws pr \<Longrightarrow> aead_open pr k n (aead_seal pr k n pt ad) ad = Some pt"
  unfolding crypto_laws_def by blast

lemma open_only: "crypto_laws pr \<Longrightarrow> aead_open pr k n ct ad = Some pt \<Longrightarrow> ct = aead_seal pr k n pt ad"
  unfolding crypto_laws_def by blast

text \<open>Both ends derive the same keys, crossed, and fail together.\<close>

lemma NewSession_match:
  assumes "crypto_laws pr" and "PublicFromPrivate pr mi = Some MI" and "PublicFromPrivate pr me = Some ME"
    and "PublicFromPrivate pr di = Some DI" and "PublicFromPrivate pr de = Some DE"
  shows "(\<exists>e. NewSession pr mi DI me DE RoleMobile = Inl e \<and> NewSession pr di MI de ME RoleDesktop = Inl e) \<or>
    (\<exists>sm sd. NewSession pr mi DI me DE RoleMobile = Inr sm \<and> NewSession pr di MI de ME RoleDesktop = Inr sd \<and>
       x_sendKey sm = x_recvKey sd \<and> x_recvKey sm = x_sendKey sd)"
proof -
  note pub = assms(2-5) [unfolded PublicFromPrivate_def]
  have ss: "X25519 pr di MI = X25519 pr mi DI" using dh_comm [OF assms(1) pub(1,3)] by simp
  have ee: "X25519 pr de ME = X25519 pr me DE" using dh_comm [OF assms(1) pub(2,4)] by simp
  have md: "X25519 pr de MI = X25519 pr mi DE" using dh_comm [OF assms(1) pub(1,4)] by simp
  have dm: "X25519 pr di ME = X25519 pr me DI" using dh_comm [OF assms(1) pub(2,3)] by simp
  show ?thesis
    by (cases "X25519 pr mi DI"; cases "X25519 pr me DE"; cases "X25519 pr mi DE"; cases "X25519 pr me DI")
       (simp_all add: NewSession_def cross_secrets_def assms(2-5) ss ee md dm Let_def)
qed

lemma Open_sealed:
  assumes "crypto_laws pr" and "sealWith pr nonce i ts pt sm = Inr wire" and "x_sendKey sm = x_recvKey sd"
  shows "e2ee_Open pr i ts wire sd =
    (case check i ts (x_recv sd) of
       (Inl e, g) \<Rightarrow> (Inl e, sd\<lparr>x_recv := g\<rparr>)
     | (Inr _, g) \<Rightarrow> (Inr pt, sd\<lparr>x_recv := g\<rparr>))"
  using assms by (auto simp: sealWith_def e2ee_Open_def open_seal [OF assms(1)] split: if_splits)

lemma Open_authentic:
  assumes "crypto_laws pr" and "e2ee_Open pr i ts wire s = (Inr pt, s')"
  shows "\<exists>nonce. length nonce = NonceSize \<and> wire = nonce @ aead_seal pr (x_recvKey s) nonce pt (aad i ts)"
proof -
  from assms(2) have len: "NonceSize \<le> length wire"
    and op: "aead_open pr (x_recvKey s) (take NonceSize wire) (drop NonceSize wire) (aad i ts) = Some pt"
    by (auto simp: e2ee_Open_def split: if_splits option.splits prod.splits sum.splits)
  from open_only [OF assms(1) op] have "wire = take NonceSize wire @ aead_seal pr (x_recvKey s) (take NonceSize wire) pt (aad i ts)"
    by (metis append_take_drop_id)
  with len show ?thesis by (intro exI [of _ "take NonceSize wire"]) simp
qed

subsection \<open>Associated data\<close>

lemma be_bytes_length [simp]: "length (be_bytes n x) = n"
  by (induction n arbitrary: x) simp_all





subsection \<open>Single delivery\<close>

text \<open>
  \<open>guard_inv g H\<close>: every pair of \<open>H\<close>, the pairs accepted so far, is remembered with its timestamp or lies
  before the window. The subtraction wraps when the highest timestamp is within a window of the least
  64-bit integer; the window is far smaller than the range, so a forgotten pair never re-enters it.
\<close>

definition guard_inv :: "replay_guard \<Rightarrow> (string \<times> int) set \<Rightarrow> bool" where
  "guard_inv g H \<longleftrightarrow> g_window g = defaultReplayWindowMillis \<and> wf_map (g_seen g) \<and>
     (if g_primed g
      then min_int64 \<le> g_lastTS g \<and> g_lastTS g \<le> max_int64 \<and>
        (\<forall>(i, t) \<in> H. min_int64 \<le> t \<and> t \<le> g_lastTS g \<and>
           (map_of (g_seen g) i = Some t \<or> t < wrap64 (g_lastTS g - defaultReplayWindowMillis)))
      else H = {} \<and> g_seen g = [])"

lemma floor_cases:
  assumes "min_int64 \<le> l" and "l \<le> max_int64"
  shows "wrap64 (l - defaultReplayWindowMillis) =
    (if min_int64 + defaultReplayWindowMillis \<le> l then l - defaultReplayWindowMillis
     else l - defaultReplayWindowMillis + 18446744073709551616)"
proof (cases "min_int64 + defaultReplayWindowMillis \<le> l")
  case True
  then show ?thesis using assms by (simp add: wrap64_id defaultReplayWindowMillis_def)
next
  case False
  then show ?thesis using assms wrap64_underflow [of "l - defaultReplayWindowMillis"]
    by (simp add: defaultReplayWindowMillis_def min_int64_def)
qed

lemma floor_advances:
  assumes "min_int64 \<le> l" and "l \<le> ts" and "ts \<le> max_int64" and "t \<le> l"
    and "t < wrap64 (l - defaultReplayWindowMillis)" and "ts = l \<or> wrap64 (l - defaultReplayWindowMillis) \<le> ts"
  shows "t < wrap64 (ts - defaultReplayWindowMillis)"
proof (cases "ts = l")
  case True
  with assms(5) show ?thesis by simp
next
  case False
  have l: "wrap64 (l - defaultReplayWindowMillis) = (if min_int64 + defaultReplayWindowMillis \<le> l then l - defaultReplayWindowMillis
     else l - defaultReplayWindowMillis + 18446744073709551616)"
    using assms by (intro floor_cases) simp_all
  have t: "wrap64 (ts - defaultReplayWindowMillis) = (if min_int64 + defaultReplayWindowMillis \<le> ts then ts - defaultReplayWindowMillis
     else ts - defaultReplayWindowMillis + 18446744073709551616)"
    using assms by (intro floor_cases) simp_all
  from False assms l t show ?thesis
    by (auto simp: defaultReplayWindowMillis_def min_int64_def max_int64_def split: if_splits)
qed

lemma check_rejects_old:
  assumes "guard_inv g H" and "(i, ts) \<in> H"
  shows "\<exists>e. check i ts g = (Inl e, g)"
  using assms by (auto simp: guard_inv_def check_def split: if_splits)

lemma check_accepts:
  assumes "guard_inv g H" and "min_int64 \<le> ts" and "ts \<le> max_int64" and "check i ts g = (Inr (), g')"
  shows "guard_inv g' (insert (i, ts) H)"
proof -
  let ?W = "defaultReplayWindowMillis"
  define l where "l = (if \<not> g_primed g \<or> ts > g_lastTS g then ts else g_lastTS g)"
  have w: "g_window g = ?W" and wf: "wf_map (g_seen g)" using assms(1) by (auto simp: guard_inv_def)
  have fresh: "map_of (g_seen g) i = None" and stale: "\<not> (g_primed g \<and> ts < wrap64 (g_lastTS g - ?W))"
    and g': "g' = g\<lparr>g_lastTS := l, g_primed := True, g_seen := mfilter (\<lambda>v. \<not> v < wrap64 (l - ?W)) (AList.update i ts (g_seen g))\<rparr>"
    using assms(4) w by (auto simp: check_def l_def Let_def split: if_splits)
  have seen: "map_of (g_seen g') k = (case map_of (AList.update i ts (g_seen g)) k of None \<Rightarrow> None
      | Some v \<Rightarrow> if v < wrap64 (l - ?W) then None else Some v)" for k
    using wf by (simp add: g' map_of_mfilter split: option.splits)
  have range: "min_int64 \<le> l" "l \<le> max_int64" "ts \<le> l"
    using assms(1-3) by (auto simp: l_def guard_inv_def)
  have "t \<le> l \<and> (map_of (g_seen g') k = Some t \<or> t < wrap64 (l - ?W))" if "(k, t) \<in> H" for k t
  proof -
    have p: "g_primed g" using assms(1) that by (auto simp: guard_inv_def split: if_splits)
    have L: "min_int64 \<le> g_lastTS g" "g_lastTS g \<le> l" "t \<le> g_lastTS g"
      and t: "map_of (g_seen g) k = Some t \<or> t < wrap64 (g_lastTS g - ?W)"
      using assms(1) that p by (auto simp: guard_inv_def l_def)
    show ?thesis
    proof (cases "t < wrap64 (g_lastTS g - ?W)")
      case True
      have "l = g_lastTS g \<or> wrap64 (g_lastTS g - ?W) \<le> l" using stale p by (auto simp: l_def)
      from floor_advances [OF L(1,2) range(2) L(3) True this] L show ?thesis by simp
    next
      case False
      with t have "map_of (g_seen g) k = Some t" by blast
      with fresh L seen [of k] show ?thesis by (cases "k = i") auto
    qed
  qed
  moreover have "map_of (g_seen g') i = Some ts \<or> ts < wrap64 (l - ?W)" using seen [of i] by auto
  moreover have "min_int64 \<le> t" if "(k, t) \<in> H" for k t
    using assms(1) that by (auto simp: guard_inv_def split: if_splits)
  ultimately show ?thesis using assms(2) range wf w
    by (auto simp: guard_inv_def g')
qed

lemma check_Inl: "check i ts g = (Inl e, g') \<Longrightarrow> g' = g"
  by (auto simp: check_def Let_def split: if_splits)

text \<open>A sequence of deliveries and their results.\<close>

fun receive :: "prims \<Rightarrow> (string \<times> int \<times> bytes) list \<Rightarrow> e2ee_session \<Rightarrow> (e2ee_error + bytes) list" where
  "receive pr [] s = []"
| "receive pr ((i, ts, wire) # ms) s =
     (case e2ee_Open pr i ts wire s of (r, s') \<Rightarrow> r # receive pr ms s')"

lemma receive_length [simp]: "length (receive pr ms s) = length ms"
  by (induction pr ms s rule: receive.induct) (simp_all split: prod.splits)

lemma Open_guard:
  assumes "e2ee_Open pr i ts wire s = (r, s')" and "guard_inv (x_recv s) H" and "min_int64 \<le> ts" and "ts \<le> max_int64"
  shows "guard_inv (x_recv s') (if isl r then H else insert (i, ts) H)" and "(i, ts) \<in> H \<Longrightarrow> isl r"
proof -
  obtain c g where c: "check i ts (x_recv s) = (c, g)" by fastforce
  show "guard_inv (x_recv s') (if isl r then H else insert (i, ts) H)"
    using assms c check_accepts [OF assms(2-4)] check_Inl
    by (fastforce simp: e2ee_Open_def split: if_splits option.splits sum.splits)
  show "isl r" if "(i, ts) \<in> H"
    using assms(1) c check_rejects_old [OF assms(2) that] by (auto simp: e2ee_Open_def split: if_splits option.splits)
qed

lemma receive_known:
  assumes "guard_inv (x_recv s) H" and "(i, ts) \<in> H"
    and "\<forall>(i, ts, wire) \<in> set ms. min_int64 \<le> ts \<and> ts \<le> max_int64"
    and "b < length ms" and "ms ! b = (i, ts, wire)"
  shows "isl (receive pr ms s ! b)"
  using assms
proof (induction ms arbitrary: s H b)
  case (Cons m ms)
  obtain j u w where m: "m = (j, u, w)" by (cases m) auto
  obtain r s' where o: "e2ee_Open pr j u w s = (r, s')" by fastforce
  have u: "min_int64 \<le> u" "u \<le> max_int64" using Cons.prems(3) m by auto
  note g = Open_guard [OF o Cons.prems(1) u]
  show ?case
  proof (cases b)
    case 0
    with Cons.prems(2,5) g(2) m o show ?thesis by simp
  next
    case (Suc k)
    have "isl (receive pr ms s' ! k)"
      by (rule Cons.IH [OF g(1)]) (use Cons.prems Suc in auto)
    with Suc m o show ?thesis by simp
  qed
qed simp

lemma receive_once:
  assumes "guard_inv (x_recv s) H" and "\<forall>(i, ts, wire) \<in> set ms. min_int64 \<le> ts \<and> ts \<le> max_int64"
    and "a < b" and "b < length ms" and "ms ! a = (i, ts, w1)" and "ms ! b = (i, ts, w2)"
    and "\<not> isl (receive pr ms s ! a)"
  shows "isl (receive pr ms s ! b)"
  using assms
proof (induction ms arbitrary: s H a b)
  case (Cons m ms)
  obtain j u w where m: "m = (j, u, w)" by (cases m) auto
  obtain r s' where o: "e2ee_Open pr j u w s = (r, s')" by fastforce
  have u: "min_int64 \<le> u" "u \<le> max_int64" using Cons.prems(2) m by auto
  note g = Open_guard [OF o Cons.prems(1) u]
  obtain k where b: "b = Suc k" using Cons.prems(3) by (cases b) auto
  have ms: "\<forall>(i, ts, wire) \<in> set ms. min_int64 \<le> ts \<and> ts \<le> max_int64" using Cons.prems(2) by simp
  show ?case
  proof (cases a)
    case 0
    with Cons.prems(5,7) m o have "\<not> isl r" "j = i" "u = ts" by simp_all
    with g(1) have "guard_inv (x_recv s') (insert (i, ts) H)" by simp
    from receive_known [OF this _ ms, of i ts k w2 pr] Cons.prems(4,6) b m o show ?thesis by simp
  next
    case (Suc c)
    from Cons.IH [OF g(1) ms, of c k] Cons.prems(3-7) Suc b m o show ?thesis by simp
  qed
qed simp


subsection \<open>Properties\<close>

lemma NewSession_guard:
  "NewSession pr a b c d r = Inr s \<Longrightarrow> x_recv s = newReplayGuard defaultReplayWindowMillis"
  by (auto simp: NewSession_def Let_def split: if_splits option.splits prod.splits)

lemma newReplayGuard_inv: "guard_inv (newReplayGuard defaultReplayWindowMillis) {}"
  by (simp add: guard_inv_def newReplayGuard_def)

lemma NewSession_labels:
  assumes "NewSession pr idPriv peerIDPub ephPriv peerEphPub RoleMobile = Inr s"
  shows "\<exists>ikm salt. x_sendKey s = hkdf pr ikm salt ''secure-gateway/e2ee/v2|m2d'' \<and>
    x_recvKey s = hkdf pr ikm salt ''secure-gateway/e2ee/v2|d2m''"
  using assms by (simp add: NewSession_def deriveKey_def infoPrefix_def dirM2D_def dirD2M_def Let_def
    split: if_splits option.splits prod.splits) (metis e2ee_session.select_convs(1,2))

text \<open>
  A primitive set that keeps the laws, for the witnesses: a commutative key agreement and a box that carries the
  length of its associated data in front of it.
\<close>

definition box_head :: "bytes \<Rightarrow> bytes" where "box_head ad = replicate (length ad) CHR ''a'' @ ''|'' @ ad"


definition ex_prims :: prims where
  "ex_prims =
     \<lparr>X25519 = (\<lambda>a p. Some (replicate (length a + length p) CHR ''x'')), Basepoint = [], hkdf = (\<lambda>ikm salt info. ikm @ salt @ info),
      aead_seal = (\<lambda>k n pt ad. k @ n @ box_head ad @ pt),
      aead_open = (\<lambda>k n ct ad. if prefix (k @ n @ box_head ad) ct then Some (drop (length (k @ n @ box_head ad)) ct) else None)\<rparr>"

lemma ex_prims_laws: "crypto_laws ex_prims"
  by (auto simp: crypto_laws_def ex_prims_def prefix_def add.commute)


lemma ex_prims_dh [simp]:
  "X25519 ex_prims a p = Some (replicate (length a + length p) CHR ''x'')"
  "PublicFromPrivate ex_prims a = Some (replicate (length a) CHR ''x'')"
  by (simp_all add: PublicFromPrivate_def ex_prims_def)

lemma ex_NewSession: "\<exists>s. NewSession ex_prims a b c d RoleMobile = Inr s"
  by (simp add: NewSession_def cross_secrets_def Let_def)

text \<open>
  C19. Both devices derive the same keys, and what one seals the other opens: from the four key pairs of a
  pair, the mobile's session and the desktop's session either both fail or agree crosswise on the two
  directional keys; then the first message sealed on either side, with any 24-byte nonce, identifier and
  timestamp, is opened by the other to the same plaintext. The keys of the two directions are derived from the
  same secret and salt under two different labels, so they differ whenever the key derivation tells labels apart.
\<close>

theorem e2ee_end_to_end:
  assumes "crypto_laws pr" and "PublicFromPrivate pr mi = Some MI" and "PublicFromPrivate pr me = Some ME"
    and "PublicFromPrivate pr di = Some DI" and "PublicFromPrivate pr de = Some DE"
    and "NewSession pr mi DI me DE RoleMobile = Inr sm" and "length nonce = NonceSize"
  shows "\<exists>sd w1 w2. NewSession pr di MI de ME RoleDesktop = Inr sd \<and>
    sealWith pr nonce i ts pt sm = Inr w1 \<and> fst (e2ee_Open pr i ts w1 sd) = Inr pt \<and>
    sealWith pr nonce i ts pt sd = Inr w2 \<and> fst (e2ee_Open pr i ts w2 sm) = Inr pt \<and>
    x_sendKey sd = x_recvKey sm \<and> x_recvKey sd = x_sendKey sm \<and>
    (\<exists>ikm salt. x_sendKey sm = hkdf pr ikm salt ''secure-gateway/e2ee/v2|m2d'' \<and>
       x_recvKey sm = hkdf pr ikm salt ''secure-gateway/e2ee/v2|d2m'') \<and>
    ((\<forall>ikm salt a b. a \<noteq> b \<longrightarrow> hkdf pr ikm salt a \<noteq> hkdf pr ikm salt b) \<longrightarrow> x_sendKey sm \<noteq> x_recvKey sm)"
proof -
  from NewSession_match [OF assms(1-5)] assms(6) obtain sd where sd: "NewSession pr di MI de ME RoleDesktop = Inr sd"
    and keys: "x_sendKey sm = x_recvKey sd" "x_recvKey sm = x_sendKey sd" by auto
  have acc: "\<exists>g. check i ts (newReplayGuard defaultReplayWindowMillis) = (Inr (), g)"
    by (simp add: check_def newReplayGuard_def Let_def)
  obtain w1 w2 where w: "sealWith pr nonce i ts pt sm = Inr w1" "sealWith pr nonce i ts pt sd = Inr w2"
    using assms(7) by (simp add: sealWith_def)
  have "fst (e2ee_Open pr i ts w1 sd) = Inr pt" "fst (e2ee_Open pr i ts w2 sm) = Inr pt"
    using Open_sealed [OF assms(1) w(1) keys(1)] Open_sealed [OF assms(1) w(2) keys(2) [symmetric]] acc
      NewSession_guard [OF assms(6)] NewSession_guard [OF sd] by auto
  moreover note lab = NewSession_labels [OF assms(6)]
  moreover have "(\<forall>ikm salt a b. a \<noteq> b \<longrightarrow> hkdf pr ikm salt a \<noteq> hkdf pr ikm salt b) \<longrightarrow> x_sendKey sm \<noteq> x_recvKey sm"
    using lab by auto
  ultimately show ?thesis using sd w keys by metis
qed

theorem e2ee_end_to_end_witness:
  "\<exists>sm sd w. NewSession ex_prims ''a'' ''x'' ''b'' ''x'' RoleMobile = Inr sm \<and>
     NewSession ex_prims ''c'' ''x'' ''d'' ''x'' RoleDesktop = Inr sd \<and>
     sealWith ex_prims (replicate 24 CHR ''n'') ''m1'' 5 ''hello'' sm = Inr w \<and>
     fst (e2ee_Open ex_prims ''m1'' 5 w sd) = Inr ''hello'' \<and> x_sendKey sm \<noteq> x_recvKey sm"
proof -
  have p: "PublicFromPrivate ex_prims [y] = Some ''x''" for y by simp
  obtain sm where sm: "NewSession ex_prims ''a'' ''x'' ''b'' ''x'' RoleMobile = Inr sm"
    using ex_NewSession by blast
  have n: "length (replicate 24 CHR ''n'') = NonceSize" by (simp add: NonceSize_def)
  have "\<forall>ikm salt a b. a \<noteq> b \<longrightarrow> hkdf ex_prims ikm salt a \<noteq> hkdf ex_prims ikm salt b" by (simp add: ex_prims_def)
  with e2ee_end_to_end [OF ex_prims_laws p p p p sm n] sm show ?thesis by blast
qed

text \<open>
  C20. No message is delivered twice: in any sequence of deliveries to a session, in any order and with any
  64-bit timestamps, of two deliveries that carry the same envelope identifier and timestamp at most the
  first succeeds.
\<close>

theorem e2ee_single_delivery:
  assumes "NewSession pr idPriv peerIDPub ephPriv peerEphPub r = Inr s"
    and "\<forall>(i, ts, wire) \<in> set ms. min_int64 \<le> ts \<and> ts \<le> max_int64"
    and "a < b" and "b < length ms" and "ms ! a = (i, ts, w1)" and "ms ! b = (i, ts, w2)"
  shows "isl (receive pr ms s ! a) \<or> isl (receive pr ms s ! b)"
  using receive_once [OF _ assms(2-6)] NewSession_guard [OF assms(1)] newReplayGuard_inv by metis

theorem e2ee_single_delivery_witness:
  "\<exists>s. NewSession ex_prims ''a'' ''c'' ''b'' ''d'' RoleMobile = Inr s \<and>
     (isl (receive ex_prims [(''m'', 5, ''x''), (''q'', 9, ''y''), (''m'', 5, ''x'')] s ! 0) \<or>
      isl (receive ex_prims [(''m'', 5, ''x''), (''q'', 9, ''y''), (''m'', 5, ''x'')] s ! 2))"
proof -
  obtain s where s: "NewSession ex_prims ''a'' ''c'' ''b'' ''d'' RoleMobile = Inr s"
    using ex_NewSession by blast
  from e2ee_single_delivery [OF s, of "[(''m'', 5, ''x''), (''q'', 9, ''y''), (''m'', 5, ''x'')]" 0 2 "''m''" 5 "''x''" "''x''"]
  show ?thesis using s by (simp add: min_int64_def max_int64_def)
qed



end
