(* ===== verification/Encoding.thy ===== *)
theory Encoding
  imports SG_Prelude
begin

section \<open>Text encodings of byte strings\<close>

text \<open>
  The encodings of the standard library that the sources use: \<^verbatim>\<open>encoding/hex\<close>, \<^verbatim>\<open>encoding/base32\<close>
  (standard alphabet, no padding) and \<^verbatim>\<open>encoding/base64\<close> (\<^verbatim>\<open>StdEncoding\<close> and \<^verbatim>\<open>RawURLEncoding\<close>). All three cut the bits of
  the input, most significant first, into groups and write one symbol for each. The base64 decoder
  skips carriage returns and newlines and ignores the unused bits of the last symbol, as Go's does.
\<close>

subsection \<open>Bits\<close>

fun byte_bits :: "char \<Rightarrow> bool list" where
  "byte_bits (Char b0 b1 b2 b3 b4 b5 b6 b7) = [b7, b6, b5, b4, b3, b2, b1, b0]"

fun bits_byte :: "bool list \<Rightarrow> char" where
  "bits_byte [b7, b6, b5, b4, b3, b2, b1, b0] = Char b0 b1 b2 b3 b4 b5 b6 b7"
| "bits_byte _ = CHR 0x00"

definition bits_of :: "bytes \<Rightarrow> bool list" where
  "bits_of bs = concat (map byte_bits bs)"

primrec bits_val :: "bool list \<Rightarrow> nat" where
  "bits_val [] = 0"
| "bits_val (b # bs) = (if b then 2 ^ length bs else 0) + bits_val bs"

function chunks :: "nat \<Rightarrow> 'a list \<Rightarrow> 'a list list" where
  "chunks n xs = (if n = 0 \<or> xs = [] then [] else take n xs # chunks n (drop n xs))"
  by pat_completeness auto
termination by (relation "measure (\<lambda>(n, xs). length xs)") auto

declare chunks.simps [simp del]

definition pad_right :: "nat \<Rightarrow> bool list \<Rightarrow> bool list" where
  "pad_right n bs = bs @ replicate (n - length bs) False"

definition symbols :: "nat \<Rightarrow> string \<Rightarrow> bytes \<Rightarrow> string" where
  "symbols n alphabet bs = map (\<lambda>c. alphabet ! bits_val (pad_right n c)) (chunks n (bits_of bs))"

lemma bits_val_less: "bits_val bs < 2 ^ length bs"
  by (induction bs) auto

lemma chunks_Nil [simp]: "chunks n [] = []"
  by (simp add: chunks.simps)

lemma chunks_step: "0 < n \<Longrightarrow> xs \<noteq> [] \<Longrightarrow> chunks n xs = take n xs # chunks n (drop n xs)"
  by (subst chunks.simps) simp

lemma chunk_length: "0 < n \<Longrightarrow> c \<in> set (chunks n xs) \<Longrightarrow> length c \<le> n"
proof (induction "length xs" arbitrary: xs rule: less_induct)
  case less
  show ?case
  proof (cases "xs = []")
    case False
    then have "c = take n xs \<or> c \<in> set (chunks n (drop n xs))" using less.prems by (simp add: chunks_step)
    then show ?thesis
    proof
      assume c: "c \<in> set (chunks n (drop n xs))"
      show ?thesis by (rule less.hyps [OF _ less.prems(1) c]) (use False less.prems in simp)
    qed simp
  qed (use less.prems in simp)
qed

lemma symbols_alphabet:
  assumes "0 < n" and "length alphabet = 2 ^ n"
  shows "set (symbols n alphabet bs) \<subseteq> set alphabet"
proof
  fix x
  assume "x \<in> set (symbols n alphabet bs)"
  then obtain c where c: "c \<in> set (chunks n (bits_of bs))" and x: "x = alphabet ! bits_val (pad_right n c)"
    by (auto simp: symbols_def)
  have "length (pad_right n c) = n" using chunk_length [OF assms(1) c] by (simp add: pad_right_def)
  then have "bits_val (pad_right n c) < length alphabet" using bits_val_less [of "pad_right n c"] assms(2) by simp
  then show "x \<in> set alphabet" using x by simp
qed

lemma symbols_Nil_iff: "0 < n \<Longrightarrow> symbols n alphabet bs = [] \<longleftrightarrow> bs = []"
proof -
  assume n: "0 < n"
  have "bits_of bs = [] \<longleftrightarrow> bs = []" by (cases bs; cases "hd bs") (auto simp: bits_of_def)
  then show ?thesis using n by (cases "bits_of bs = []") (auto simp: symbols_def chunks_step)
qed

subsection \<open>Hexadecimal and base32\<close>

definition hex_alphabet :: string where "hex_alphabet = ''0123456789abcdef''"
definition base32_alphabet :: string where "base32_alphabet = ''ABCDEFGHIJKLMNOPQRSTUVWXYZ234567''"

definition hex_EncodeToString :: "bytes \<Rightarrow> string" where
  "hex_EncodeToString = symbols 4 hex_alphabet"

definition base32_EncodeToString :: "bytes \<Rightarrow> string" where
  "base32_EncodeToString = symbols 5 base32_alphabet"

subsection \<open>Base64\<close>

definition base64_alphabet :: string where
  "base64_alphabet = ''ABCDEFGHIJKLMNOPQRSTUVWXYZabcdefghijklmnopqrstuvwxyz0123456789+/''"

definition sextet_symbol :: "bool list \<Rightarrow> char" where
  "sextet_symbol bs = base64_alphabet ! bits_val bs"

definition sextets :: "bool list list" where
  "sextets = map rev (List.n_lists 6 [False, True])"

definition symbol_sextet :: "char \<Rightarrow> bool list option" where
  "symbol_sextet c = map_of (zip base64_alphabet sextets) c"

fun base64_EncodeToString :: "bytes \<Rightarrow> string" where
  "base64_EncodeToString (a # b # c # rest) =
     (let bs = byte_bits a @ byte_bits b @ byte_bits c
      in [sextet_symbol (take 6 bs), sextet_symbol (take 6 (drop 6 bs)),
          sextet_symbol (take 6 (drop 12 bs)), sextet_symbol (drop 18 bs)] @ base64_EncodeToString rest)"
| "base64_EncodeToString [a, b] =
     (let bs = byte_bits a @ byte_bits b @ [False, False]
      in [sextet_symbol (take 6 bs), sextet_symbol (take 6 (drop 6 bs)), sextet_symbol (drop 12 bs), CHR ''=''])"
| "base64_EncodeToString [a] =
     (let bs = byte_bits a @ [False, False, False, False]
      in [sextet_symbol (take 6 bs), sextet_symbol (drop 6 bs), CHR ''='', CHR ''=''])"
| "base64_EncodeToString [] = []"

text \<open>
  One quantum of four symbols at a time; the padding may only end the input. \<open>base64_quanta\<close> is the
  decoder on an input without line breaks.
\<close>

fun base64_quanta :: "string \<Rightarrow> bytes option" where
  "base64_quanta (a # b # c # d # rest) =
     (case (symbol_sextet a, symbol_sextet b) of
        (Some x, Some y) \<Rightarrow>
          (if c = CHR ''='' then
             (if d = CHR ''='' \<and> rest = [] then Some [bits_byte (x @ take 2 y)] else None)
           else case symbol_sextet c of
             None \<Rightarrow> None
           | Some z \<Rightarrow>
               (if d = CHR ''='' then
                  (if rest = [] then Some [bits_byte (x @ take 2 y), bits_byte (drop 2 y @ take 4 z)] else None)
                else case symbol_sextet d of
                  None \<Rightarrow> None
                | Some w \<Rightarrow>
                    map_option (\<lambda>bs. bits_byte (x @ take 2 y) # bits_byte (drop 2 y @ take 4 z) #
                      bits_byte (drop 4 z @ w) # bs) (base64_quanta rest)))
      | _ \<Rightarrow> None)"
| "base64_quanta [] = Some []"
| "base64_quanta _ = None"

definition base64_DecodeString :: "string \<Rightarrow> bytes option" where
  "base64_DecodeString s = base64_quanta (filter (\<lambda>c. c \<noteq> CHR 10 \<and> c \<noteq> CHR 13) s)"

lemma sextets_eval:
  "sextets = [[a, b, c, d, e, f]. a \<leftarrow> [False, True], b \<leftarrow> [False, True], c \<leftarrow> [False, True],
     d \<leftarrow> [False, True], e \<leftarrow> [False, True], f \<leftarrow> [False, True]]"
  by code_simp

lemma symbol_sextet_symbol_all:
  "list_all (\<lambda>l. symbol_sextet (sextet_symbol l) = Some l \<and> sextet_symbol l \<noteq> CHR ''='' \<and>
     sextet_symbol l \<noteq> CHR 10 \<and> sextet_symbol l \<noteq> CHR 13) sextets"
  by code_simp

lemma sextet_in: "[a, b, c, d, e, f] \<in> set sextets"
  unfolding sextets_eval by (cases a; cases b; cases c; cases d; cases e; cases f; simp)

lemma symbol_sextet_symbol [simp]:
  "symbol_sextet (sextet_symbol [a, b, c, d, e, f]) = Some [a, b, c, d, e, f]"
  "sextet_symbol [a, b, c, d, e, f] \<noteq> CHR ''=''"
  "sextet_symbol [a, b, c, d, e, f] \<noteq> CHR 10" "sextet_symbol [a, b, c, d, e, f] \<noteq> CHR 13"
  using symbol_sextet_symbol_all sextet_in [of a b c d e f] by (auto simp: list_all_iff)

lemma base64_roundtrip: "base64_DecodeString (base64_EncodeToString bs) = Some bs"
proof (induction bs rule: base64_EncodeToString.induct)
  case (1 a b c rest)
  then show ?case
    by (cases a; cases b; cases c) (simp add: base64_DecodeString_def Let_def numeral_eq_Suc)
next
  case (2 a b)
  show ?case by (cases a; cases b) (simp add: base64_DecodeString_def Let_def numeral_eq_Suc)
next
  case (3 a)
  show ?case by (cases a) (simp add: base64_DecodeString_def Let_def numeral_eq_Suc)
qed (simp add: base64_DecodeString_def)


subsection \<open>Base64 for URLs\<close>

text \<open>\<^verbatim>\<open>RawURLEncoding\<close>: two symbols differ and there is no padding, so the last group has two or three symbols.\<close>

definition url_symbol :: "bool list \<Rightarrow> char" where
  "url_symbol bs = (let c = sextet_symbol bs in if c = CHR ''+'' then CHR ''-'' else if c = CHR ''/'' then CHR ''_'' else c)"

definition url_sextet :: "char \<Rightarrow> bool list option" where
  "url_sextet c =
     (if c = CHR ''-'' then symbol_sextet CHR ''+'' else if c = CHR ''_'' then symbol_sextet CHR ''/''
      else if c = CHR ''+'' \<or> c = CHR ''/'' then None else symbol_sextet c)"

fun rawurl_EncodeToString :: "bytes \<Rightarrow> string" where
  "rawurl_EncodeToString (a # b # c # rest) =
     (let bs = byte_bits a @ byte_bits b @ byte_bits c
      in [url_symbol (take 6 bs), url_symbol (take 6 (drop 6 bs)),
          url_symbol (take 6 (drop 12 bs)), url_symbol (drop 18 bs)] @ rawurl_EncodeToString rest)"
| "rawurl_EncodeToString [a, b] =
     (let bs = byte_bits a @ byte_bits b @ [False, False]
      in [url_symbol (take 6 bs), url_symbol (take 6 (drop 6 bs)), url_symbol (drop 12 bs)])"
| "rawurl_EncodeToString [a] =
     (let bs = byte_bits a @ [False, False, False, False] in [url_symbol (take 6 bs), url_symbol (drop 6 bs)])"
| "rawurl_EncodeToString [] = []"

fun rawurl_quanta :: "string \<Rightarrow> bytes option" where
  "rawurl_quanta (a # b # c # d # rest) =
     (case (url_sextet a, url_sextet b, url_sextet c, url_sextet d) of
        (Some x, Some y, Some z, Some w) \<Rightarrow>
          map_option (\<lambda>bs. bits_byte (x @ take 2 y) # bits_byte (drop 2 y @ take 4 z) # bits_byte (drop 4 z @ w) # bs)
            (rawurl_quanta rest)
      | _ \<Rightarrow> None)"
| "rawurl_quanta [a, b, c] =
     (case (url_sextet a, url_sextet b, url_sextet c) of
        (Some x, Some y, Some z) \<Rightarrow> Some [bits_byte (x @ take 2 y), bits_byte (drop 2 y @ take 4 z)]
      | _ \<Rightarrow> None)"
| "rawurl_quanta [a, b] =
     (case (url_sextet a, url_sextet b) of (Some x, Some y) \<Rightarrow> Some [bits_byte (x @ take 2 y)] | _ \<Rightarrow> None)"
| "rawurl_quanta [a] = None"
| "rawurl_quanta [] = Some []"

definition rawurl_DecodeString :: "string \<Rightarrow> bytes option" where
  "rawurl_DecodeString s = rawurl_quanta (filter (\<lambda>c. c \<noteq> CHR 10 \<and> c \<noteq> CHR 13) s)"

definition url_safe :: "char \<Rightarrow> bool" where
  "url_safe c \<longleftrightarrow> c \<in> set ''ABCDEFGHIJKLMNOPQRSTUVWXYZabcdefghijklmnopqrstuvwxyz0123456789-_''"

lemma url_symbol_all:
  "list_all (\<lambda>l. url_sextet (url_symbol l) = Some l \<and> url_safe (url_symbol l)) sextets"
  by code_simp

lemma url_sextet_symbol [simp]:
  "url_sextet (url_symbol [a, b, c, d, e, f]) = Some [a, b, c, d, e, f]" "url_safe (url_symbol [a, b, c, d, e, f])"
  using url_symbol_all sextet_in [of a b c d e f] by (auto simp: list_all_iff)

lemma url_safe_line: "url_safe c \<Longrightarrow> c \<noteq> CHR 10 \<and> c \<noteq> CHR 13"
  by (auto simp: url_safe_def)

lemma rawurl_safe: "list_all url_safe (rawurl_EncodeToString bs)"
proof (induction bs rule: rawurl_EncodeToString.induct)
  case (1 a b c rest)
  then show ?case by (cases a; cases b; cases c) (simp add: Let_def numeral_eq_Suc)
next
  case (2 a b)
  show ?case by (cases a; cases b) (simp add: Let_def numeral_eq_Suc)
next
  case (3 a)
  show ?case by (cases a) (simp add: Let_def numeral_eq_Suc)
qed simp

lemma rawurl_quanta_roundtrip: "rawurl_quanta (rawurl_EncodeToString bs) = Some bs"
proof (induction bs rule: rawurl_EncodeToString.induct)
  case (1 a b c rest)
  then show ?case by (cases a; cases b; cases c) (simp add: Let_def numeral_eq_Suc)
next
  case (2 a b)
  show ?case by (cases a; cases b) (simp add: Let_def numeral_eq_Suc)
next
  case (3 a)
  show ?case by (cases a) (simp add: Let_def numeral_eq_Suc)
qed simp

lemma rawurl_roundtrip: "rawurl_DecodeString (rawurl_EncodeToString bs) = Some bs"
proof -
  have "filter (\<lambda>c. c \<noteq> CHR 10 \<and> c \<noteq> CHR 13) (rawurl_EncodeToString bs) = rawurl_EncodeToString bs"
    using rawurl_safe [of bs] url_safe_line by (intro filter_True) (auto simp: list_all_iff)
  then show ?thesis by (simp add: rawurl_DecodeString_def rawurl_quanta_roundtrip)
qed

end
