(* ===== verification/AuthStore.thy ===== *)
theory AuthStore
  imports Encoding Token
begin

section \<open>The persistence contract of the auth service\<close>

text \<open>
  Models \<^verbatim>\<open>internal/authstore/store.go\<close>: the records, the identifiers and the \<^verbatim>\<open>Store\<close> interface, as a
  record of operations on a state of any type. A status is a string in the source and here. The
  contract is an abstract database of partial maps with one step \<open>spec\<close> per operation that changes
  state; the locale \<open>auth_store\<close> states that a store implements it, and carries what follows for every
  interleaving of operations.
\<close>

datatype store_error = ErrNotFound | ErrConflict | ErrCapacityExceeded | ErrStore

type_synonym status = string

definition SubTrialing :: status where "SubTrialing = ''trialing''"
definition SubActive :: status where "SubActive = ''active''"
definition SubPastDue :: status where "SubPastDue = ''past_due''"
definition SubCanceled :: status where "SubCanceled = ''canceled''"
definition SubUnpaid :: status where "SubUnpaid = ''unpaid''"
definition SubIncompleteExpired :: status where "SubIncompleteExpired = ''incomplete_expired''"
definition SubPaused :: status where "SubPaused = ''paused''"
definition LicenseActive :: status where "LicenseActive = ''active''"
definition LicenseRevoked :: status where "LicenseRevoked = ''revoked''"
definition PairingActive :: status where "PairingActive = ''active''"
definition PairingRevoked :: status where "PairingRevoked = ''revoked''"
definition WebhookPending :: status where "WebhookPending = ''pending''"
definition WebhookProcessed :: status where "WebhookProcessed = ''processed''"
definition WebhookFailed :: status where "WebhookFailed = ''failed''"
definition WebhookDead :: status where "WebhookDead = ''dead''"
definition ClaimPending :: status where "ClaimPending = ''pending''"
definition ClaimReady :: status where "ClaimReady = ''ready''"
definition ClaimConsumed :: status where "ClaimConsumed = ''consumed''"

lemmas status_defs =
  SubTrialing_def SubActive_def SubPastDue_def SubCanceled_def SubUnpaid_def SubIncompleteExpired_def
  SubPaused_def LicenseActive_def LicenseRevoked_def PairingActive_def PairingRevoked_def
  WebhookPending_def WebhookProcessed_def WebhookFailed_def WebhookDead_def ClaimPending_def
  ClaimReady_def ClaimConsumed_def

lemma status_distinct [simp]:
  "PairingRevoked \<noteq> PairingActive" "PairingActive \<noteq> PairingRevoked"
  "LicenseRevoked \<noteq> LicenseActive" "LicenseActive \<noteq> LicenseRevoked"
  "ClaimPending \<noteq> ClaimReady" "ClaimReady \<noteq> ClaimPending" "ClaimConsumed \<noteq> ClaimReady"
  "ClaimReady \<noteq> ClaimConsumed" "ClaimPending \<noteq> ClaimConsumed" "ClaimConsumed \<noteq> ClaimPending"
  by (simp_all add: status_defs)

subsection \<open>Records\<close>

record account =
  acc_ID :: string
  acc_StripeCustomerID :: string
  acc_SecretHash :: string
  acc_CreatedAt :: time

record subscription =
  sub_ID :: string
  sub_AccountID :: string
  sub_Status :: status
  sub_MaxPairs :: int
  sub_CurrentPeriodEnd :: time
  sub_GraceUntil :: time
  sub_UpdatedAt :: time

record license =
  lic_ID :: string
  lic_AccountID :: string
  lic_SubscriptionID :: string
  lic_SubscriptionItemID :: string
  lic_Status :: status
  lic_CreatedAt :: time

record device =
  dev_ID :: string
  dev_AccountID :: string
  dev_Role :: role
  dev_PublicKey :: "bytes option"
  dev_CreatedAt :: time

record pairing =
  pr_PairID :: string
  pr_LicenseID :: string
  pr_AccountID :: string
  pr_MobileDeviceID :: string
  pr_DesktopDeviceID :: string
  pr_Status :: status
  pr_CreatedAt :: time

record refresh_token =
  rt_ID :: string
  rt_DeviceID :: string
  rt_AccountID :: string
  rt_PairID :: string
  rt_ExpiresAt :: time
  rt_RevokedAt :: time

definition rt_Active :: "refresh_token \<Rightarrow> time \<Rightarrow> bool" where
  "rt_Active r now \<longleftrightarrow> IsZero (rt_RevokedAt r) \<and> now < rt_ExpiresAt r"

record pairing_token =
  pt_ID :: string
  pt_AccountID :: string
  pt_LicenseID :: string
  pt_DesktopDeviceID :: string
  pt_ExpiresAt :: time
  pt_ConsumedAt :: time
  pt_ResultPairID :: string

definition pt_Active :: "pairing_token \<Rightarrow> time \<Rightarrow> bool" where
  "pt_Active t now \<longleftrightarrow> IsZero (pt_ConsumedAt t) \<and> now < pt_ExpiresAt t"

record pair_credential =
  pc_PairID :: string
  pc_AccountID :: string
  pc_LicenseID :: string
  pc_MobileDeviceID :: string
  pc_SecretHash :: string
  pc_CreatedAt :: time
  pc_RevokedAt :: time

definition pc_Active :: "pair_credential \<Rightarrow> time \<Rightarrow> bool" where
  "pc_Active c now \<longleftrightarrow> IsZero (pc_RevokedAt c)"

record checkout_claim =
  cc_Nonce :: string
  cc_StripeSessionID :: string
  cc_RedirectURI :: string
  cc_ClaimCodeHash :: string
  cc_AccountID :: string
  cc_LicenseID :: string
  cc_SubscriptionID :: string
  cc_Status :: status
  cc_CreatedAt :: time
  cc_ExpiresAt :: time
  cc_ConsumedAt :: time

definition cc_Active :: "checkout_claim \<Rightarrow> time \<Rightarrow> bool" where
  "cc_Active c now \<longleftrightarrow> cc_Status c \<noteq> ClaimConsumed \<and> now < cc_ExpiresAt c"

record webhook_event =
  we_ID :: string
  we_Type :: string
  we_Status :: status
  we_Attempts :: int
  we_Payload :: bytes
  we_ReceivedAt :: time
  we_ProcessedAt :: time

subsection \<open>Identifiers\<close>

text \<open>
  \<open>rnd\<close> stands for the bytes read from the system's random source; a failing source panics, so the
  identifier then does not exist.
\<close>

definition toLower :: "string \<Rightarrow> string" where
  "toLower s = map ascii_lower s"

definition randToken :: "bytes \<Rightarrow> string" where
  "randToken rnd = toLower (base32_EncodeToString rnd)"

definition NewID :: "string \<Rightarrow> bytes \<Rightarrow> string" where
  "NewID pre rnd = pre @ ''_'' @ randToken rnd"

definition token_alphabet :: string where "token_alphabet = ''abcdefghijklmnopqrstuvwxyz234567''"

lemma randToken_alphabet: "set (randToken rnd) \<subseteq> set token_alphabet"
proof -
  have "set (base32_EncodeToString rnd) \<subseteq> set base32_alphabet"
    unfolding base32_EncodeToString_def by (rule symbols_alphabet) (simp_all add: base32_alphabet_def)
  then have "set (randToken rnd) \<subseteq> ascii_lower ` set base32_alphabet" by (auto simp: randToken_def toLower_def)
  also have "\<dots> = set (map ascii_lower base32_alphabet)" by simp
  also have "map ascii_lower base32_alphabet = token_alphabet" by code_simp
  finally show ?thesis .
qed

lemma randToken_Nil_iff [simp]: "randToken rnd = [] \<longleftrightarrow> rnd = []"
  by (simp add: randToken_def toLower_def base32_EncodeToString_def symbols_Nil_iff)

subsection \<open>The interface\<close>

text \<open>
  A read takes the state and returns a value or an error; a write returns the new state as well.
  \<open>st_RevokeRefreshToken\<close> also takes the wall clock, which its implementations read themselves.
\<close>

record 's store_ops =
  st_UpsertAccount :: "account \<Rightarrow> 's \<Rightarrow> store_error option \<times> 's"
  st_GetAccount :: "'s \<Rightarrow> string \<Rightarrow> store_error + account"
  st_GetAccountByCustomer :: "'s \<Rightarrow> string \<Rightarrow> store_error + account"
  st_UpsertSubscription :: "subscription \<Rightarrow> 's \<Rightarrow> store_error option \<times> 's"
  st_GetSubscription :: "'s \<Rightarrow> string \<Rightarrow> store_error + subscription"
  st_ListSubscriptions :: "'s \<Rightarrow> store_error + subscription list"
  st_CreateLicense :: "license \<Rightarrow> 's \<Rightarrow> store_error option \<times> 's"
  st_GetLicense :: "'s \<Rightarrow> string \<Rightarrow> store_error + license"
  st_ListLicensesByAccount :: "'s \<Rightarrow> string \<Rightarrow> store_error + license list"
  st_ListLicensesBySubscription :: "'s \<Rightarrow> string \<Rightarrow> store_error + license list"
  st_SetLicenseStatus :: "string \<Rightarrow> status \<Rightarrow> 's \<Rightarrow> store_error option \<times> 's"
  st_UpsertDevice :: "device \<Rightarrow> 's \<Rightarrow> store_error option \<times> 's"
  st_GetDevice :: "'s \<Rightarrow> string \<Rightarrow> store_error + device"
  st_CountDevicesByAccount :: "'s \<Rightarrow> string \<Rightarrow> store_error + nat"
  st_FindDeviceByAccountRoleKey :: "'s \<Rightarrow> string \<Rightarrow> role \<Rightarrow> bytes \<Rightarrow> store_error + device"
  st_CreatePairing :: "pairing \<Rightarrow> 's \<Rightarrow> store_error option \<times> 's"
  st_CreatePairingWithinCapacity :: "pairing \<Rightarrow> int \<Rightarrow> 's \<Rightarrow> store_error option \<times> 's"
  st_GetPairing :: "'s \<Rightarrow> string \<Rightarrow> store_error + pairing"
  st_ListActivePairingsByLicense :: "'s \<Rightarrow> string \<Rightarrow> store_error + pairing list"
  st_ListActivePairingsByAccount :: "'s \<Rightarrow> string \<Rightarrow> store_error + pairing list"
  st_SetPairingStatus :: "string \<Rightarrow> status \<Rightarrow> 's \<Rightarrow> store_error option \<times> 's"
  st_UpdatePairingDevices :: "string \<Rightarrow> string \<Rightarrow> string \<Rightarrow> 's \<Rightarrow> store_error option \<times> 's"
  st_ActivePairCount :: "'s \<Rightarrow> string \<Rightarrow> store_error + nat"
  st_PutRefreshToken :: "refresh_token \<Rightarrow> 's \<Rightarrow> store_error option \<times> 's"
  st_GetRefreshToken :: "'s \<Rightarrow> string \<Rightarrow> store_error + refresh_token"
  st_RevokeRefreshToken :: "time \<Rightarrow> string \<Rightarrow> 's \<Rightarrow> store_error option \<times> 's"
  st_ConsumeRefreshToken :: "string \<Rightarrow> time \<Rightarrow> 's \<Rightarrow> store_error option \<times> 's"
  st_RevokeRefreshTokensByDevice :: "string \<Rightarrow> time \<Rightarrow> 's \<Rightarrow> store_error option \<times> 's"
  st_PutPairCredential :: "pair_credential \<Rightarrow> 's \<Rightarrow> store_error option \<times> 's"
  st_GetPairCredential :: "'s \<Rightarrow> string \<Rightarrow> store_error + pair_credential"
  st_RevokePairCredential :: "string \<Rightarrow> time \<Rightarrow> 's \<Rightarrow> store_error option \<times> 's"
  st_CreatePairingToken :: "pairing_token \<Rightarrow> 's \<Rightarrow> store_error option \<times> 's"
  st_GetPairingToken :: "'s \<Rightarrow> string \<Rightarrow> store_error + pairing_token"
  st_ConsumePairingToken :: "string \<Rightarrow> string \<Rightarrow> time \<Rightarrow> 's \<Rightarrow> store_error option \<times> 's"
  st_CreateCheckoutClaim :: "checkout_claim \<Rightarrow> 's \<Rightarrow> store_error option \<times> 's"
  st_GetCheckoutClaim :: "'s \<Rightarrow> string \<Rightarrow> store_error + checkout_claim"
  st_GetCheckoutClaimByCode :: "'s \<Rightarrow> string \<Rightarrow> store_error + checkout_claim"
  st_MarkCheckoutClaimReady ::
    "string \<Rightarrow> string \<Rightarrow> string \<Rightarrow> string \<Rightarrow> string \<Rightarrow> 's \<Rightarrow> store_error option \<times> 's"
  st_SetCheckoutClaimCode :: "string \<Rightarrow> string \<Rightarrow> 's \<Rightarrow> store_error option \<times> 's"
  st_ConsumeCheckoutClaim :: "string \<Rightarrow> time \<Rightarrow> 's \<Rightarrow> (store_error + checkout_claim) \<times> 's"
  st_DeleteExpiredCheckoutClaims :: "time \<Rightarrow> 's \<Rightarrow> (store_error + nat) \<times> 's"
  st_InsertWebhookEventIfAbsent :: "webhook_event \<Rightarrow> 's \<Rightarrow> (store_error + bool) \<times> 's"
  st_SetWebhookStatus :: "string \<Rightarrow> status \<Rightarrow> int \<Rightarrow> time \<Rightarrow> 's \<Rightarrow> store_error option \<times> 's"
  st_ListWebhookEventsByStatus :: "'s \<Rightarrow> status \<Rightarrow> int \<Rightarrow> store_error + webhook_event list"
  st_HealthCheck :: "'s \<Rightarrow> store_error option"

subsection \<open>Operations as data\<close>

datatype store_op =
  UpsertAccount account
| UpsertSubscription subscription
| CreateLicense license
| SetLicenseStatus string status
| UpsertDevice device
| CreatePairing pairing
| CreatePairingWithinCapacity pairing int
| SetPairingStatus string status
| UpdatePairingDevices string string string
| PutRefreshToken refresh_token
| RevokeRefreshToken time string
| ConsumeRefreshToken string time
| RevokeRefreshTokensByDevice string time
| PutPairCredential pair_credential
| RevokePairCredential string time
| CreatePairingToken pairing_token
| ConsumePairingToken string string time
| CreateCheckoutClaim checkout_claim
| MarkCheckoutClaimReady string string string string string
| SetCheckoutClaimCode string string
| ConsumeCheckoutClaim string time
| DeleteExpiredCheckoutClaims time
| InsertWebhookEventIfAbsent webhook_event
| SetWebhookStatus string status int time

text \<open>
  What an operation answers: done, refused, the row it consumed, or (a webhook event already there)
  skipped.
\<close>

datatype op_result = Done | Skipped | Row checkout_claim | Refused store_error

fun answered :: "store_error option \<times> 's \<Rightarrow> op_result \<times> 's" where
  "answered (None, s) = (Done, s)"
| "answered (Some e, s) = (Refused e, s)"

fun exec :: "'s store_ops \<Rightarrow> store_op \<Rightarrow> 's \<Rightarrow> op_result \<times> 's" where
  "exec ops (UpsertAccount a) s = answered (st_UpsertAccount ops a s)"
| "exec ops (UpsertSubscription x) s = answered (st_UpsertSubscription ops x s)"
| "exec ops (CreateLicense l) s = answered (st_CreateLicense ops l s)"
| "exec ops (SetLicenseStatus k v) s = answered (st_SetLicenseStatus ops k v s)"
| "exec ops (UpsertDevice d) s = answered (st_UpsertDevice ops d s)"
| "exec ops (CreatePairing p) s = answered (st_CreatePairing ops p s)"
| "exec ops (CreatePairingWithinCapacity p n) s = answered (st_CreatePairingWithinCapacity ops p n s)"
| "exec ops (SetPairingStatus k v) s = answered (st_SetPairingStatus ops k v s)"
| "exec ops (UpdatePairingDevices k m d) s = answered (st_UpdatePairingDevices ops k m d s)"
| "exec ops (PutRefreshToken r) s = answered (st_PutRefreshToken ops r s)"
| "exec ops (RevokeRefreshToken t k) s = answered (st_RevokeRefreshToken ops t k s)"
| "exec ops (ConsumeRefreshToken k t) s = answered (st_ConsumeRefreshToken ops k t s)"
| "exec ops (RevokeRefreshTokensByDevice k t) s = answered (st_RevokeRefreshTokensByDevice ops k t s)"
| "exec ops (PutPairCredential c) s = answered (st_PutPairCredential ops c s)"
| "exec ops (RevokePairCredential k t) s = answered (st_RevokePairCredential ops k t s)"
| "exec ops (CreatePairingToken x) s = answered (st_CreatePairingToken ops x s)"
| "exec ops (ConsumePairingToken k p t) s = answered (st_ConsumePairingToken ops k p t s)"
| "exec ops (CreateCheckoutClaim c) s = answered (st_CreateCheckoutClaim ops c s)"
| "exec ops (MarkCheckoutClaimReady k a l u x) s = answered (st_MarkCheckoutClaimReady ops k a l u x s)"
| "exec ops (SetCheckoutClaimCode k h) s = answered (st_SetCheckoutClaimCode ops k h s)"
| "exec ops (ConsumeCheckoutClaim k t) s =
     (case st_ConsumeCheckoutClaim ops k t s of (Inl e, s') \<Rightarrow> (Refused e, s') | (Inr c, s') \<Rightarrow> (Row c, s'))"
| "exec ops (DeleteExpiredCheckoutClaims t) s =
     (case st_DeleteExpiredCheckoutClaims ops t s of (Inl e, s') \<Rightarrow> (Refused e, s') | (Inr n, s') \<Rightarrow> (Done, s'))"
| "exec ops (InsertWebhookEventIfAbsent e) s =
     (case st_InsertWebhookEventIfAbsent ops e s of
        (Inl e, s') \<Rightarrow> (Refused e, s') | (Inr True, s') \<Rightarrow> (Done, s') | (Inr False, s') \<Rightarrow> (Skipped, s'))"
| "exec ops (SetWebhookStatus k v n t) s = answered (st_SetWebhookStatus ops k v n t s)"

lemma answered_simps [simp]:
  "fst (answered r) = Done \<longleftrightarrow> fst r = None" "snd (answered r) = snd r"
  by (cases r rule: answered.cases; simp)+

definition run :: "'s store_ops \<Rightarrow> store_op list \<Rightarrow> 's \<Rightarrow> 's" where
  "run ops xs s = fold (\<lambda>x s. snd (exec ops x s)) xs s"

subsection \<open>The abstract database\<close>

record db =
  db_accounts :: "string \<rightharpoonup> account"
  db_customers :: "string \<rightharpoonup> string"
  db_subscriptions :: "string \<rightharpoonup> subscription"
  db_licenses :: "string \<rightharpoonup> license"
  db_devices :: "string \<rightharpoonup> device"
  db_pairings :: "string \<rightharpoonup> pairing"
  db_refreshTokens :: "string \<rightharpoonup> refresh_token"
  db_pairingTokens :: "string \<rightharpoonup> pairing_token"
  db_pairCredentials :: "string \<rightharpoonup> pair_credential"
  db_checkoutClaims :: "string \<rightharpoonup> checkout_claim"
  db_webhookEvents :: "string \<rightharpoonup> webhook_event"

definition active_pairs :: "db \<Rightarrow> string \<Rightarrow> string set" where
  "active_pairs d lic =
     {k. \<exists>p. db_pairings d k = Some p \<and> pr_LicenseID p = lic \<and> pr_Status p = PairingActive}"

definition account_devices :: "db \<Rightarrow> string \<Rightarrow> string set" where
  "account_devices d acct = {k. \<exists>x. db_devices d k = Some x \<and> dev_AccountID x = acct}"

definition merge_account :: "account option \<Rightarrow> account \<Rightarrow> account" where
  "merge_account old a =
     (case old of
        None \<Rightarrow> a
      | Some e \<Rightarrow>
          a\<lparr>acc_StripeCustomerID := (if acc_StripeCustomerID a = '''' then acc_StripeCustomerID e else acc_StripeCustomerID a),
            acc_SecretHash := (if acc_SecretHash a = '''' then acc_SecretHash e else acc_SecretHash a),
            acc_CreatedAt := (if IsZero (acc_CreatedAt a) then acc_CreatedAt e else acc_CreatedAt a)\<rparr>)"

definition merge_device :: "device option \<Rightarrow> device \<Rightarrow> device" where
  "merge_device old d =
     (case dev_PublicKey d of
        Some k \<Rightarrow> d
      | None \<Rightarrow> (case old of None \<Rightarrow> d | Some e \<Rightarrow> d\<lparr>dev_PublicKey := dev_PublicKey e\<rparr>))"

text \<open>
  \<open>on_row m k f\<close> changes the row \<open>k\<close> of a table by \<open>f\<close>, which may refuse; a missing row is refused with
  \<^verbatim>\<open>ErrNotFound\<close>. \<open>new_row m k v\<close> inserts and refuses an existing key with \<^verbatim>\<open>ErrConflict\<close>.
\<close>

definition on_row :: "(string \<rightharpoonup> 'v) \<Rightarrow> string \<Rightarrow> ('v \<Rightarrow> store_error + 'v) \<Rightarrow> store_error + (string \<rightharpoonup> 'v)" where
  "on_row m k f =
     (case m k of None \<Rightarrow> Inl ErrNotFound | Some v \<Rightarrow> (case f v of Inl e \<Rightarrow> Inl e | Inr v' \<Rightarrow> Inr (m(k \<mapsto> v'))))"

definition new_row :: "(string \<rightharpoonup> 'v) \<Rightarrow> string \<Rightarrow> 'v \<Rightarrow> store_error + (string \<rightharpoonup> 'v)" where
  "new_row m k v = (case m k of None \<Rightarrow> Inr (m(k \<mapsto> v)) | Some _ \<Rightarrow> Inl ErrConflict)"

definition result :: "(store_error + 'm) \<Rightarrow> ('m \<Rightarrow> db) \<Rightarrow> db \<Rightarrow> op_result \<times> db" where
  "result r upd d = (case r of Inl e \<Rightarrow> (Refused e, d) | Inr m \<Rightarrow> (Done, upd m))"

definition revoke_rt :: "time \<Rightarrow> refresh_token \<Rightarrow> refresh_token" where
  "revoke_rt t r = (if IsZero (rt_RevokedAt r) then r\<lparr>rt_RevokedAt := t\<rparr> else r)"

definition revoke_pc :: "time \<Rightarrow> pair_credential \<Rightarrow> pair_credential" where
  "revoke_pc t c = (if IsZero (pc_RevokedAt c) then c\<lparr>pc_RevokedAt := t\<rparr> else c)"

definition ready_claim :: "string \<Rightarrow> string \<Rightarrow> string \<Rightarrow> string \<Rightarrow> checkout_claim \<Rightarrow> checkout_claim" where
  "ready_claim a l u x c =
     (if cc_Status c \<noteq> ClaimPending then c
      else c\<lparr>cc_AccountID := a, cc_LicenseID := l, cc_SubscriptionID := u,
             cc_StripeSessionID := (if x \<noteq> '''' then x else cc_StripeSessionID c), cc_Status := ClaimReady\<rparr>)"

fun spec :: "store_op \<Rightarrow> db \<Rightarrow> op_result \<times> db" where
  "spec (UpsertAccount a) d =
     (let a' = merge_account (db_accounts d (acc_ID a)) a
      in (Done, d\<lparr>db_accounts := (db_accounts d)(acc_ID a \<mapsto> a'),
             db_customers := (if acc_StripeCustomerID a' = '''' then db_customers d
               else (db_customers d)(acc_StripeCustomerID a' \<mapsto> acc_ID a))\<rparr>))"
| "spec (UpsertSubscription x) d = (Done, d\<lparr>db_subscriptions := (db_subscriptions d)(sub_ID x \<mapsto> x)\<rparr>)"
| "spec (CreateLicense l) d =
     result (new_row (db_licenses d) (lic_ID l) l) (\<lambda>m. d\<lparr>db_licenses := m\<rparr>) d"
| "spec (SetLicenseStatus k v) d =
     result (on_row (db_licenses d) k (\<lambda>l. Inr (l\<lparr>lic_Status := v\<rparr>))) (\<lambda>m. d\<lparr>db_licenses := m\<rparr>) d"
| "spec (UpsertDevice x) d =
     (Done, d\<lparr>db_devices := (db_devices d)(dev_ID x \<mapsto> merge_device (db_devices d (dev_ID x)) x)\<rparr>)"
| "spec (CreatePairing p) d =
     result (new_row (db_pairings d) (pr_PairID p) p) (\<lambda>m. d\<lparr>db_pairings := m\<rparr>) d"
| "spec (CreatePairingWithinCapacity p n) d =
     result (case new_row (db_pairings d) (pr_PairID p) p of
               Inl e \<Rightarrow> Inl e
             | Inr m \<Rightarrow> (if n \<le> int (card (active_pairs d (pr_LicenseID p))) then Inl ErrCapacityExceeded else Inr m))
       (\<lambda>m. d\<lparr>db_pairings := m\<rparr>) d"
| "spec (SetPairingStatus k v) d =
     result (on_row (db_pairings d) k (\<lambda>p. Inr (p\<lparr>pr_Status := v\<rparr>))) (\<lambda>m. d\<lparr>db_pairings := m\<rparr>) d"
| "spec (UpdatePairingDevices k x y) d =
     result (on_row (db_pairings d) k (\<lambda>p. Inr (p\<lparr>pr_MobileDeviceID := x, pr_DesktopDeviceID := y\<rparr>)))
       (\<lambda>m. d\<lparr>db_pairings := m\<rparr>) d"
| "spec (PutRefreshToken r) d = (Done, d\<lparr>db_refreshTokens := (db_refreshTokens d)(rt_ID r \<mapsto> r)\<rparr>)"
| "spec (RevokeRefreshToken t k) d =
     result (on_row (db_refreshTokens d) k (\<lambda>r. Inr (revoke_rt t r))) (\<lambda>m. d\<lparr>db_refreshTokens := m\<rparr>) d"
| "spec (ConsumeRefreshToken k t) d =
     result (on_row (db_refreshTokens d) k
         (\<lambda>r. if IsZero (rt_RevokedAt r) then Inr (r\<lparr>rt_RevokedAt := t\<rparr>) else Inl ErrConflict))
       (\<lambda>m. d\<lparr>db_refreshTokens := m\<rparr>) d"
| "spec (RevokeRefreshTokensByDevice k t) d =
     (Done, d\<lparr>db_refreshTokens := (\<lambda>x. map_option (\<lambda>r. if rt_DeviceID r = k then revoke_rt t r else r)
        (db_refreshTokens d x))\<rparr>)"
| "spec (PutPairCredential c) d = (Done, d\<lparr>db_pairCredentials := (db_pairCredentials d)(pc_PairID c \<mapsto> c)\<rparr>)"
| "spec (RevokePairCredential k t) d =
     (Done, d\<lparr>db_pairCredentials := (db_pairCredentials d)(k := map_option (revoke_pc t) (db_pairCredentials d k))\<rparr>)"
| "spec (CreatePairingToken x) d =
     result (new_row (db_pairingTokens d) (pt_ID x) x) (\<lambda>m. d\<lparr>db_pairingTokens := m\<rparr>) d"
| "spec (ConsumePairingToken k p t) d =
     result (on_row (db_pairingTokens d) k
         (\<lambda>x. if IsZero (pt_ConsumedAt x) then Inr (x\<lparr>pt_ConsumedAt := t, pt_ResultPairID := p\<rparr>) else Inl ErrConflict))
       (\<lambda>m. d\<lparr>db_pairingTokens := m\<rparr>) d"
| "spec (CreateCheckoutClaim c) d =
     result (new_row (db_checkoutClaims d) (cc_Nonce c) c) (\<lambda>m. d\<lparr>db_checkoutClaims := m\<rparr>) d"
| "spec (MarkCheckoutClaimReady k a l u x) d =
     (Done, d\<lparr>db_checkoutClaims := (db_checkoutClaims d)(k := map_option (ready_claim a l u x) (db_checkoutClaims d k))\<rparr>)"
| "spec (SetCheckoutClaimCode k h) d =
     result (on_row (db_checkoutClaims d) k
         (\<lambda>c. if cc_Status c \<noteq> ClaimReady then Inl ErrNotFound else Inr (c\<lparr>cc_ClaimCodeHash := h\<rparr>)))
       (\<lambda>m. d\<lparr>db_checkoutClaims := m\<rparr>) d"
| "spec (ConsumeCheckoutClaim k t) d =
     (case db_checkoutClaims d k of
        None \<Rightarrow> (Refused ErrNotFound, d)
      | Some c \<Rightarrow>
          (if cc_Status c = ClaimConsumed then (Refused ErrConflict, d)
           else if cc_Status c \<noteq> ClaimReady then (Refused ErrNotFound, d)
           else let c' = c\<lparr>cc_Status := ClaimConsumed, cc_ConsumedAt := t\<rparr>
                in (Row c', d\<lparr>db_checkoutClaims := (db_checkoutClaims d)(k \<mapsto> c')\<rparr>)))"
| "spec (DeleteExpiredCheckoutClaims t) d =
     (Done, d\<lparr>db_checkoutClaims := (\<lambda>k. case db_checkoutClaims d k of
        None \<Rightarrow> None | Some c \<Rightarrow> if cc_ExpiresAt c < t then None else Some c)\<rparr>)"
| "spec (InsertWebhookEventIfAbsent e) d =
     (case db_webhookEvents d (we_ID e) of
        None \<Rightarrow> (Done, d\<lparr>db_webhookEvents := (db_webhookEvents d)(we_ID e \<mapsto> e)\<rparr>)
      | Some _ \<Rightarrow> (Skipped, d))"
| "spec (SetWebhookStatus k v n t) d =
     result (on_row (db_webhookEvents d) k (\<lambda>e. Inr (e\<lparr>we_Status := v, we_Attempts := n, we_ProcessedAt := t\<rparr>)))
       (\<lambda>m. d\<lparr>db_webhookEvents := m\<rparr>) d"

lemmas row_defs = on_row_def new_row_def result_def

definition db_ok :: "db \<Rightarrow> bool" where
  "db_ok d \<longleftrightarrow>
     (\<forall>k a. db_accounts d k = Some a \<longrightarrow> acc_ID a = k) \<and>
     (\<forall>c k. db_customers d c = Some k \<longrightarrow> db_accounts d k \<noteq> None) \<and>
     (\<forall>k x. db_subscriptions d k = Some x \<longrightarrow> sub_ID x = k) \<and>
     (\<forall>k l. db_licenses d k = Some l \<longrightarrow> lic_ID l = k) \<and>
     (\<forall>k x. db_devices d k = Some x \<longrightarrow> dev_ID x = k) \<and>
     (\<forall>k p. db_pairings d k = Some p \<longrightarrow> pr_PairID p = k) \<and>
     (\<forall>k r. db_refreshTokens d k = Some r \<longrightarrow> rt_ID r = k) \<and>
     (\<forall>k t. db_pairingTokens d k = Some t \<longrightarrow> pt_ID t = k) \<and>
     (\<forall>k c. db_pairCredentials d k = Some c \<longrightarrow> pc_PairID c = k) \<and>
     (\<forall>k c. db_checkoutClaims d k = Some c \<longrightarrow> cc_Nonce c = k) \<and>
     (\<forall>k e. db_webhookEvents d k = Some e \<longrightarrow> we_ID e = k) \<and>
     finite (dom (db_pairings d)) \<and> finite (dom (db_devices d))"

lemma merge_account_ID [simp]: "acc_ID (merge_account old a) = acc_ID a"
  by (simp add: merge_account_def split: option.splits)

lemma merge_device_simps [simp]:
  "dev_ID (merge_device old d) = dev_ID d" "dev_AccountID (merge_device old d) = dev_AccountID d"
  "dev_Role (merge_device old d) = dev_Role d"
  by (simp_all add: merge_device_def split: option.splits)

lemma revoke_rt_simps [simp]:
  "rt_ID (revoke_rt t r) = rt_ID r" "rt_DeviceID (revoke_rt t r) = rt_DeviceID r"
  "rt_PairID (revoke_rt t r) = rt_PairID r" "rt_AccountID (revoke_rt t r) = rt_AccountID r"
  "rt_ExpiresAt (revoke_rt t r) = rt_ExpiresAt r"
  by (simp_all add: revoke_rt_def)

lemma revoke_pc_simps [simp]: "pc_PairID (revoke_pc t c) = pc_PairID c"
  by (simp add: revoke_pc_def)

lemma ready_claim_simps [simp]:
  "cc_Nonce (ready_claim a l u x c) = cc_Nonce c" "cc_ExpiresAt (ready_claim a l u x c) = cc_ExpiresAt c"
  "cc_Status c = ClaimConsumed \<Longrightarrow> cc_Status (ready_claim a l u x c) = ClaimConsumed"
  by (simp_all add: ready_claim_def)

lemma spec_ok: "db_ok d \<Longrightarrow> db_ok (snd (spec x d))"
  by (cases x) (auto simp: db_ok_def row_defs Let_def split: option.splits if_splits)

lemma finite_active_pairs: "db_ok d \<Longrightarrow> finite (active_pairs d lic)"
  by (rule finite_subset [of _ "dom (db_pairings d)"]) (auto simp: active_pairs_def db_ok_def)

lemma finite_account_devices: "db_ok d \<Longrightarrow> finite (account_devices d acct)"
  by (rule finite_subset [of _ "dom (db_devices d)"]) (auto simp: account_devices_def db_ok_def)

subsection \<open>What no interleaving of operations undoes\<close>

text \<open>
  A spent refresh token, a spent pairing token, a consumed checkout claim, a revoked pairing and a
  recorded webhook event stay so under every operation but the ones named.
\<close>

definition spent_refresh :: "string \<Rightarrow> db \<Rightarrow> bool" where
  "spent_refresh k d \<longleftrightarrow> (\<exists>r. db_refreshTokens d k = Some r \<and> \<not> IsZero (rt_RevokedAt r))"

definition spent_pairing_token :: "string \<Rightarrow> db \<Rightarrow> bool" where
  "spent_pairing_token k d \<longleftrightarrow> (\<exists>t. db_pairingTokens d k = Some t \<and> \<not> IsZero (pt_ConsumedAt t))"

definition consumed_claim :: "string \<Rightarrow> db \<Rightarrow> bool" where
  "consumed_claim k d \<longleftrightarrow> (\<exists>c. db_checkoutClaims d k = Some c \<and> cc_Status c = ClaimConsumed)"

definition revoked_pairing :: "string \<Rightarrow> db \<Rightarrow> bool" where
  "revoked_pairing k d \<longleftrightarrow> (\<exists>p. db_pairings d k = Some p \<and> pr_Status p \<noteq> PairingActive)"

definition recorded_event :: "string \<Rightarrow> db \<Rightarrow> bool" where
  "recorded_event k d \<longleftrightarrow> db_webhookEvents d k \<noteq> None"

fun reissues :: "string \<Rightarrow> store_op \<Rightarrow> bool" where
  "reissues k (PutRefreshToken r) = (rt_ID r = k)"
| "reissues k _ = False"

fun collects_claims :: "store_op \<Rightarrow> bool" where
  "collects_claims (DeleteExpiredCheckoutClaims t) = True"
| "collects_claims _ = False"

fun activates :: "string \<Rightarrow> store_op \<Rightarrow> bool" where
  "activates k (SetPairingStatus k' v) = (k' = k \<and> v = PairingActive)"
| "activates k _ = False"

definition dead_credential :: "string \<Rightarrow> db \<Rightarrow> bool" where
  "dead_credential k d \<longleftrightarrow> (\<forall>c. db_pairCredentials d k = Some c \<longrightarrow> \<not> IsZero (pc_RevokedAt c))"

fun recredits :: "string \<Rightarrow> store_op \<Rightarrow> bool" where
  "recredits k (PutPairCredential c) = (pc_PairID c = k)"
| "recredits k _ = False"

lemma dead_credential_stays: "\<not> recredits k x \<Longrightarrow> dead_credential k d \<Longrightarrow> dead_credential k (snd (spec x d))"
  by (cases x) (auto simp: dead_credential_def row_defs revoke_pc_def Let_def split: option.splits if_splits)

lemma spent_refresh_stays: "\<not> reissues k x \<Longrightarrow> spent_refresh k d \<Longrightarrow> spent_refresh k (snd (spec x d))"
  by (cases x) (auto simp: spent_refresh_def row_defs revoke_rt_def Let_def split: option.splits if_splits)

lemma spent_pairing_token_stays: "spent_pairing_token k d \<Longrightarrow> spent_pairing_token k (snd (spec x d))"
  by (cases x) (auto simp: spent_pairing_token_def row_defs Let_def split: option.splits if_splits)

lemma consumed_claim_stays: "\<not> collects_claims x \<Longrightarrow> consumed_claim k d \<Longrightarrow> consumed_claim k (snd (spec x d))"
  by (cases x) (auto simp: consumed_claim_def row_defs Let_def split: option.splits if_splits)

lemma revoked_pairing_stays: "\<not> activates k x \<Longrightarrow> revoked_pairing k d \<Longrightarrow> revoked_pairing k (snd (spec x d))"
  by (cases x) (auto simp: revoked_pairing_def row_defs Let_def split: option.splits if_splits)

lemma recorded_event_stays: "recorded_event k d \<Longrightarrow> recorded_event k (snd (spec x d))"
  by (cases x) (auto simp: recorded_event_def row_defs Let_def split: option.splits if_splits)

subsection \<open>Capacity\<close>

text \<open>
  The operations that respect a licence's capacity \<open>n\<close>: a pairing of the licence is created only through
  the atomic count and insert with at most that capacity, and no pairing is set active again.
\<close>

fun within :: "string \<Rightarrow> int \<Rightarrow> store_op \<Rightarrow> bool" where
  "within lic n (CreatePairing p) = (pr_LicenseID p \<noteq> lic \<or> pr_Status p \<noteq> PairingActive)"
| "within lic n (CreatePairingWithinCapacity p m) = (pr_LicenseID p = lic \<longrightarrow> m \<le> n)"
| "within lic n (SetPairingStatus k v) = (v \<noteq> PairingActive)"
| "within lic n _ = True"

lemma active_pairs_frame: "db_pairings d' = db_pairings d \<Longrightarrow> active_pairs d' lic = active_pairs d lic"
  by (simp add: active_pairs_def)

lemma active_pairs_insert:
  "active_pairs (d\<lparr>db_pairings := (db_pairings d)(k \<mapsto> p)\<rparr>) lic \<subseteq>
     (if pr_LicenseID p = lic \<and> pr_Status p = PairingActive then insert k (active_pairs d lic) else active_pairs d lic)"
  by (auto simp: active_pairs_def split: if_splits)

lemma active_pairs_update:
  "(\<And>p. db_pairings d k = Some p \<Longrightarrow> pr_LicenseID q = pr_LicenseID p \<and>
      (pr_Status q = PairingActive \<longrightarrow> pr_Status p = PairingActive)) \<Longrightarrow> db_pairings d k \<noteq> None \<Longrightarrow>
     active_pairs (d\<lparr>db_pairings := (db_pairings d)(k \<mapsto> q)\<rparr>) lic \<subseteq> active_pairs d lic"
  by (auto simp: active_pairs_def split: if_splits)

lemma capacity_stays:
  assumes "db_ok d" and "within lic n x" and "int (card (active_pairs d lic)) \<le> n"
  shows "int (card (active_pairs (snd (spec x d)) lic)) \<le> n"
proof -
  have fin: "finite (active_pairs d lic)" using assms(1) by (rule finite_active_pairs)
  have mono: ?thesis if "active_pairs (snd (spec x d)) lic \<subseteq> active_pairs d lic"
    using card_mono [OF fin that] assms(3) by simp
  show ?thesis
  proof (cases x)
    case (CreatePairingWithinCapacity p m)
    show ?thesis
    proof (cases "fst (spec x d) = Done \<and> pr_LicenseID p = lic")
      case True
      then have "active_pairs (snd (spec x d)) lic \<subseteq> insert (pr_PairID p) (active_pairs d lic)"
        using active_pairs_insert [of d "pr_PairID p" p lic] CreatePairingWithinCapacity
        by (auto simp: row_defs split: option.splits if_splits)
      then have "card (active_pairs (snd (spec x d)) lic) \<le> card (insert (pr_PairID p) (active_pairs d lic))"
        using fin by (intro card_mono) simp_all
      then have "card (active_pairs (snd (spec x d)) lic) \<le> Suc (card (active_pairs d lic))"
        using card_insert_if [OF fin, of "pr_PairID p"] by (simp split: if_splits)
      moreover have "int (card (active_pairs d lic)) < m" "m \<le> n"
        using True CreatePairingWithinCapacity assms(2) by (auto simp: row_defs split: option.splits if_splits)
      ultimately show ?thesis by linarith
    next
      case False
      then show ?thesis using CreatePairingWithinCapacity
        by (intro mono) (auto simp: row_defs active_pairs_def split: option.splits if_splits)
    qed
  qed (use assms(2) in \<open>(intro mono; auto simp: row_defs active_pairs_def Let_def split: option.splits if_splits)+\<close>)
qed

subsection \<open>The contract\<close>

definition answer :: "(store_error + 'v) \<Rightarrow> 'v option \<Rightarrow> bool" where
  "answer r m \<longleftrightarrow> (case r of Inr v \<Rightarrow> m = Some v | Inl e \<Rightarrow> e = ErrNotFound \<longrightarrow> m = None)"

definition listing :: "(store_error + 'v list) \<Rightarrow> (string \<rightharpoonup> 'v) \<Rightarrow> ('v \<Rightarrow> string) \<Rightarrow> ('v \<Rightarrow> bool) \<Rightarrow> bool" where
  "listing r m key P \<longleftrightarrow>
     (case r of Inl e \<Rightarrow> True
      | Inr vs \<Rightarrow> set vs = {v \<in> ran m. P v} \<and> sorted (map key vs) \<and> distinct vs)"

lemma answer_Inr [simp]: "answer (Inr v) m \<longleftrightarrow> m = Some v"
  by (simp add: answer_def)

locale auth_store =
  fixes ops :: "'s store_ops" and inv :: "'s \<Rightarrow> bool" and view :: "'s \<Rightarrow> db"
  assumes view_ok: "inv s \<Longrightarrow> db_ok (view s)"
    and exec_spec: "inv s \<Longrightarrow> exec ops x s = (r, s') \<Longrightarrow>
      inv s' \<and> ((r, view s') = spec x (view s) \<or> r = Refused ErrStore \<and> view s' = view s)"
    and get_account: "inv s \<Longrightarrow> answer (st_GetAccount ops s k) (db_accounts (view s) k)"
    and get_customer: "inv s \<Longrightarrow> answer (st_GetAccountByCustomer ops s k)
      (Option.bind (db_customers (view s) k) (db_accounts (view s)))"
    and get_subscription: "inv s \<Longrightarrow> answer (st_GetSubscription ops s k) (db_subscriptions (view s) k)"
    and list_subscriptions: "inv s \<Longrightarrow>
      listing (st_ListSubscriptions ops s) (db_subscriptions (view s)) sub_ID (\<lambda>_. True)"
    and get_license: "inv s \<Longrightarrow> answer (st_GetLicense ops s k) (db_licenses (view s) k)"
    and list_licenses_account: "inv s \<Longrightarrow>
      listing (st_ListLicensesByAccount ops s k) (db_licenses (view s)) lic_ID (\<lambda>l. lic_AccountID l = k)"
    and list_licenses_subscription: "inv s \<Longrightarrow>
      listing (st_ListLicensesBySubscription ops s k) (db_licenses (view s)) lic_ID (\<lambda>l. lic_SubscriptionID l = k)"
    and get_device: "inv s \<Longrightarrow> answer (st_GetDevice ops s k) (db_devices (view s) k)"
    and count_devices: "inv s \<Longrightarrow> st_CountDevicesByAccount ops s k = Inr n \<Longrightarrow>
      n = card (account_devices (view s) k)"
    and find_device: "inv s \<Longrightarrow> st_FindDeviceByAccountRoleKey ops s k rl key = Inr v \<Longrightarrow>
      db_devices (view s) (dev_ID v) = Some v \<and> dev_AccountID v = k \<and> dev_Role v = rl \<and>
      dev_PublicKey v = Some key \<and> key \<noteq> []"
    and find_device_none: "inv s \<Longrightarrow> st_FindDeviceByAccountRoleKey ops s k rl key = Inl ErrNotFound \<Longrightarrow>
      key \<noteq> [] \<Longrightarrow> v \<in> ran (db_devices (view s)) \<Longrightarrow>
      \<not> (dev_AccountID v = k \<and> dev_Role v = rl \<and> dev_PublicKey v = Some key)"
    and get_pairing: "inv s \<Longrightarrow> answer (st_GetPairing ops s k) (db_pairings (view s) k)"
    and list_pairings_license: "inv s \<Longrightarrow>
      listing (st_ListActivePairingsByLicense ops s k) (db_pairings (view s)) pr_PairID
        (\<lambda>p. pr_LicenseID p = k \<and> pr_Status p = PairingActive)"
    and list_pairings_account: "inv s \<Longrightarrow>
      listing (st_ListActivePairingsByAccount ops s k) (db_pairings (view s)) pr_PairID
        (\<lambda>p. pr_AccountID p = k \<and> pr_Status p = PairingActive)"
    and active_count: "inv s \<Longrightarrow> st_ActivePairCount ops s k = Inr n \<Longrightarrow> n = card (active_pairs (view s) k)"
    and get_refresh: "inv s \<Longrightarrow> answer (st_GetRefreshToken ops s k) (db_refreshTokens (view s) k)"
    and get_credential: "inv s \<Longrightarrow> answer (st_GetPairCredential ops s k) (db_pairCredentials (view s) k)"
    and get_pairing_token: "inv s \<Longrightarrow> answer (st_GetPairingToken ops s k) (db_pairingTokens (view s) k)"
    and get_claim: "inv s \<Longrightarrow> answer (st_GetCheckoutClaim ops s k) (db_checkoutClaims (view s) k)"
    and get_claim_code: "inv s \<Longrightarrow> st_GetCheckoutClaimByCode ops s h = Inr c \<Longrightarrow>
      h \<noteq> '''' \<and> cc_ClaimCodeHash c = h \<and> db_checkoutClaims (view s) (cc_Nonce c) = Some c"
    and list_events: "inv s \<Longrightarrow> st_ListWebhookEventsByStatus ops s k lim = Inr es \<Longrightarrow>
      set es \<subseteq> {e \<in> ran (db_webhookEvents (view s)). we_Status e = k} \<and> sorted (map we_ReceivedAt es) \<and>
      (0 < lim \<longrightarrow> int (length es) \<le> lim)"
begin

lemma exec_inv: "inv s \<Longrightarrow> inv (snd (exec ops x s))"
  using exec_spec [of s x "fst (exec ops x s)" "snd (exec ops x s)"] by simp

lemma exec_view: "inv s \<Longrightarrow> view (snd (exec ops x s)) = snd (spec x (view s)) \<or> view (snd (exec ops x s)) = view s"
  using exec_spec [of s x "fst (exec ops x s)" "snd (exec ops x s)"] by (metis prod.collapse snd_conv)

lemma run_Cons: "run ops (x # xs) s = run ops xs (snd (exec ops x s))"
  by (simp add: run_def)

lemma run_keeps:
  assumes "inv s" and "J (view s)"
    and "\<And>x d. x \<in> set xs \<Longrightarrow> db_ok d \<Longrightarrow> J d \<Longrightarrow> J (snd (spec x d))"
  shows "inv (run ops xs s) \<and> J (view (run ops xs s))"
  using assms
proof (induction xs arbitrary: s)
  case (Cons x xs)
  have "J (view (snd (exec ops x s)))"
    using exec_view [OF Cons.prems(1), of x] Cons.prems view_ok by fastforce
  then show ?case using Cons exec_inv unfolding run_Cons by simp
qed (simp add: run_def)

lemma run_inv: "inv s \<Longrightarrow> inv (run ops xs s)"
  using run_keeps [of s "\<lambda>_. True"] by simp

end

lemma spec_refused: "spec x d = (Refused e, d') \<Longrightarrow> d' = d"
  by (cases x) (auto simp: row_defs Let_def split: option.splits if_splits sum.splits)

context auth_store
begin

lemma write_None:
  assumes "inv s" and "exec ops x s = (Done, s')"
  shows "inv s' \<and> fst (spec x (view s)) = Done \<and> view s' = snd (spec x (view s))"
  using exec_spec [OF assms] by (metis fst_conv op_result.distinct(5) snd_conv)

lemma write_Some:
  assumes "inv s" and "exec ops x s = (Refused e, s')"
  shows "inv s' \<and> view s' = view s"
  using exec_spec [OF assms] spec_refused by metis

lemma exec_answer:
  assumes "inv s" and "fst (exec ops x s) = r" and "r \<noteq> Refused ErrStore"
  shows "fst (spec x (view s)) = r"
  using exec_spec [OF assms(1), of x "fst (exec ops x s)" "snd (exec ops x s)"] assms(2,3) by (metis fst_conv prod.collapse)

lemma refresh_once:
  assumes "inv s" and "exec ops (ConsumeRefreshToken k t) s = (Done, s1)" and "\<not> IsZero t"
    and "\<And>x. x \<in> set xs \<Longrightarrow> \<not> reissues k x"
  shows "fst (exec ops (ConsumeRefreshToken k t') (run ops xs s1)) \<noteq> Done"
proof -
  have s1: "inv s1" "spent_refresh k (view s1)" using write_None [OF assms(1,2)] assms(3)
    by (auto simp: spent_refresh_def row_defs split: option.splits if_splits)
  then have "inv (run ops xs s1)" "spent_refresh k (view (run ops xs s1))"
    using run_keeps [of s1 "spent_refresh k" xs] spent_refresh_stays assms(4) by auto
  then show ?thesis using exec_answer [of "run ops xs s1" "ConsumeRefreshToken k t'" Done]
    by (auto simp: spent_refresh_def row_defs simp del: exec.simps split: if_splits)
qed

lemma pairing_token_once:
  assumes "inv s" and "exec ops (ConsumePairingToken k p t) s = (Done, s1)" and "\<not> IsZero t"
  shows "fst (exec ops (ConsumePairingToken k p' t') (run ops xs s1)) \<noteq> Done"
proof -
  have s1: "inv s1" "spent_pairing_token k (view s1)" using write_None [OF assms(1,2)] assms(3)
    by (auto simp: spent_pairing_token_def row_defs split: option.splits if_splits)
  then have "inv (run ops xs s1)" "spent_pairing_token k (view (run ops xs s1))"
    using run_keeps [of s1 "spent_pairing_token k" xs] spent_pairing_token_stays by auto
  then show ?thesis using exec_answer [of "run ops xs s1" "ConsumePairingToken k p' t'" Done]
    by (auto simp: spent_pairing_token_def row_defs simp del: exec.simps split: if_splits)
qed

lemma claim_once:
  assumes "inv s" and "exec ops (ConsumeCheckoutClaim k t) s = (Row c, s1)"
    and "\<And>x. x \<in> set xs \<Longrightarrow> \<not> collects_claims x"
  shows "fst (exec ops (ConsumeCheckoutClaim k t') (run ops xs s1)) \<in> {Refused ErrConflict, Refused ErrStore}"
proof -
  have s1: "inv s1" "consumed_claim k (view s1)" using exec_spec [OF assms(1,2)]
    by (auto simp: consumed_claim_def Let_def split: option.splits if_splits)
  then have i: "inv (run ops xs s1)" "consumed_claim k (view (run ops xs s1))"
    using run_keeps [of s1 "consumed_claim k" xs] consumed_claim_stays assms(3) by auto
  then show ?thesis
    using exec_answer [of "run ops xs s1" "ConsumeCheckoutClaim k t'" "fst (exec ops (ConsumeCheckoutClaim k t') (run ops xs s1))"]
    by (auto simp: consumed_claim_def simp del: exec.simps split: if_splits)
qed

lemma event_once:
  assumes "inv s" and "exec ops (InsertWebhookEventIfAbsent e) s = (Done, s1)" and "we_ID e' = we_ID e"
  shows "fst (exec ops (InsertWebhookEventIfAbsent e') (run ops xs s1)) \<noteq> Done"
proof -
  have s1: "inv s1" "recorded_event (we_ID e) (view s1)" using write_None [OF assms(1,2)]
    by (auto simp: recorded_event_def split: option.splits)
  then have "inv (run ops xs s1)" "recorded_event (we_ID e) (view (run ops xs s1))"
    using run_keeps [of s1 "recorded_event (we_ID e)" xs] recorded_event_stays by auto
  then show ?thesis using exec_answer [of "run ops xs s1" "InsertWebhookEventIfAbsent e'" Done] assms(3)
    by (auto simp: recorded_event_def simp del: exec.simps)
qed

lemma capacity_run:
  assumes "inv s" and "\<And>x. x \<in> set xs \<Longrightarrow> within lic n x" and "int (card (active_pairs (view s) lic)) \<le> n"
  shows "int (card (active_pairs (view (run ops xs s)) lic)) \<le> n"
  using run_keeps [of s "\<lambda>d. int (card (active_pairs d lic)) \<le> n" xs] assms capacity_stays by blast

lemma revoked_run:
  assumes "inv s" and "\<And>x. x \<in> set xs \<Longrightarrow> \<not> activates k x" and "revoked_pairing k (view s)"
  shows "inv (run ops xs s) \<and> revoked_pairing k (view (run ops xs s))"
  using run_keeps [of s "revoked_pairing k" xs] assms revoked_pairing_stays by blast

end

end
