(* ===== verification/Memory_Store.thy ===== *)
theory Memory_Store
  imports AuthStore
begin

section \<open>The in-memory store\<close>

text \<open>
  Models \<^verbatim>\<open>internal/authstore/memory/memory.go\<close>, one definition per method. Every method runs under the
  store's lock, so it is one step; the copies it makes of byte slices are what value semantics gives.
  The theory ends with the interpretation of the contract and what it shows of the store.
\<close>

record mem_store =
  m_accounts :: "(string, account) gomap"
  m_customerToAcct :: "(string, string) gomap"
  m_subscriptions :: "(string, subscription) gomap"
  m_licenses :: "(string, license) gomap"
  m_devices :: "(string, device) gomap"
  m_pairings :: "(string, pairing) gomap"
  m_refreshTokens :: "(string, refresh_token) gomap"
  m_pairingTokens :: "(string, pairing_token) gomap"
  m_pairCredentials :: "(string, pair_credential) gomap"
  m_checkoutClaims :: "(string, checkout_claim) gomap"
  m_webhookEvents :: "(string, webhook_event) gomap"

definition ms_New :: mem_store where
  "ms_New =
     \<lparr>m_accounts = [], m_customerToAcct = [], m_subscriptions = [], m_licenses = [], m_devices = [],
      m_pairings = [], m_refreshTokens = [], m_pairingTokens = [], m_pairCredentials = [],
      m_checkoutClaims = [], m_webhookEvents = []\<rparr>"

text \<open>A two-valued map read with \<^verbatim>\<open>ErrNotFound\<close> for a missing key, as every getter does it.\<close>

definition found :: "'v option \<Rightarrow> store_error + 'v" where
  "found r = (case r of None \<Rightarrow> Inl ErrNotFound | Some v \<Rightarrow> Inr v)"

subsection \<open>Accounts\<close>

definition ms_UpsertAccount :: "account \<Rightarrow> mem_store \<Rightarrow> store_error option \<times> mem_store" where
  "ms_UpsertAccount a s =
     (let a = (case map_of (m_accounts s) (acc_ID a) of
                 None \<Rightarrow> a
               | Some existing \<Rightarrow>
                   (let a = (if acc_StripeCustomerID a = '''' then a\<lparr>acc_StripeCustomerID := acc_StripeCustomerID existing\<rparr> else a);
                        a = (if acc_SecretHash a = '''' then a\<lparr>acc_SecretHash := acc_SecretHash existing\<rparr> else a);
                        a = (if IsZero (acc_CreatedAt a) then a\<lparr>acc_CreatedAt := acc_CreatedAt existing\<rparr> else a)
                    in a));
          s = s\<lparr>m_accounts := AList.update (acc_ID a) a (m_accounts s)\<rparr>;
          s = (if acc_StripeCustomerID a \<noteq> ''''
               then s\<lparr>m_customerToAcct := AList.update (acc_StripeCustomerID a) (acc_ID a) (m_customerToAcct s)\<rparr>
               else s)
      in (None, s))"

definition ms_GetAccount :: "mem_store \<Rightarrow> string \<Rightarrow> store_error + account" where
  "ms_GetAccount s k = found (map_of (m_accounts s) k)"

text \<open>A missing account behind a known customer is the zero value of the map read.\<close>

definition zero_account :: account where
  "zero_account = \<lparr>acc_ID = '''', acc_StripeCustomerID = '''', acc_SecretHash = '''', acc_CreatedAt = 0\<rparr>"

definition ms_GetAccountByCustomer :: "mem_store \<Rightarrow> string \<Rightarrow> store_error + account" where
  "ms_GetAccountByCustomer s customerID =
     (case map_of (m_customerToAcct s) customerID of
        None \<Rightarrow> Inl ErrNotFound
      | Some k \<Rightarrow> Inr (case map_of (m_accounts s) k of None \<Rightarrow> zero_account | Some a \<Rightarrow> a))"

subsection \<open>Subscriptions and licences\<close>

definition ms_UpsertSubscription :: "subscription \<Rightarrow> mem_store \<Rightarrow> store_error option \<times> mem_store" where
  "ms_UpsertSubscription x s = (None, s\<lparr>m_subscriptions := AList.update (sub_ID x) x (m_subscriptions s)\<rparr>)"

definition ms_GetSubscription :: "mem_store \<Rightarrow> string \<Rightarrow> store_error + subscription" where
  "ms_GetSubscription s k = found (map_of (m_subscriptions s) k)"

definition ms_ListSubscriptions :: "mem_store \<Rightarrow> store_error + subscription list" where
  "ms_ListSubscriptions s = Inr (sort_key sub_ID (mvals (m_subscriptions s)))"

definition ms_CreateLicense :: "license \<Rightarrow> mem_store \<Rightarrow> store_error option \<times> mem_store" where
  "ms_CreateLicense l s =
     (case map_of (m_licenses s) (lic_ID l) of
        Some _ \<Rightarrow> (Some ErrConflict, s)
      | None \<Rightarrow> (None, s\<lparr>m_licenses := AList.update (lic_ID l) l (m_licenses s)\<rparr>))"

definition ms_GetLicense :: "mem_store \<Rightarrow> string \<Rightarrow> store_error + license" where
  "ms_GetLicense s k = found (map_of (m_licenses s) k)"

definition listLicenses :: "(license \<Rightarrow> bool) \<Rightarrow> mem_store \<Rightarrow> license list" where
  "listLicenses pred s = sort_key lic_ID (filter pred (mvals (m_licenses s)))"

definition ms_ListLicensesByAccount :: "mem_store \<Rightarrow> string \<Rightarrow> store_error + license list" where
  "ms_ListLicensesByAccount s accountID = Inr (listLicenses (\<lambda>l. lic_AccountID l = accountID) s)"

definition ms_ListLicensesBySubscription :: "mem_store \<Rightarrow> string \<Rightarrow> store_error + license list" where
  "ms_ListLicensesBySubscription s subID = Inr (listLicenses (\<lambda>l. lic_SubscriptionID l = subID) s)"

definition ms_SetLicenseStatus :: "string \<Rightarrow> status \<Rightarrow> mem_store \<Rightarrow> store_error option \<times> mem_store" where
  "ms_SetLicenseStatus k v s =
     (case map_of (m_licenses s) k of
        None \<Rightarrow> (Some ErrNotFound, s)
      | Some l \<Rightarrow> (None, s\<lparr>m_licenses := AList.update k (l\<lparr>lic_Status := v\<rparr>) (m_licenses s)\<rparr>))"

subsection \<open>Devices\<close>

definition ms_UpsertDevice :: "device \<Rightarrow> mem_store \<Rightarrow> store_error option \<times> mem_store" where
  "ms_UpsertDevice d s =
     (let d = (if dev_PublicKey d = None
               then (case map_of (m_devices s) (dev_ID d) of
                       Some existing \<Rightarrow> d\<lparr>dev_PublicKey := dev_PublicKey existing\<rparr> | None \<Rightarrow> d)
               else d)
      in (None, s\<lparr>m_devices := AList.update (dev_ID d) d (m_devices s)\<rparr>))"

definition ms_GetDevice :: "mem_store \<Rightarrow> string \<Rightarrow> store_error + device" where
  "ms_GetDevice s k = found (map_of (m_devices s) k)"

definition ms_CountDevicesByAccount :: "mem_store \<Rightarrow> string \<Rightarrow> store_error + nat" where
  "ms_CountDevicesByAccount s accountID = Inr (mcount (\<lambda>d. dev_AccountID d = accountID) (m_devices s))"

text \<open>
  \<^verbatim>\<open>bytes.Equal\<close> takes a nil slice for an empty one; the key looked for is not empty. The loop keeps
  the matching device with the lowest identifier.
\<close>

definition pick_step :: "(device \<Rightarrow> bool) \<Rightarrow> device \<Rightarrow> device option \<Rightarrow> device option" where
  "pick_step pred d m =
     (if pred d then (case m of None \<Rightarrow> Some d | Some x \<Rightarrow> if dev_ID d < dev_ID x then Some d else m) else m)"

definition pick_device :: "(device \<Rightarrow> bool) \<Rightarrow> device list \<Rightarrow> device option" where
  "pick_device pred ds = fold (pick_step pred) ds None"

definition ms_FindDeviceByAccountRoleKey ::
  "mem_store \<Rightarrow> string \<Rightarrow> role \<Rightarrow> bytes \<Rightarrow> store_error + device" where
  "ms_FindDeviceByAccountRoleKey s accountID rl publicKey =
     (if publicKey = [] then Inl ErrNotFound
      else found (pick_device (\<lambda>d. dev_AccountID d = accountID \<and> dev_Role d = rl \<and> dev_PublicKey d = Some publicKey)
             (mvals (m_devices s))))"

subsection \<open>Pairings\<close>

definition ms_CreatePairing :: "pairing \<Rightarrow> mem_store \<Rightarrow> store_error option \<times> mem_store" where
  "ms_CreatePairing p s =
     (case map_of (m_pairings s) (pr_PairID p) of
        Some _ \<Rightarrow> (Some ErrConflict, s)
      | None \<Rightarrow> (None, s\<lparr>m_pairings := AList.update (pr_PairID p) p (m_pairings s)\<rparr>))"

definition ms_CreatePairingWithinCapacity :: "pairing \<Rightarrow> int \<Rightarrow> mem_store \<Rightarrow> store_error option \<times> mem_store" where
  "ms_CreatePairingWithinCapacity p maxPairs s =
     (case map_of (m_pairings s) (pr_PairID p) of
        Some _ \<Rightarrow> (Some ErrConflict, s)
      | None \<Rightarrow>
          (let inUse = mcount (\<lambda>ep. pr_LicenseID ep = pr_LicenseID p \<and> pr_Status ep = PairingActive) (m_pairings s)
           in if int inUse \<ge> maxPairs then (Some ErrCapacityExceeded, s)
              else (None, s\<lparr>m_pairings := AList.update (pr_PairID p) p (m_pairings s)\<rparr>)))"

definition ms_GetPairing :: "mem_store \<Rightarrow> string \<Rightarrow> store_error + pairing" where
  "ms_GetPairing s k = found (map_of (m_pairings s) k)"

definition listPairings :: "(pairing \<Rightarrow> bool) \<Rightarrow> mem_store \<Rightarrow> pairing list" where
  "listPairings pred s = sort_key pr_PairID (filter pred (mvals (m_pairings s)))"

definition ms_ListActivePairingsByLicense :: "mem_store \<Rightarrow> string \<Rightarrow> store_error + pairing list" where
  "ms_ListActivePairingsByLicense s k =
     Inr (listPairings (\<lambda>p. pr_LicenseID p = k \<and> pr_Status p = PairingActive) s)"

definition ms_ListActivePairingsByAccount :: "mem_store \<Rightarrow> string \<Rightarrow> store_error + pairing list" where
  "ms_ListActivePairingsByAccount s k =
     Inr (listPairings (\<lambda>p. pr_AccountID p = k \<and> pr_Status p = PairingActive) s)"

definition ms_SetPairingStatus :: "string \<Rightarrow> status \<Rightarrow> mem_store \<Rightarrow> store_error option \<times> mem_store" where
  "ms_SetPairingStatus k v s =
     (case map_of (m_pairings s) k of
        None \<Rightarrow> (Some ErrNotFound, s)
      | Some p \<Rightarrow> (None, s\<lparr>m_pairings := AList.update k (p\<lparr>pr_Status := v\<rparr>) (m_pairings s)\<rparr>))"

definition ms_UpdatePairingDevices ::
  "string \<Rightarrow> string \<Rightarrow> string \<Rightarrow> mem_store \<Rightarrow> store_error option \<times> mem_store" where
  "ms_UpdatePairingDevices k mobileID desktopID s =
     (case map_of (m_pairings s) k of
        None \<Rightarrow> (Some ErrNotFound, s)
      | Some p \<Rightarrow>
          (None, s\<lparr>m_pairings := AList.update k (p\<lparr>pr_MobileDeviceID := mobileID, pr_DesktopDeviceID := desktopID\<rparr>)
             (m_pairings s)\<rparr>))"

definition ms_ActivePairCount :: "mem_store \<Rightarrow> string \<Rightarrow> store_error + nat" where
  "ms_ActivePairCount s k =
     Inr (mcount (\<lambda>p. pr_LicenseID p = k \<and> pr_Status p = PairingActive) (m_pairings s))"

subsection \<open>Refresh tokens\<close>

definition ms_PutRefreshToken :: "refresh_token \<Rightarrow> mem_store \<Rightarrow> store_error option \<times> mem_store" where
  "ms_PutRefreshToken r s = (None, s\<lparr>m_refreshTokens := AList.update (rt_ID r) r (m_refreshTokens s)\<rparr>)"

definition ms_GetRefreshToken :: "mem_store \<Rightarrow> string \<Rightarrow> store_error + refresh_token" where
  "ms_GetRefreshToken s k = found (map_of (m_refreshTokens s) k)"

definition ms_RevokeRefreshToken :: "time \<Rightarrow> string \<Rightarrow> mem_store \<Rightarrow> store_error option \<times> mem_store" where
  "ms_RevokeRefreshToken clock k s =
     (case map_of (m_refreshTokens s) k of
        None \<Rightarrow> (Some ErrNotFound, s)
      | Some r \<Rightarrow>
          (if IsZero (rt_RevokedAt r)
           then (None, s\<lparr>m_refreshTokens := AList.update k (r\<lparr>rt_RevokedAt := clock\<rparr>) (m_refreshTokens s)\<rparr>)
           else (None, s)))"

definition ms_ConsumeRefreshToken :: "string \<Rightarrow> time \<Rightarrow> mem_store \<Rightarrow> store_error option \<times> mem_store" where
  "ms_ConsumeRefreshToken k consumedAt s =
     (case map_of (m_refreshTokens s) k of
        None \<Rightarrow> (Some ErrNotFound, s)
      | Some r \<Rightarrow>
          (if \<not> IsZero (rt_RevokedAt r) then (Some ErrConflict, s)
           else (None, s\<lparr>m_refreshTokens := AList.update k (r\<lparr>rt_RevokedAt := consumedAt\<rparr>) (m_refreshTokens s)\<rparr>)))"

definition ms_RevokeRefreshTokensByDevice :: "string \<Rightarrow> time \<Rightarrow> mem_store \<Rightarrow> store_error option \<times> mem_store" where
  "ms_RevokeRefreshTokensByDevice deviceID revokedAt s =
     (None, s\<lparr>m_refreshTokens := mmap (\<lambda>r. if rt_DeviceID r = deviceID \<and> IsZero (rt_RevokedAt r)
                then r\<lparr>rt_RevokedAt := revokedAt\<rparr> else r) (m_refreshTokens s)\<rparr>)"

subsection \<open>Pairing tokens and pair credentials\<close>

definition ms_CreatePairingToken :: "pairing_token \<Rightarrow> mem_store \<Rightarrow> store_error option \<times> mem_store" where
  "ms_CreatePairingToken t s =
     (case map_of (m_pairingTokens s) (pt_ID t) of
        Some _ \<Rightarrow> (Some ErrConflict, s)
      | None \<Rightarrow> (None, s\<lparr>m_pairingTokens := AList.update (pt_ID t) t (m_pairingTokens s)\<rparr>))"

definition ms_GetPairingToken :: "mem_store \<Rightarrow> string \<Rightarrow> store_error + pairing_token" where
  "ms_GetPairingToken s k = found (map_of (m_pairingTokens s) k)"

definition ms_ConsumePairingToken :: "string \<Rightarrow> string \<Rightarrow> time \<Rightarrow> mem_store \<Rightarrow> store_error option \<times> mem_store" where
  "ms_ConsumePairingToken k resultPairID consumedAt s =
     (case map_of (m_pairingTokens s) k of
        None \<Rightarrow> (Some ErrNotFound, s)
      | Some t \<Rightarrow>
          (if \<not> IsZero (pt_ConsumedAt t) then (Some ErrConflict, s)
           else (None, s\<lparr>m_pairingTokens := AList.update k
                  (t\<lparr>pt_ConsumedAt := consumedAt, pt_ResultPairID := resultPairID\<rparr>) (m_pairingTokens s)\<rparr>)))"

definition ms_PutPairCredential :: "pair_credential \<Rightarrow> mem_store \<Rightarrow> store_error option \<times> mem_store" where
  "ms_PutPairCredential c s = (None, s\<lparr>m_pairCredentials := AList.update (pc_PairID c) c (m_pairCredentials s)\<rparr>)"

definition ms_GetPairCredential :: "mem_store \<Rightarrow> string \<Rightarrow> store_error + pair_credential" where
  "ms_GetPairCredential s k = found (map_of (m_pairCredentials s) k)"

definition ms_RevokePairCredential :: "string \<Rightarrow> time \<Rightarrow> mem_store \<Rightarrow> store_error option \<times> mem_store" where
  "ms_RevokePairCredential k revokedAt s =
     (case map_of (m_pairCredentials s) k of
        None \<Rightarrow> (None, s)
      | Some c \<Rightarrow>
          (if IsZero (pc_RevokedAt c)
           then (None, s\<lparr>m_pairCredentials := AList.update k (c\<lparr>pc_RevokedAt := revokedAt\<rparr>) (m_pairCredentials s)\<rparr>)
           else (None, s)))"

subsection \<open>Checkout claims\<close>

definition ms_CreateCheckoutClaim :: "checkout_claim \<Rightarrow> mem_store \<Rightarrow> store_error option \<times> mem_store" where
  "ms_CreateCheckoutClaim c s =
     (case map_of (m_checkoutClaims s) (cc_Nonce c) of
        Some _ \<Rightarrow> (Some ErrConflict, s)
      | None \<Rightarrow> (None, s\<lparr>m_checkoutClaims := AList.update (cc_Nonce c) c (m_checkoutClaims s)\<rparr>))"

definition ms_GetCheckoutClaim :: "mem_store \<Rightarrow> string \<Rightarrow> store_error + checkout_claim" where
  "ms_GetCheckoutClaim s k = found (map_of (m_checkoutClaims s) k)"

definition ms_GetCheckoutClaimByCode :: "mem_store \<Rightarrow> string \<Rightarrow> store_error + checkout_claim" where
  "ms_GetCheckoutClaimByCode s h =
     (if h = '''' then Inl ErrNotFound
      else found (find (\<lambda>c. cc_ClaimCodeHash c = h) (mvals (m_checkoutClaims s))))"

definition ms_MarkCheckoutClaimReady ::
  "string \<Rightarrow> string \<Rightarrow> string \<Rightarrow> string \<Rightarrow> string \<Rightarrow> mem_store \<Rightarrow> store_error option \<times> mem_store" where
  "ms_MarkCheckoutClaimReady nonce accountID licenseID subscriptionID sessionID s =
     (case map_of (m_checkoutClaims s) nonce of
        None \<Rightarrow> (None, s)
      | Some c \<Rightarrow>
          (if cc_Status c \<noteq> ClaimPending then (None, s)
           else let c = c\<lparr>cc_AccountID := accountID, cc_LicenseID := licenseID, cc_SubscriptionID := subscriptionID\<rparr>;
                    c = (if sessionID \<noteq> '''' then c\<lparr>cc_StripeSessionID := sessionID\<rparr> else c);
                    c = c\<lparr>cc_Status := ClaimReady\<rparr>
                in (None, s\<lparr>m_checkoutClaims := AList.update nonce c (m_checkoutClaims s)\<rparr>)))"

definition ms_SetCheckoutClaimCode :: "string \<Rightarrow> string \<Rightarrow> mem_store \<Rightarrow> store_error option \<times> mem_store" where
  "ms_SetCheckoutClaimCode nonce h s =
     (case map_of (m_checkoutClaims s) nonce of
        None \<Rightarrow> (Some ErrNotFound, s)
      | Some c \<Rightarrow>
          (if cc_Status c \<noteq> ClaimReady then (Some ErrNotFound, s)
           else (None, s\<lparr>m_checkoutClaims := AList.update nonce (c\<lparr>cc_ClaimCodeHash := h\<rparr>) (m_checkoutClaims s)\<rparr>)))"

definition ms_ConsumeCheckoutClaim ::
  "string \<Rightarrow> time \<Rightarrow> mem_store \<Rightarrow> (store_error + checkout_claim) \<times> mem_store" where
  "ms_ConsumeCheckoutClaim nonce consumedAt s =
     (case map_of (m_checkoutClaims s) nonce of
        None \<Rightarrow> (Inl ErrNotFound, s)
      | Some c \<Rightarrow>
          (if cc_Status c = ClaimConsumed then (Inl ErrConflict, s)
           else if cc_Status c \<noteq> ClaimReady then (Inl ErrNotFound, s)
           else let c = c\<lparr>cc_Status := ClaimConsumed, cc_ConsumedAt := consumedAt\<rparr>
                in (Inr c, s\<lparr>m_checkoutClaims := AList.update nonce c (m_checkoutClaims s)\<rparr>)))"

definition ms_DeleteExpiredCheckoutClaims :: "time \<Rightarrow> mem_store \<Rightarrow> (store_error + nat) \<times> mem_store" where
  "ms_DeleteExpiredCheckoutClaims before s =
     (Inr (mcount (\<lambda>c. cc_ExpiresAt c < before) (m_checkoutClaims s)),
      s\<lparr>m_checkoutClaims := mfilter (\<lambda>c. \<not> cc_ExpiresAt c < before) (m_checkoutClaims s)\<rparr>)"

subsection \<open>Webhook events\<close>

definition ms_InsertWebhookEventIfAbsent :: "webhook_event \<Rightarrow> mem_store \<Rightarrow> (store_error + bool) \<times> mem_store" where
  "ms_InsertWebhookEventIfAbsent e s =
     (case map_of (m_webhookEvents s) (we_ID e) of
        Some _ \<Rightarrow> (Inr False, s)
      | None \<Rightarrow> (Inr True, s\<lparr>m_webhookEvents := AList.update (we_ID e) e (m_webhookEvents s)\<rparr>))"

definition ms_SetWebhookStatus ::
  "string \<Rightarrow> status \<Rightarrow> int \<Rightarrow> time \<Rightarrow> mem_store \<Rightarrow> store_error option \<times> mem_store" where
  "ms_SetWebhookStatus k v attempts processedAt s =
     (case map_of (m_webhookEvents s) k of
        None \<Rightarrow> (Some ErrNotFound, s)
      | Some e \<Rightarrow>
          (None, s\<lparr>m_webhookEvents := AList.update k
             (e\<lparr>we_Status := v, we_Attempts := attempts, we_ProcessedAt := processedAt\<rparr>) (m_webhookEvents s)\<rparr>))"

definition ms_ListWebhookEventsByStatus :: "mem_store \<Rightarrow> status \<Rightarrow> int \<Rightarrow> store_error + webhook_event list" where
  "ms_ListWebhookEventsByStatus s v limit =
     (let out = sort_key we_ReceivedAt (filter (\<lambda>e. we_Status e = v) (mvals (m_webhookEvents s)))
      in Inr (if limit > 0 \<and> int (length out) > limit then take (nat limit) out else out))"

definition ms_HealthCheck :: "mem_store \<Rightarrow> store_error option" where
  "ms_HealthCheck s = None"

definition ms_ops :: "mem_store store_ops" where
  "ms_ops =
     \<lparr>st_UpsertAccount = ms_UpsertAccount, st_GetAccount = ms_GetAccount,
      st_GetAccountByCustomer = ms_GetAccountByCustomer, st_UpsertSubscription = ms_UpsertSubscription,
      st_GetSubscription = ms_GetSubscription, st_ListSubscriptions = ms_ListSubscriptions,
      st_CreateLicense = ms_CreateLicense, st_GetLicense = ms_GetLicense,
      st_ListLicensesByAccount = ms_ListLicensesByAccount,
      st_ListLicensesBySubscription = ms_ListLicensesBySubscription,
      st_SetLicenseStatus = ms_SetLicenseStatus, st_UpsertDevice = ms_UpsertDevice,
      st_GetDevice = ms_GetDevice, st_CountDevicesByAccount = ms_CountDevicesByAccount,
      st_FindDeviceByAccountRoleKey = ms_FindDeviceByAccountRoleKey, st_CreatePairing = ms_CreatePairing,
      st_CreatePairingWithinCapacity = ms_CreatePairingWithinCapacity, st_GetPairing = ms_GetPairing,
      st_ListActivePairingsByLicense = ms_ListActivePairingsByLicense,
      st_ListActivePairingsByAccount = ms_ListActivePairingsByAccount,
      st_SetPairingStatus = ms_SetPairingStatus, st_UpdatePairingDevices = ms_UpdatePairingDevices,
      st_ActivePairCount = ms_ActivePairCount, st_PutRefreshToken = ms_PutRefreshToken,
      st_GetRefreshToken = ms_GetRefreshToken, st_RevokeRefreshToken = ms_RevokeRefreshToken,
      st_ConsumeRefreshToken = ms_ConsumeRefreshToken,
      st_RevokeRefreshTokensByDevice = ms_RevokeRefreshTokensByDevice,
      st_PutPairCredential = ms_PutPairCredential, st_GetPairCredential = ms_GetPairCredential,
      st_RevokePairCredential = ms_RevokePairCredential, st_CreatePairingToken = ms_CreatePairingToken,
      st_GetPairingToken = ms_GetPairingToken, st_ConsumePairingToken = ms_ConsumePairingToken,
      st_CreateCheckoutClaim = ms_CreateCheckoutClaim, st_GetCheckoutClaim = ms_GetCheckoutClaim,
      st_GetCheckoutClaimByCode = ms_GetCheckoutClaimByCode,
      st_MarkCheckoutClaimReady = ms_MarkCheckoutClaimReady,
      st_SetCheckoutClaimCode = ms_SetCheckoutClaimCode, st_ConsumeCheckoutClaim = ms_ConsumeCheckoutClaim,
      st_DeleteExpiredCheckoutClaims = ms_DeleteExpiredCheckoutClaims,
      st_InsertWebhookEventIfAbsent = ms_InsertWebhookEventIfAbsent,
      st_SetWebhookStatus = ms_SetWebhookStatus, st_ListWebhookEventsByStatus = ms_ListWebhookEventsByStatus,
      st_HealthCheck = ms_HealthCheck\<rparr>"

lemma ms_ops_sel [simp]:
  "st_UpsertAccount ms_ops = ms_UpsertAccount" "st_GetAccount ms_ops = ms_GetAccount"
  "st_GetAccountByCustomer ms_ops = ms_GetAccountByCustomer"
  "st_UpsertSubscription ms_ops = ms_UpsertSubscription" "st_GetSubscription ms_ops = ms_GetSubscription"
  "st_ListSubscriptions ms_ops = ms_ListSubscriptions" "st_CreateLicense ms_ops = ms_CreateLicense"
  "st_GetLicense ms_ops = ms_GetLicense" "st_ListLicensesByAccount ms_ops = ms_ListLicensesByAccount"
  "st_ListLicensesBySubscription ms_ops = ms_ListLicensesBySubscription"
  "st_SetLicenseStatus ms_ops = ms_SetLicenseStatus" "st_UpsertDevice ms_ops = ms_UpsertDevice"
  "st_GetDevice ms_ops = ms_GetDevice" "st_CountDevicesByAccount ms_ops = ms_CountDevicesByAccount"
  "st_FindDeviceByAccountRoleKey ms_ops = ms_FindDeviceByAccountRoleKey"
  "st_CreatePairing ms_ops = ms_CreatePairing"
  "st_CreatePairingWithinCapacity ms_ops = ms_CreatePairingWithinCapacity"
  "st_GetPairing ms_ops = ms_GetPairing"
  "st_ListActivePairingsByLicense ms_ops = ms_ListActivePairingsByLicense"
  "st_ListActivePairingsByAccount ms_ops = ms_ListActivePairingsByAccount"
  "st_SetPairingStatus ms_ops = ms_SetPairingStatus"
  "st_UpdatePairingDevices ms_ops = ms_UpdatePairingDevices"
  "st_ActivePairCount ms_ops = ms_ActivePairCount" "st_PutRefreshToken ms_ops = ms_PutRefreshToken"
  "st_GetRefreshToken ms_ops = ms_GetRefreshToken" "st_RevokeRefreshToken ms_ops = ms_RevokeRefreshToken"
  "st_ConsumeRefreshToken ms_ops = ms_ConsumeRefreshToken"
  "st_RevokeRefreshTokensByDevice ms_ops = ms_RevokeRefreshTokensByDevice"
  "st_PutPairCredential ms_ops = ms_PutPairCredential" "st_GetPairCredential ms_ops = ms_GetPairCredential"
  "st_RevokePairCredential ms_ops = ms_RevokePairCredential"
  "st_CreatePairingToken ms_ops = ms_CreatePairingToken" "st_GetPairingToken ms_ops = ms_GetPairingToken"
  "st_ConsumePairingToken ms_ops = ms_ConsumePairingToken"
  "st_CreateCheckoutClaim ms_ops = ms_CreateCheckoutClaim"
  "st_GetCheckoutClaim ms_ops = ms_GetCheckoutClaim"
  "st_GetCheckoutClaimByCode ms_ops = ms_GetCheckoutClaimByCode"
  "st_MarkCheckoutClaimReady ms_ops = ms_MarkCheckoutClaimReady"
  "st_SetCheckoutClaimCode ms_ops = ms_SetCheckoutClaimCode"
  "st_ConsumeCheckoutClaim ms_ops = ms_ConsumeCheckoutClaim"
  "st_DeleteExpiredCheckoutClaims ms_ops = ms_DeleteExpiredCheckoutClaims"
  "st_InsertWebhookEventIfAbsent ms_ops = ms_InsertWebhookEventIfAbsent"
  "st_SetWebhookStatus ms_ops = ms_SetWebhookStatus"
  "st_ListWebhookEventsByStatus ms_ops = ms_ListWebhookEventsByStatus"
  "st_HealthCheck ms_ops = ms_HealthCheck"
  by (simp_all add: ms_ops_def)

subsection \<open>The store implements the contract\<close>

definition ms_view :: "mem_store \<Rightarrow> db" where
  "ms_view s =
     \<lparr>db_accounts = map_of (m_accounts s), db_customers = map_of (m_customerToAcct s),
      db_subscriptions = map_of (m_subscriptions s), db_licenses = map_of (m_licenses s),
      db_devices = map_of (m_devices s), db_pairings = map_of (m_pairings s),
      db_refreshTokens = map_of (m_refreshTokens s), db_pairingTokens = map_of (m_pairingTokens s),
      db_pairCredentials = map_of (m_pairCredentials s), db_checkoutClaims = map_of (m_checkoutClaims s),
      db_webhookEvents = map_of (m_webhookEvents s)\<rparr>"

definition ms_wf :: "mem_store \<Rightarrow> bool" where
  "ms_wf s \<longleftrightarrow> wf_map (m_accounts s) \<and> wf_map (m_customerToAcct s) \<and> wf_map (m_subscriptions s) \<and>
     wf_map (m_licenses s) \<and> wf_map (m_devices s) \<and> wf_map (m_pairings s) \<and> wf_map (m_refreshTokens s) \<and>
     wf_map (m_pairingTokens s) \<and> wf_map (m_pairCredentials s) \<and> wf_map (m_checkoutClaims s) \<and>
     wf_map (m_webhookEvents s)"

definition ms_ok :: "mem_store \<Rightarrow> bool" where
  "ms_ok s \<longleftrightarrow> ms_wf s \<and> db_ok (ms_view s)"

lemma ms_New_ok: "ms_ok ms_New"
  by (simp add: ms_ok_def ms_wf_def ms_view_def ms_New_def db_ok_def)

lemma mcount_card: "wf_map m \<Longrightarrow> mcount P m = card {k. \<exists>v. map_of m k = Some v \<and> P v}"
proof (induction m)
  case (Cons a m)
  obtain k v where a: "a = (k, v)" by fastforce
  have fresh: "map_of m k = None" using Cons.prems by (simp add: a map_of_eq_None_iff)
  have fin: "finite {k. \<exists>v. map_of m k = Some v \<and> P v}"
    by (rule finite_subset [OF _ finite_dom_map_of [of m]]) auto
  have "{k'. \<exists>v'. map_of (a # m) k' = Some v' \<and> P v'} =
      (if P v then insert k {k. \<exists>v. map_of m k = Some v \<and> P v} else {k. \<exists>v. map_of m k = Some v \<and> P v})"
    using fresh by (auto simp: a)
  then show ?case using Cons fresh fin by (simp add: a mcount_def)
qed (simp add: mcount_def)

lemmas ms_writes =
  ms_UpsertAccount_def ms_UpsertSubscription_def ms_CreateLicense_def ms_SetLicenseStatus_def
  ms_UpsertDevice_def ms_CreatePairing_def ms_SetPairingStatus_def
  ms_UpdatePairingDevices_def ms_PutRefreshToken_def ms_RevokeRefreshToken_def ms_ConsumeRefreshToken_def
  ms_RevokeRefreshTokensByDevice_def ms_PutPairCredential_def ms_RevokePairCredential_def
  ms_CreatePairingToken_def ms_ConsumePairingToken_def ms_CreateCheckoutClaim_def
  ms_MarkCheckoutClaimReady_def ms_SetCheckoutClaimCode_def ms_ConsumeCheckoutClaim_def
  ms_DeleteExpiredCheckoutClaims_def ms_InsertWebhookEventIfAbsent_def ms_SetWebhookStatus_def

lemma ms_exec_wf: "ms_wf s \<Longrightarrow> ms_wf (snd (exec ms_ops x s))"
  by (cases x)
     (auto simp: ms_writes ms_CreatePairingWithinCapacity_def ms_wf_def Let_def
       split: option.splits if_splits)

lemma ms_capacity:
  "ms_wf s \<Longrightarrow> mcount (\<lambda>p. pr_LicenseID p = lic \<and> pr_Status p = PairingActive) (m_pairings s)
     = card (active_pairs (ms_view s) lic)"
  by (simp add: mcount_card ms_wf_def active_pairs_def ms_view_def)

lemma ms_exec_spec:
  assumes "ms_wf s"
  shows "spec x (ms_view s) = (fst (exec ms_ops x s), ms_view (snd (exec ms_ops x s)))"
proof (cases x)
  case (CreatePairingWithinCapacity p n)
  then show ?thesis using ms_capacity [OF assms]
    by (simp add: ms_CreatePairingWithinCapacity_def Let_def row_defs split: option.splits)
       (auto simp: ms_view_def)
next
  case (DeleteExpiredCheckoutClaims t)
  have "wf_map (m_checkoutClaims s)" using assms by (simp add: ms_wf_def)
  then show ?thesis using DeleteExpiredCheckoutClaims
    by (auto simp: ms_writes ms_view_def map_of_mfilter fun_eq_iff split: option.splits)
next
  case (RevokeRefreshTokensByDevice k t)
  have "(\<lambda>r. if rt_DeviceID r = k then revoke_rt t r else r) =
      (\<lambda>r. if rt_DeviceID r = k \<and> IsZero (rt_RevokedAt r) then r\<lparr>rt_RevokedAt := t\<rparr> else r)"
    by (simp add: revoke_rt_def fun_eq_iff)
  then show ?thesis using RevokeRefreshTokensByDevice
    by (simp add: ms_writes ms_view_def fun_eq_iff)
qed (auto simp: ms_writes ms_view_def Let_def row_defs merge_account_def merge_device_def
        revoke_rt_def revoke_pc_def ready_claim_def fun_eq_iff option.map_comp split: option.splits if_splits)

lemma pick_device_fold:
  "fold (pick_step pred) ds m0 = Some x \<Longrightarrow> m0 = Some x \<or> (x \<in> set ds \<and> pred x)"
proof (induction ds arbitrary: m0)
  case (Cons d ds)
  have "fold (pick_step pred) ds (pick_step pred d m0) = Some x" using Cons.prems by simp
  from Cons.IH [OF this] have "pick_step pred d m0 = Some x \<or> (x \<in> set ds \<and> pred x)" .
  then show ?case by (auto simp: pick_step_def split: if_splits option.splits)
qed simp

lemma pick_device_fold_None: "fold (pick_step pred) ds m0 = None \<Longrightarrow> m0 = None \<and> (\<forall>d \<in> set ds. \<not> pred d)"
proof (induction ds arbitrary: m0)
  case (Cons d ds)
  have "fold (pick_step pred) ds (pick_step pred d m0) = None" using Cons.prems by simp
  from Cons.IH [OF this] have "pick_step pred d m0 = None \<and> (\<forall>d \<in> set ds. \<not> pred d)" .
  then show ?case by (auto simp: pick_step_def split: if_splits option.splits)
qed simp

lemma pick_device_Some: "pick_device pred ds = Some x \<Longrightarrow> x \<in> set ds \<and> pred x"
  using pick_device_fold [of pred ds None x] by (simp add: pick_device_def)

lemma pick_device_None: "pick_device pred ds = None \<Longrightarrow> d \<in> set ds \<Longrightarrow> \<not> pred d"
  using pick_device_fold_None [of pred ds None] by (simp add: pick_device_def)

lemma found_answer [simp]: "answer (found r) r"
  by (simp add: found_def answer_def split: option.splits)

lemma found_Inr: "found r = Inr v \<longleftrightarrow> r = Some v"
  by (simp add: found_def split: option.splits)

lemma found_Inl: "found r = Inl ErrNotFound \<longleftrightarrow> r = None"
  by (simp add: found_def split: option.splits)

lemma set_mvals_ran: "wf_map m \<Longrightarrow> set (mvals m) = ran (map_of m)"
  by (auto simp: ran_def mvals_iff simp del: set_map)

lemma distinct_mvals:
  "wf_map m \<Longrightarrow> (\<And>k v. map_of m k = Some v \<Longrightarrow> key v = k) \<Longrightarrow> distinct (mvals m)"
proof (induction m)
  case (Cons a m)
  have wf: "wf_map m" using Cons.prems by simp
  have ks: "key v = k" if "map_of m k = Some v" for k v
  proof -
    have "k \<noteq> fst a" using that Cons.prems(1) by (auto dest: map_of_SomeD intro: rev_image_eqI)
    then show ?thesis using Cons.prems(2) [of k v] that by (cases a) simp
  qed
  have "key (snd a) = fst a" using Cons.prems(2) [of "fst a" "snd a"] by (cases a) simp
  moreover have "snd a \<in> set (mvals m) \<Longrightarrow> False"
  proof -
    assume "snd a \<in> set (mvals m)"
    then obtain k where k: "map_of m k = Some (snd a)" using mvals_iff [OF wf] by blast
    then have "k = fst a" using ks calculation by simp
    with k Cons.prems(1) show False by (auto dest: map_of_SomeD intro: rev_image_eqI)
  qed
  ultimately show ?case using Cons.IH [OF wf ks] by auto
qed simp

lemma listing_sort_key:
  assumes "wf_map m" and "\<And>k v. map_of m k = Some v \<Longrightarrow> key v = k"
  shows "listing (Inr (sort_key key (filter P (mvals m)))) (map_of m) key P"
  using distinct_mvals [OF assms] set_mvals_ran [OF assms(1)] by (auto simp: listing_def)

lemma ms_exec_ok: "ms_ok s \<Longrightarrow> ms_ok (snd (exec ms_ops x s))"
  using ms_exec_wf [of s x] spec_ok [of "ms_view s" x] ms_exec_spec [of s x] by (simp add: ms_ok_def)

lemma ms_ok_facts:
  assumes "ms_ok s"
  shows "wf_map (m_licenses s)" "map_of (m_licenses s) k = Some l \<Longrightarrow> lic_ID l = k"
    "wf_map (m_subscriptions s)" "map_of (m_subscriptions s) k = Some x \<Longrightarrow> sub_ID x = k"
    "wf_map (m_pairings s)" "map_of (m_pairings s) k = Some p \<Longrightarrow> pr_PairID p = k"
    "wf_map (m_devices s)" "map_of (m_devices s) k = Some d \<Longrightarrow> dev_ID d = k"
    "wf_map (m_checkoutClaims s)" "map_of (m_checkoutClaims s) k = Some c \<Longrightarrow> cc_Nonce c = k"
    "wf_map (m_webhookEvents s)" "map_of (m_customerToAcct s) k = Some a \<Longrightarrow> map_of (m_accounts s) a \<noteq> None"
  using assms unfolding ms_ok_def ms_wf_def db_ok_def ms_view_def by auto

lemma ms_listings:
  assumes "ms_ok s"
  shows "listing (ms_ListSubscriptions s) (map_of (m_subscriptions s)) sub_ID (\<lambda>_. True)"
    "listing (ms_ListLicensesByAccount s k) (map_of (m_licenses s)) lic_ID (\<lambda>l. lic_AccountID l = k)"
    "listing (ms_ListLicensesBySubscription s k) (map_of (m_licenses s)) lic_ID (\<lambda>l. lic_SubscriptionID l = k)"
    "listing (ms_ListActivePairingsByLicense s k) (map_of (m_pairings s)) pr_PairID
       (\<lambda>p. pr_LicenseID p = k \<and> pr_Status p = PairingActive)"
    "listing (ms_ListActivePairingsByAccount s k) (map_of (m_pairings s)) pr_PairID
       (\<lambda>p. pr_AccountID p = k \<and> pr_Status p = PairingActive)"
  using listing_sort_key [OF ms_ok_facts(3,4) [OF assms], where P = "\<lambda>_. True"]
    listing_sort_key [OF ms_ok_facts(1,2) [OF assms]] listing_sort_key [OF ms_ok_facts(5,6) [OF assms]]
  by (simp_all add: ms_ListSubscriptions_def ms_ListLicensesByAccount_def ms_ListLicensesBySubscription_def
        ms_ListActivePairingsByLicense_def ms_ListActivePairingsByAccount_def listLicenses_def listPairings_def)

lemma limited: "0 < lim \<longrightarrow> int (length (if lim > 0 \<and> int (length xs) > lim then take (nat lim) xs else xs)) \<le> lim"
  by auto

interpretation ms: auth_store ms_ops ms_ok ms_view
proof
  fix s
  assume "ms_ok s"
  then show "db_ok (ms_view s)" by (simp add: ms_ok_def)
next
  fix s x r s'
  assume "ms_ok s" "exec ms_ops x s = (r, s')"
  then show "ms_ok s' \<and> ((r, ms_view s') = spec x (ms_view s) \<or> r = Refused ErrStore \<and> ms_view s' = ms_view s)"
    using ms_exec_ok [of s x] ms_exec_spec [of s x] by (simp add: ms_ok_def)
next
  fix s k
  assume s: "ms_ok s"
  then show "answer (st_GetAccountByCustomer ms_ops s k)
      (Option.bind (db_customers (ms_view s) k) (db_accounts (ms_view s)))"
    using ms_ok_facts(12) [OF s, of k]
    by (auto simp: ms_GetAccountByCustomer_def ms_view_def answer_def split: option.splits)
next
  fix s k n
  assume s: "ms_ok s" "st_CountDevicesByAccount ms_ops s k = Inr n"
  then show "n = card (account_devices (ms_view s) k)"
    using mcount_card [OF ms_ok_facts(7) [OF s(1)]]
    by (auto simp: ms_CountDevicesByAccount_def account_devices_def ms_view_def)
next
  fix s k rl key v
  assume s: "ms_ok s" "st_FindDeviceByAccountRoleKey ms_ops s k rl key = Inr v"
  then have v: "v \<in> set (mvals (m_devices s))" "dev_AccountID v = k \<and> dev_Role v = rl \<and> dev_PublicKey v = Some key" "key \<noteq> []"
    by (auto simp: ms_FindDeviceByAccountRoleKey_def found_Inr simp del: set_map
          dest!: pick_device_Some split: if_splits)
  then obtain k' where "map_of (m_devices s) k' = Some v" using mvals_iff [OF ms_ok_facts(7) [OF s(1)]] by blast
  then show "db_devices (ms_view s) (dev_ID v) = Some v \<and> dev_AccountID v = k \<and> dev_Role v = rl \<and>
      dev_PublicKey v = Some key \<and> key \<noteq> []"
    using v ms_ok_facts(8) [OF s(1)] by (auto simp: ms_view_def)
next
  fix s k rl key v
  assume s: "ms_ok s" "st_FindDeviceByAccountRoleKey ms_ops s k rl key = Inl ErrNotFound" "key \<noteq> []"
    "v \<in> ran (db_devices (ms_view s))"
  then have "v \<in> set (mvals (m_devices s))"
    using set_mvals_ran [OF ms_ok_facts(7) [OF s(1)]] by (simp add: ms_view_def)
  then show "\<not> (dev_AccountID v = k \<and> dev_Role v = rl \<and> dev_PublicKey v = Some key)"
    using s(2,3) pick_device_None [of "\<lambda>d. dev_AccountID d = k \<and> dev_Role d = rl \<and> dev_PublicKey d = Some key"
        "mvals (m_devices s)" v]
    by (simp add: ms_FindDeviceByAccountRoleKey_def found_Inl del: set_map)
next
  fix s k n
  assume s: "ms_ok s" "st_ActivePairCount ms_ops s k = Inr n"
  then show "n = card (active_pairs (ms_view s) k)"
    using ms_capacity [of s k] by (simp add: ms_ActivePairCount_def ms_ok_def)
next
  fix s h c
  assume s: "ms_ok s" "st_GetCheckoutClaimByCode ms_ops s h = Inr c"
  then have "h \<noteq> ''''" and f: "find (\<lambda>c. cc_ClaimCodeHash c = h) (mvals (m_checkoutClaims s)) = Some c"
    by (auto simp: ms_GetCheckoutClaimByCode_def found_Inr split: if_splits)
  moreover from f have "c \<in> set (mvals (m_checkoutClaims s))" "cc_ClaimCodeHash c = h"
    unfolding find_Some_iff by (metis nth_mem)+
  moreover then obtain k where "map_of (m_checkoutClaims s) k = Some c"
    using mvals_iff [OF ms_ok_facts(9) [OF s(1)]] by blast
  ultimately show "h \<noteq> '''' \<and> cc_ClaimCodeHash c = h \<and> db_checkoutClaims (ms_view s) (cc_Nonce c) = Some c"
    using ms_ok_facts(10) [OF s(1)] by (auto simp: ms_view_def)
next
  fix s k lim es
  assume s: "ms_ok s" "st_ListWebhookEventsByStatus ms_ops s k lim = Inr es"
  let ?out = "sort_key we_ReceivedAt (filter (\<lambda>e. we_Status e = k) (mvals (m_webhookEvents s)))"
  have es: "es = (if lim > 0 \<and> int (length ?out) > lim then take (nat lim) ?out else ?out)"
    using s(2) by (simp add: ms_ListWebhookEventsByStatus_def Let_def)
  have "set es \<subseteq> set ?out" by (auto simp: es dest: in_set_takeD)
  moreover have "set ?out = {e \<in> ran (db_webhookEvents (ms_view s)). we_Status e = k}"
    using set_mvals_ran [OF ms_ok_facts(11) [OF s(1)]] by (auto simp: ms_view_def)
  moreover have "sorted (map we_ReceivedAt es)" by (simp add: es sorted_wrt_take take_map [symmetric])
  moreover have "0 < lim \<longrightarrow> int (length es) \<le> lim" unfolding es by (rule limited)
  ultimately show "set es \<subseteq> {e \<in> ran (db_webhookEvents (ms_view s)). we_Status e = k} \<and>
      sorted (map we_ReceivedAt es) \<and> (0 < lim \<longrightarrow> int (length es) \<le> lim)" by blast
qed (simp_all add: ms_listings ms_view_def ms_GetAccount_def ms_GetSubscription_def
       ms_GetLicense_def ms_GetDevice_def ms_GetPairing_def ms_GetRefreshToken_def ms_GetPairCredential_def
       ms_GetPairingToken_def ms_GetCheckoutClaim_def)

subsection \<open>Properties\<close>

text \<open>
  C22. The in-memory store refines the abstract database: after any sequence of operations from an empty
  store its tables are what the abstract steps make of empty tables, every table has each key once and
  every row carries its key, and the next operation answers what the abstract step answers.
\<close>

theorem ms_refines:
  "ms_ok (run ms_ops xs ms_New) \<and>
   ms_view (run ms_ops xs ms_New) = fold (\<lambda>x d. snd (spec x d)) xs (ms_view ms_New) \<and>
   fst (exec ms_ops x (run ms_ops xs ms_New)) = fst (spec x (ms_view (run ms_ops xs ms_New)))"
proof -
  have "ms_ok s \<Longrightarrow> ms_view (run ms_ops xs s) = fold (\<lambda>x d. snd (spec x d)) xs (ms_view s)" for s
  proof (induction xs arbitrary: s)
    case (Cons y ys)
    then show ?case using ms_exec_ok [of s y] ms_exec_spec [of s y]
      by (simp add: ms.run_Cons ms_ok_def)
  qed (simp add: run_def)
  moreover have "ms_ok (run ms_ops xs ms_New)" using ms.run_inv ms_New_ok by blast
  ultimately show ?thesis using ms_New_ok ms_exec_spec [of "run ms_ops xs ms_New" x] by (simp add: ms_ok_def)
qed

text \<open>
  A refresh token is spent once, however requests interleave: once a consumption at a real time has
  succeeded, every later consumption of the same token is refused, whatever operations of any requests come
  in between, as long as none of them stores a token under the same identifier again.
\<close>

theorem refresh_token_once:
  assumes "ms_ok s" and "ms_ConsumeRefreshToken k t s = (None, s1)" and "\<not> IsZero t"
    and "\<forall>x \<in> set xs. \<not> reissues k x"
  shows "fst (ms_ConsumeRefreshToken k t' (run ms_ops xs s1)) \<noteq> None"
  using ms.refresh_once [of s k t s1 xs t'] assms
  by (cases "ms_ConsumeRefreshToken k t' (run ms_ops xs s1)") auto

definition ex_refresh :: refresh_token where
  "ex_refresh = \<lparr>rt_ID = ''h1'', rt_DeviceID = ''d1'', rt_AccountID = ''a1'', rt_PairID = ''p1'',
     rt_ExpiresAt = 1000, rt_RevokedAt = 0\<rparr>"

definition ex_store_rt :: mem_store where
  "ex_store_rt = run ms_ops [PutRefreshToken ex_refresh] ms_New"

theorem refresh_token_once_witness:
  "fst (ms_ConsumeRefreshToken ''h1'' 5 ex_store_rt) = None \<and>
   fst (ms_ConsumeRefreshToken ''h1'' 7 (run ms_ops [RevokeRefreshTokensByDevice ''d2'' 6]
     (snd (ms_ConsumeRefreshToken ''h1'' 5 ex_store_rt)))) \<noteq> None"
proof -
  have ok: "ms_ok ex_store_rt" unfolding ex_store_rt_def using ms.run_inv ms_New_ok by blast
  have c: "fst (ms_ConsumeRefreshToken ''h1'' 5 ex_store_rt) = None"
    by (simp add: ex_store_rt_def run_def ms_PutRefreshToken_def ms_ConsumeRefreshToken_def
          ms_New_def ex_refresh_def IsZero_def)
  then have "ms_ConsumeRefreshToken ''h1'' 5 ex_store_rt = (None, snd (ms_ConsumeRefreshToken ''h1'' 5 ex_store_rt))"
    by (metis prod.collapse)
  from refresh_token_once [OF ok this, of "[RevokeRefreshTokensByDevice ''d2'' 6]" 7] c show ?thesis
    by (simp add: IsZero_def)
qed

text \<open>
  C23. A licence is never over-subscribed, however completions race: along any sequence of operations in
  which pairings of the licence are created only by the atomic count-and-insert with a limit of at most
  \<open>n\<close>, and no pairing is set active again, a licence that starts with at most \<open>n\<close> active pairings has at
  most \<open>n\<close> in every state reached.
\<close>

theorem capacity_respected:
  assumes "ms_ok s" and "\<forall>x \<in> set xs. within lic n x" and "ms_ActivePairCount s lic = Inr c0" and "int c0 \<le> n"
  shows "\<exists>c. ms_ActivePairCount (run ms_ops xs s) lic = Inr c \<and> int c \<le> n"
proof -
  have "c0 = card (active_pairs (ms_view s) lic)"
    using ms.active_count [OF assms(1)] assms(3) by simp
  then have "int (card (active_pairs (ms_view (run ms_ops xs s)) lic)) \<le> n"
    using ms.capacity_run [OF assms(1), of xs lic n] assms(2,4) by blast
  moreover have "ms_wf (run ms_ops xs s)" using ms.run_inv [OF assms(1)] by (simp add: ms_ok_def)
  ultimately show ?thesis using ms_capacity [of "run ms_ops xs s" lic] by (simp add: ms_ActivePairCount_def)
qed

definition ex_pairing :: pairing where
  "ex_pairing = \<lparr>pr_PairID = ''p1'', pr_LicenseID = ''l1'', pr_AccountID = ''a1'', pr_MobileDeviceID = ''m1'',
     pr_DesktopDeviceID = ''d1'', pr_Status = PairingActive, pr_CreatedAt = 7\<rparr>"

theorem capacity_respected_witness:
  "\<exists>c. ms_ActivePairCount (run ms_ops [CreatePairingWithinCapacity ex_pairing 1,
       CreatePairingWithinCapacity (ex_pairing\<lparr>pr_PairID := ''p2''\<rparr>) 1] ms_New) ''l1'' = Inr c \<and> int c \<le> 1"
  using capacity_respected [OF ms_New_ok, of "[CreatePairingWithinCapacity ex_pairing 1,
       CreatePairingWithinCapacity (ex_pairing\<lparr>pr_PairID := ''p2''\<rparr>) 1]" "''l1''" 1 0]
  by (simp add: ms_ActivePairCount_def ms_New_def mcount_def)

end
