(* ===== verification/License.thy ===== *)
theory License
  imports AuthStore
begin

section \<open>Entitlement rules\<close>

text \<open>
  Models \<^verbatim>\<open>internal/license/license.go\<close>: the behaviour a mirrored subscription gives its licences at an
  instant, the entitlement count read from price metadata, and licence keys. \<open>Atoi\<close> is \<^verbatim>\<open>strconv.Atoi\<close> on
  a 64-bit platform.
\<close>

datatype behavior = Valid | Grace | Revoked | Suspended

fun behavior_String :: "behavior \<Rightarrow> string" where
  "behavior_String Valid = ''valid''"
| "behavior_String Grace = ''grace''"
| "behavior_String Revoked = ''revoked''"
| "behavior_String Suspended = ''suspended''"

definition Evaluate :: "subscription \<Rightarrow> time \<Rightarrow> behavior" where
  "Evaluate sub now =
     (if sub_Status sub = SubTrialing \<or> sub_Status sub = SubActive then Valid
      else if sub_Status sub = SubPastDue then
        (if IsZero (sub_GraceUntil sub) \<or> now < sub_GraceUntil sub then Grace else Revoked)
      else if sub_Status sub = SubPaused then Suspended
      else if sub_Status sub = SubCanceled \<or> sub_Status sub = SubUnpaid \<or> sub_Status sub = SubIncompleteExpired
        then Revoked
      else Revoked)"

definition Issuable :: "behavior \<Rightarrow> bool" where "Issuable b \<longleftrightarrow> b = Valid \<or> b = Grace"
definition Enforced :: "behavior \<Rightarrow> bool" where "Enforced b \<longleftrightarrow> b = Revoked \<or> b = Suspended"

subsection \<open>The entitlement count\<close>

definition is_digit :: "char \<Rightarrow> bool" where
  "is_digit c \<longleftrightarrow> 48 \<le> (of_char c :: nat) \<and> (of_char c :: nat) \<le> 57"

definition digits_val :: "string \<Rightarrow> int" where
  "digits_val s = foldl (\<lambda>v c. v * 10 + (of_char c - 48)) 0 s"

definition Atoi :: "string \<Rightarrow> int option" where
  "Atoi s =
     (let neg = (case s of c # _ \<Rightarrow> c = CHR ''-'' | [] \<Rightarrow> False);
          ds = (case s of c # r \<Rightarrow> if c = CHR ''-'' \<or> c = CHR ''+'' then r else s | [] \<Rightarrow> []);
          v = (if neg then - digits_val ds else digits_val ds)
      in if ds = [] \<or> \<not> list_all is_digit ds \<or> v < min_int64 \<or> v > max_int64 then None else Some v)"

text \<open>A nil metadata map reads like an empty one.\<close>

definition MaxPairs :: "(string, string) gomap \<Rightarrow> int" where
  "MaxPairs metadata =
     (case map_of metadata ''max_pairs'' of
        None \<Rightarrow> 1
      | Some v \<Rightarrow>
          (case Atoi (TrimSpace v) of
             Some n \<Rightarrow> (if n \<ge> 1 then n else 1)
           | None \<Rightarrow> 1))"

definition NewKey :: "bytes \<Rightarrow> string" where
  "NewKey rnd = ''lic_'' @ randToken rnd"

subsection \<open>Properties\<close>

lemma Enforced_iff: "Enforced b \<longleftrightarrow> \<not> Issuable b"
  by (cases b) (simp_all add: Enforced_def Issuable_def)

lemma MaxPairs_bounds: "1 \<le> MaxPairs md \<and> MaxPairs md \<le> max_int64"
proof -
  have "Atoi s = Some n \<Longrightarrow> n \<le> max_int64" for s n by (auto simp: Atoi_def Let_def split: if_splits)
  then show ?thesis by (auto simp: MaxPairs_def max_int64_def split: option.splits)
qed

text \<open>
  C24. Entitlement fails closed: a token may be issued for a subscription exactly when its status is trialing
  or active, or past due with no deadline yet or before the deadline, so every other status, known or not,
  is refused; what is refused is exactly what demands a cut-off; and once a past-due deadline has passed it
  stays passed. The entitlement count of any metadata is between one and the largest 64-bit integer.
\<close>

theorem license_fail_closed:
  "(Issuable (Evaluate sub now) \<longleftrightarrow>
      sub_Status sub \<in> {SubTrialing, SubActive} \<or>
      sub_Status sub = SubPastDue \<and> (IsZero (sub_GraceUntil sub) \<or> now < sub_GraceUntil sub)) \<and>
   (Enforced (Evaluate sub now) \<longleftrightarrow> \<not> Issuable (Evaluate sub now)) \<and>
   Issuable (Evaluate sub (max now later)) \<le> Issuable (Evaluate sub now) \<and>
   1 \<le> MaxPairs md \<and> MaxPairs md \<le> max_int64"
proof -
  have "SubTrialing \<noteq> SubPastDue" "SubActive \<noteq> SubPastDue" by (simp_all add: status_defs)
  then have iff: "Issuable (Evaluate sub t) \<longleftrightarrow>
      sub_Status sub \<in> {SubTrialing, SubActive} \<or>
      sub_Status sub = SubPastDue \<and> (IsZero (sub_GraceUntil sub) \<or> t < sub_GraceUntil sub)" for t
    by (simp add: Evaluate_def Issuable_def)
  show ?thesis unfolding iff Enforced_iff using MaxPairs_bounds [of md] by auto
qed

end
