(* ===== verification/Json.thy ===== *)
theory Json
  imports SG_Prelude
begin

section \<open>Reading JSON request bodies\<close>

text \<open>
  What \<^verbatim>\<open>encoding/json\<close> does for the request bodies of the auth service: \<^verbatim>\<open>Decoder.Decode\<close> with
  \<^verbatim>\<open>DisallowUnknownFields\<close> into a struct whose fields are all strings. The decoder reads the first JSON
  value of the input and ignores what follows it; the value is recognised by a machine with an explicit
  stack, token by token, as the package's scanner does it byte by byte, and nesting is limited as there.
\<close>

datatype json = JNull | JBool bool | JNum string | JStr string | JArr "json list" | JObj "(string \<times> json) list"

subsection \<open>Text\<close>

definition byte_in :: "int \<Rightarrow> int \<Rightarrow> char \<Rightarrow> bool" where
  "byte_in lo hi c \<longleftrightarrow> lo \<le> of_char c \<and> of_char c \<le> hi"

abbreviation cont :: "char \<Rightarrow> bool" where "cont \<equiv> byte_in 0x80 0xBF"

text \<open>The width of the UTF-8 sequence that starts a string, zero when it is not valid.\<close>

fun rune_len :: "string \<Rightarrow> nat" where
  "rune_len [] = 0"
| "rune_len (a # s) =
     (if byte_in 0 0x7F a then 1
      else if byte_in 0xC2 0xDF a then (case s of b # _ \<Rightarrow> if cont b then 2 else 0 | _ \<Rightarrow> 0)
      else if byte_in 0xE0 0xEF a then
        (case s of b # c # _ \<Rightarrow>
           (if byte_in (if a = CHR 0xE0 then 0xA0 else 0x80) (if a = CHR 0xED then 0x9F else 0xBF) b \<and> cont c then 3 else 0)
         | _ \<Rightarrow> 0)
      else if byte_in 0xF0 0xF4 a then
        (case s of b # c # d # _ \<Rightarrow>
           (if byte_in (if a = CHR 0xF0 then 0x90 else 0x80) (if a = CHR 0xF4 then 0x8F else 0xBF) b \<and> cont c \<and> cont d
            then 4 else 0)
         | _ \<Rightarrow> 0)
      else 0)"

definition replacement :: string where "replacement = [CHR 0xEF, CHR 0xBF, CHR 0xBD]"

definition encode_rune :: "nat \<Rightarrow> string" where
  "encode_rune r =
     (if r < 0x80 then [char_of r]
      else if r < 0x800 then [char_of (0xC0 + r div 64), char_of (0x80 + r mod 64)]
      else if 0xD800 \<le> r \<and> r < 0xE000 then replacement
      else if r < 0x10000 then [char_of (0xE0 + r div 4096), char_of (0x80 + r div 64 mod 64), char_of (0x80 + r mod 64)]
      else [char_of (0xF0 + r div 262144), char_of (0x80 + r div 4096 mod 64), char_of (0x80 + r div 64 mod 64),
            char_of (0x80 + r mod 64)])"

definition hex_digit :: "char \<Rightarrow> nat option" where
  "hex_digit c =
     (if byte_in 48 57 c then Some (of_char c - 48)
      else if byte_in 97 102 c then Some (of_char c - 87)
      else if byte_in 65 70 c then Some (of_char c - 55)
      else None)"

fun hex4 :: "string \<Rightarrow> nat option" where
  "hex4 [a, b, c, d] =
     (case (hex_digit a, hex_digit b, hex_digit c, hex_digit d) of
        (Some w, Some x, Some y, Some z) \<Rightarrow> Some (((w * 16 + x) * 16 + y) * 16 + z)
      | _ \<Rightarrow> None)"
| "hex4 _ = None"

definition simple_escapes :: "(char \<times> char) list" where
  "simple_escapes =
     [(CHR 0x22, CHR 0x22), (CHR 0x5C, CHR 0x5C), (CHR ''/'', CHR ''/''), (CHR ''b'', CHR 8), (CHR ''f'', CHR 12),
      (CHR ''n'', CHR 10), (CHR ''r'', CHR 13), (CHR ''t'', CHR 9)]"

text \<open>
  The first escape or character of a string body: its text and how many bytes it took; nothing for a
  control character or a malformed escape. A surrogate that is not the first half of a pair becomes the
  replacement character, and so does a byte that starts no valid UTF-8 sequence.
\<close>

definition unit_of :: "string \<Rightarrow> (string \<times> nat) option" where
  "unit_of s =
     (case s of
        [] \<Rightarrow> None
      | c # r \<Rightarrow>
          (if c = CHR 0x5C then
             (case r of
                [] \<Rightarrow> None
              | e # r' \<Rightarrow>
                  (if e = CHR ''u'' then
                     (case hex4 (take 4 r') of
                        None \<Rightarrow> None
                      | Some u \<Rightarrow>
                          (if 0xD800 \<le> u \<and> u < 0xE000 then
                             (case (if take 2 (drop 4 r') = [CHR 0x5C, CHR ''u''] then hex4 (take 4 (drop 6 r')) else None) of
                                Some v \<Rightarrow>
                                  (if u < 0xDC00 \<and> 0xDC00 \<le> v \<and> v < 0xE000
                                   then Some (encode_rune (0x10000 + (u - 0xD800) * 1024 + (v - 0xDC00)), 12)
                                   else Some (replacement, 6))
                              | None \<Rightarrow> Some (replacement, 6))
                           else Some (encode_rune u, 6)))
                   else (case map_of simple_escapes e of None \<Rightarrow> None | Some x \<Rightarrow> Some ([x], 2))))
           else if byte_in 0 31 c then None
           else (case rune_len s of 0 \<Rightarrow> Some (replacement, 1) | n \<Rightarrow> Some (take n s, n))))"

text \<open>The text of a string literal after its opening quote, and what follows the closing one.\<close>

function string_lit :: "string \<Rightarrow> (string \<times> string) option" where
  "string_lit s =
     (case s of
        [] \<Rightarrow> None
      | c # r \<Rightarrow>
          (if c = CHR 0x22 then Some ([], r)
           else case unit_of s of
             None \<Rightarrow> None
           | Some (t, n) \<Rightarrow> map_option (\<lambda>(t', r'). (t @ t', r')) (string_lit (drop (max 1 n) s))))"
  by pat_completeness auto
termination by (relation "measure length") auto

declare string_lit.simps [simp del]

subsection \<open>Tokens\<close>

datatype tok = LBrace | RBrace | LBrack | RBrack | Colon | Comma | Lit json

definition is_space :: "char \<Rightarrow> bool" where
  "is_space c \<longleftrightarrow> c \<in> {CHR 32, CHR 9, CHR 13, CHR 10}"

abbreviation digit :: "char \<Rightarrow> bool" where "digit \<equiv> byte_in 48 57"

text \<open>
  A number as JSON writes it: an optional minus, an integer without superfluous zeros, an optional fraction
  and an optional exponent; the result is its text and the rest of the input.
\<close>

definition sign_part :: "string \<Rightarrow> string" where
  "sign_part s = (if take 1 s = ''-'' then ''-'' else '''')"

definition int_part :: "string \<Rightarrow> string" where
  "int_part s = (if take 1 s = ''0'' then ''0'' else takeWhile digit s)"

definition frac_part :: "string \<Rightarrow> string option" where
  "frac_part s =
     (if take 1 s \<noteq> ''.'' then Some ''''
      else let ds = takeWhile digit (drop 1 s) in if ds = '''' then None else Some (CHR ''.'' # ds))"

definition exp_part :: "string \<Rightarrow> string option" where
  "exp_part s =
     (if take 1 s \<noteq> ''e'' \<and> take 1 s \<noteq> ''E'' then Some ''''
      else let sg = (if take 1 (drop 1 s) = ''+'' \<or> take 1 (drop 1 s) = ''-'' then take 1 (drop 1 s) else '''');
               ds = takeWhile digit (drop (1 + length sg) s)
           in if ds = '''' then None else Some (take 1 s @ sg @ ds))"

definition number :: "string \<Rightarrow> (string \<times> string) option" where
  "number s =
     (let sg = sign_part s; s1 = drop (length sg) s; ip = int_part s1; s2 = drop (length ip) s1
      in if ip = '''' then None
         else case frac_part s2 of
           None \<Rightarrow> None
         | Some fp \<Rightarrow>
             (case exp_part (drop (length fp) s2) of
                None \<Rightarrow> None
              | Some ep \<Rightarrow> Some (sg @ ip @ fp @ ep, drop (length ep) (drop (length fp) s2))))"

definition tok_at :: "char \<Rightarrow> string \<Rightarrow> (tok \<times> string) option" where
  "tok_at c r =
     (if c = CHR ''{'' then Some (LBrace, r) else if c = CHR ''}'' then Some (RBrace, r)
      else if c = CHR ''['' then Some (LBrack, r) else if c = CHR '']'' then Some (RBrack, r)
      else if c = CHR '':'' then Some (Colon, r) else if c = CHR '','' then Some (Comma, r)
      else if c = CHR 0x22 then map_option (\<lambda>(t, r'). (Lit (JStr t), r')) (string_lit r)
      else if c # take 3 r = ''null'' then Some (Lit JNull, drop 3 r)
      else if c # take 3 r = ''true'' then Some (Lit (JBool True), drop 3 r)
      else if c # take 4 r = ''false'' then Some (Lit (JBool False), drop 4 r)
      else map_option (\<lambda>(t, r'). (Lit (JNum t), r')) (number (c # r)))"

definition next_tok :: "string \<Rightarrow> (tok \<times> string) option" where
  "next_tok s = (case dropWhile is_space s of [] \<Rightarrow> None | c # r \<Rightarrow> tok_at c r)"

lemma string_lit_Nil [simp]: "string_lit [] = None"
  by (simp add: string_lit.simps)

lemma string_lit_Cons:
  "string_lit (c # u) = (if c = CHR 0x22 then Some ([], u)
     else case unit_of (c # u) of None \<Rightarrow> None
        | Some (t, n) \<Rightarrow> map_option (\<lambda>(t', r'). (t @ t', r')) (string_lit (drop (max 1 n) (c # u))))"
  by (subst string_lit.simps) simp

lemma string_lit_shorter: "string_lit s = Some (t, r) \<Longrightarrow> length r < length s"
proof (induction "length s" arbitrary: s t r rule: less_induct)
  case less
  show ?case
  proof (cases s)
    case (Cons c u)
    show ?thesis
    proof (cases "c = CHR 0x22 \<or> unit_of (c # u) = None")
      case True
      then show ?thesis using less.prems Cons by (auto simp: string_lit_Cons split: if_splits)
    next
      case False
      then obtain x n where "unit_of (c # u) = Some (x, n)" by (cases "unit_of (c # u)") auto
      then obtain t' where "string_lit (drop (max 1 n) s) = Some (t', r)"
        using less.prems Cons False by (auto simp: string_lit_Cons)
      from less.hyps [OF _ this] Cons show ?thesis by simp
    qed
  qed (use less.prems in simp)
qed

lemma int_part_Nil: "int_part [] = []"
  by (simp add: int_part_def)

lemma number_shorter: "number s = Some (t, r) \<Longrightarrow> length r < length s"
proof -
  assume n: "number s = Some (t, r)"
  define s1 where "s1 = drop (length (sign_part s)) s"
  have ip: "int_part s1 \<noteq> []" using n by (auto simp: number_def s1_def Let_def)
  then have "s1 \<noteq> []" using int_part_Nil by metis
  moreover have "length r \<le> length s1 - length (int_part s1)"
    using n by (auto simp: number_def s1_def Let_def split: if_splits option.splits)
  moreover have "length s1 \<le> length s" by (simp add: s1_def)
  ultimately show ?thesis using ip by (cases s1; cases "int_part s1") auto
qed

lemma tok_at_shorter: "tok_at c u = Some (t, r) \<Longrightarrow> length r \<le> length u"
  using string_lit_shorter [of u _ r] number_shorter [of "c # u" _ r]
  by (auto simp: tok_at_def split: if_splits)

lemma next_tok_shorter: "next_tok s = Some (t, r) \<Longrightarrow> length r < length s"
proof (cases "dropWhile is_space s")
  case (Cons c u)
  moreover assume "next_tok s = Some (t, r)"
  ultimately have "length r \<le> length u" using tok_at_shorter [of c u t r] by (simp add: next_tok_def)
  moreover have "length (c # u) \<le> length s" using length_dropWhile_le [of is_space s] Cons by simp
  ultimately show ?thesis by simp
qed (simp add: next_tok_def)

subsection \<open>Values\<close>

text \<open>
  An open array with its elements so far, or an open object with its members so far and the key whose value
  is awaited; the mode says what the next token may be.
\<close>

datatype frame = FArr "json list" | FObj "(string \<times> json) list" "string option"
datatype mode = MVal | MFirst | MKey | MFirstKey | MColon | MAfter
datatype progress = Stuck | Finished json | More mode "frame list"

definition maxNestingDepth :: nat where "maxNestingDepth = 10000"

fun deliver :: "json \<Rightarrow> frame list \<Rightarrow> progress" where
  "deliver v [] = Finished v"
| "deliver v (FArr vs # st) = More MAfter (FArr (vs @ [v]) # st)"
| "deliver v (FObj kvs (Some k) # st) = More MAfter (FObj (kvs @ [(k, v)]) None # st)"
| "deliver v (FObj kvs None # st) = Stuck"

definition push :: "frame \<Rightarrow> mode \<Rightarrow> frame list \<Rightarrow> progress" where
  "push f m st = (if length st < maxNestingDepth then More m (f # st) else Stuck)"

fun step_tok :: "tok \<Rightarrow> mode \<Rightarrow> frame list \<Rightarrow> progress" where
  "step_tok (Lit v) MVal st = deliver v st"
| "step_tok (Lit v) MFirst st = deliver v st"
| "step_tok LBrace MVal st = push (FObj [] None) MFirstKey st"
| "step_tok LBrace MFirst st = push (FObj [] None) MFirstKey st"
| "step_tok LBrack MVal st = push (FArr []) MFirst st"
| "step_tok LBrack MFirst st = push (FArr []) MFirst st"
| "step_tok RBrack MFirst (FArr vs # st) = deliver (JArr vs) st"
| "step_tok (Lit (JStr k)) MKey (FObj kvs p # st) = More MColon (FObj kvs (Some k) # st)"
| "step_tok (Lit (JStr k)) MFirstKey (FObj kvs p # st) = More MColon (FObj kvs (Some k) # st)"
| "step_tok RBrace MFirstKey (FObj kvs p # st) = deliver (JObj kvs) st"
| "step_tok Colon MColon st = More MVal st"
| "step_tok Comma MAfter (FArr vs # st) = More MVal (FArr vs # st)"
| "step_tok Comma MAfter (FObj kvs p # st) = More MKey (FObj kvs p # st)"
| "step_tok RBrack MAfter (FArr vs # st) = deliver (JArr vs) st"
| "step_tok RBrace MAfter (FObj kvs p # st) = deliver (JObj kvs) st"
| "step_tok _ _ _ = Stuck"

function read_value :: "mode \<Rightarrow> frame list \<Rightarrow> string \<Rightarrow> json option" where
  "read_value m st s =
     (case next_tok s of
        None \<Rightarrow> None
      | Some (t, r) \<Rightarrow>
          (case step_tok t m st of
             Stuck \<Rightarrow> None
           | Finished v \<Rightarrow> Some v
           | More m' st' \<Rightarrow> read_value m' st' r))"
  by pat_completeness auto
termination by (relation "measure (\<lambda>(m, st, s). length s)") (auto dest: next_tok_shorter)

declare read_value.simps [simp del]

subsection \<open>Structs of string fields\<close>

text \<open>
  Field names match exactly or else under case folding, where the long s and the Kelvin sign fold to letters.
  A null leaves a field as it is; another kind of value, or an unknown name, is an error. Of two values for
  one field the later stays.
\<close>

fun fold_name :: "string \<Rightarrow> string" where
  "fold_name [] = []"
| "fold_name (a # s) =
     (if a = CHR 0xC5 \<and> take 1 s = [CHR 0xBF] then CHR ''s'' # fold_name (drop 1 s)
      else if a = CHR 0xE2 \<and> take 2 s = [CHR 0x84, CHR 0xAA] then CHR ''k'' # fold_name (drop 2 s)
      else ascii_lower a # fold_name s)"

definition field_name :: "string list \<Rightarrow> string \<Rightarrow> string option" where
  "field_name names k =
     (if k \<in> set names then Some k else find (\<lambda>n. fold_name n = fold_name k) names)"

fun assign_fields :: "string list \<Rightarrow> (string \<times> json) list \<Rightarrow> (string, string) gomap \<Rightarrow> (string, string) gomap option" where
  "assign_fields names [] m = Some m"
| "assign_fields names ((k, v) # kvs) m =
     (case (field_name names k, v) of
        (Some n, JStr x) \<Rightarrow> assign_fields names kvs (AList.update n x m)
      | (Some n, JNull) \<Rightarrow> assign_fields names kvs m
      | _ \<Rightarrow> None)"

definition decode_struct :: "string list \<Rightarrow> bytes \<Rightarrow> (string, string) gomap option" where
  "decode_struct names body =
     (case read_value MVal [] body of
        Some (JObj kvs) \<Rightarrow> assign_fields names kvs []
      | Some JNull \<Rightarrow> Some []
      | _ \<Rightarrow> None)"

definition field :: "(string, string) gomap \<Rightarrow> string \<Rightarrow> string" where
  "field m n = (case map_of m n of None \<Rightarrow> '''' | Some x \<Rightarrow> x)"

end
