(* ===== verification/Auth_Service.thy ===== *)
theory Auth_Service
  imports Memory_Store License Json Httpsec Memory_Backplane
begin

section \<open>The auth service: credentials, devices and connection tokens\<close>

text \<open>
  Models \<^verbatim>\<open>internal/authservice/service.go\<close>, \<^verbatim>\<open>auth.go\<close> and the account, device and token handlers of
  \<^verbatim>\<open>handlers.go\<close>. A handler takes the service, what the request reads from its surroundings, the request
  and the state, and returns the response with the new state. The store and the backplane are operation
  records, as the source has interfaces. SHA-256 and the JWT signature are the fields \<open>v_sha256\<close> and
  \<open>v_sign\<close>; log lines and metric counters are left out.
\<close>

subsection \<open>The service\<close>

record service =
  a_issuer :: string
  a_audience :: string
  a_tokenTTL :: duration
  a_refreshTTL :: duration
  a_pairingTokenTTL :: duration
  a_grace :: duration
  a_adminKey :: string
  a_relayURL :: string
  a_authURL :: string
  a_checkoutPriceID :: string
  a_claimTTL :: duration
  a_billingEnabled :: bool
  a_deviceCap :: int

definition defaultDeviceCap :: int where "defaultDeviceCap = 10"

definition NewService :: "service \<Rightarrow> service" where
  "NewService d =
     d\<lparr>a_pairingTokenTTL := (if a_pairingTokenTTL d \<le> 0 then 5 * minute else a_pairingTokenTTL d),
       a_claimTTL := (if a_claimTTL d \<le> 0 then 30 * minute else a_claimTTL d),
       a_deviceCap := (if a_deviceCap d \<le> 0 then defaultDeviceCap else a_deviceCap d)\<rparr>"

record ('s, 'b) svc =
  v_cfg :: service
  v_ops :: "'s store_ops"
  v_bps :: "'b bp_ops option"
  v_sha256 :: "bytes \<Rightarrow> bytes"
  v_sign :: "claims \<Rightarrow> string option"

text \<open>
  What a request reads from its surroundings: the successive readings of the service clock, the successive
  random reads, the wall clock and the token identifier the signer draws.
\<close>

record readings =
  r_now :: "nat \<Rightarrow> time"
  r_rand :: "nat \<Rightarrow> bytes"
  r_wall :: time
  r_jti :: string

record ('s, 'b) auth_state =
  au_store :: 's
  au_bp :: 'b

record qrPayload =
  qr_V :: int
  qr_PairingToken :: string
  qr_DesktopPubKey :: string
  qr_DesktopDeviceID :: string
  qr_Endpoints :: "(string, string) gomap"

datatype body =
  ErrorBody string
| AccountResp string string string
| DeviceResp string
| TokenResp string string int
| PairingTokenResp string int qrPayload
| CompletePairingResp string string string string
| PollPairingResp string string string
| StatusResp string
| FlagResp string
| StartCheckoutResp string int
| ClaimResp string string string string
| BillingPortalResp string
| SubscriptionResp string string int int string
| Text string
| RedirectTo string

type_synonym response = "nat \<times> body"

definition writeErr :: "nat \<Rightarrow> string \<Rightarrow> response" where "writeErr status code = (status, ErrorBody code)"

definition maxBodyBytes :: nat where "maxBodyBytes = 1048576"

definition decodeJSON :: "string list \<Rightarrow> request \<Rightarrow> (string, string) gomap option" where
  "decodeJSON names r = decode_struct names (take maxBodyBytes (rq_body r))"

lemma decodeJSON_code [code]:
  "decodeJSON names r = decode_struct names
     (if int (length (rq_body r)) \<le> 1048576 then rq_body r else take maxBodyBytes (rq_body r))"
  by (simp add: decodeJSON_def maxBodyBytes_def)

text \<open>Integer division of durations truncates toward zero.\<close>

definition trunc_div :: "int \<Rightarrow> int \<Rightarrow> int" where
  "trunc_div a b = sgn a * (\<bar>a\<bar> div b)"

subsection \<open>Credentials\<close>

definition hashSecret :: "(bytes \<Rightarrow> bytes) \<Rightarrow> string \<Rightarrow> string" where
  "hashSecret H secret = hex_EncodeToString (H secret)"

definition newAccountSecret :: "string \<Rightarrow> bytes \<Rightarrow> string" where
  "newAccountSecret accountID rnd = accountID @ ''.'' @ drop 2 (NewID ''s'' rnd)"

definition newPairCredential :: "string \<Rightarrow> bytes \<Rightarrow> string" where
  "newPairCredential pairID rnd = pairID @ ''.'' @ drop 3 (NewID ''pc'' rnd)"

definition bearer :: "request \<Rightarrow> string" where
  "bearer r =
     (let h = rq_authorization r; p = ''Bearer ''
      in if length h > length p \<and> EqualFold (take (length p) h) p then TrimSpace (drop (length p) h) else '''')"

definition authenticateAccount :: "('s, 'b) svc \<Rightarrow> request \<Rightarrow> 's \<Rightarrow> string option" where
  "authenticateAccount v r s =
     (let secret = bearer r
      in if secret = '''' then None
         else case Cut CHR ''.'' secret of
           (accountID, _, ok) \<Rightarrow>
             (if \<not> ok \<or> accountID = '''' then None
              else case st_GetAccount (v_ops v) s accountID of
                Inl e \<Rightarrow> None
              | Inr acct \<Rightarrow>
                  (if acc_SecretHash acct = '''' then None
                   else if hashSecret (v_sha256 v) secret \<noteq> acc_SecretHash acct then None
                   else Some accountID)))"

definition authenticatePair :: "('s, 'b) svc \<Rightarrow> time \<Rightarrow> request \<Rightarrow> 's \<Rightarrow> pair_credential option" where
  "authenticatePair v now r s =
     (let secret = bearer r
      in if secret = '''' then None
         else case Cut CHR ''.'' secret of
           (pairID, _, ok) \<Rightarrow>
             (if \<not> ok \<or> pairID = '''' then None
              else case st_GetPairCredential (v_ops v) s pairID of
                Inl e \<Rightarrow> None
              | Inr cred \<Rightarrow>
                  (if pc_SecretHash cred = '''' \<or> \<not> pc_Active cred now then None
                   else if hashSecret (v_sha256 v) secret \<noteq> pc_SecretHash cred then None
                   else Some cred)))"

definition authenticateAccountOrPair ::
  "('s, 'b) svc \<Rightarrow> time \<Rightarrow> request \<Rightarrow> 's \<Rightarrow> (string \<times> pair_credential option) option" where
  "authenticateAccountOrPair v now r s =
     (case authenticateAccount v r s of
        Some accountID \<Rightarrow> Some (accountID, None)
      | None \<Rightarrow>
          (case authenticatePair v now r s of
             Some cred \<Rightarrow> Some (pc_AccountID cred, Some cred)
           | None \<Rightarrow> None))"

definition authorizeAdmin :: "('s, 'b) svc \<Rightarrow> request \<Rightarrow> bool" where
  "authorizeAdmin v r \<longleftrightarrow> a_adminKey (v_cfg v) \<noteq> '''' \<and> bearer r = a_adminKey (v_cfg v)"

subsection \<open>Accounts and open licences\<close>

text \<open>
  \<^verbatim>\<open>now.AddDate(100, 0, 0)\<close> in UTC: the same month and day a hundred years later, where 29 February becomes
  1 March in a year that is not a leap year. Days count from 1 January of year 1.
\<close>

definition leap :: "int \<Rightarrow> bool" where
  "leap y \<longleftrightarrow> y mod 4 = 0 \<and> (y mod 100 \<noteq> 0 \<or> y mod 400 = 0)"

definition year_start :: "int \<Rightarrow> int" where
  "year_start y = 365 * (y - 1) + (y - 1) div 4 - (y - 1) div 100 + (y - 1) div 400"

definition year_of :: "int \<Rightarrow> int" where
  "year_of d =
     (let n400 = d div 146097; r = d mod 146097; n100 = min 3 (r div 36524); r2 = r - n100 * 36524;
          n4 = r2 div 1461; n1 = min 3 (r2 mod 1461 div 365)
      in 400 * n400 + 100 * n100 + 4 * n4 + n1 + 1)"

definition add_years :: "int \<Rightarrow> time \<Rightarrow> time" where
  "add_years n t =
     (let dayns = 86400 * second; d = t div dayns; y = year_of d; doy = d - year_start y; y' = y + n;
          doy' = (if leap y = leap y' \<or> doy < 59 then doy
                  else if leap y then (if doy = 59 then 59 else doy - 1)
                  else doy + 1)
      in (year_start y' + doy') * dayns + t mod dayns)"

definition openLicenseMaxPairs :: int where "openLicenseMaxPairs = 1"

definition provisionOpenLicense ::
  "('s, 'b) svc \<Rightarrow> time \<Rightarrow> bytes \<Rightarrow> bytes \<Rightarrow> string \<Rightarrow> 's \<Rightarrow> (store_error + string \<times> string) \<times> 's" where
  "provisionOpenLicense v now rnd1 rnd2 accountID s =
     (case st_ListLicensesByAccount (v_ops v) s accountID of
        Inl e \<Rightarrow> (Inl e, s)
      | Inr existing \<Rightarrow>
          (case find (\<lambda>l. lic_Status l = LicenseActive) existing of
             Some l \<Rightarrow> (Inr (lic_ID l, lic_SubscriptionID l), s)
           | None \<Rightarrow>
               (let sub = \<lparr>sub_ID = NewID ''sub'' rnd1, sub_AccountID = accountID, sub_Status = SubActive,
                      sub_MaxPairs = openLicenseMaxPairs, sub_CurrentPeriodEnd = add_years 100 now,
                      sub_GraceUntil = 0, sub_UpdatedAt = now\<rparr>
                in case st_UpsertSubscription (v_ops v) sub s of
                     (Some e, s) \<Rightarrow> (Inl e, s)
                   | (None, s) \<Rightarrow>
                       (let lic = \<lparr>lic_ID = NewKey rnd2, lic_AccountID = accountID, lic_SubscriptionID = sub_ID sub,
                              lic_SubscriptionItemID = '''', lic_Status = LicenseActive, lic_CreatedAt = now\<rparr>
                        in case st_CreateLicense (v_ops v) lic s of
                             (Some e, s) \<Rightarrow> (Inl e, s)
                           | (None, s) \<Rightarrow> (Inr (lic_ID lic, sub_ID sub), s)))))"

definition accountReq :: "string list" where "accountReq = [''account_id'']"

definition handleCreateAccount :: "('s, 'b) svc \<Rightarrow> readings \<Rightarrow> request \<Rightarrow> 's \<Rightarrow> response \<times> 's" where
  "handleCreateAccount v rd r s =
     (if \<not> authorizeAdmin v r then (writeErr 403 ''forbidden'', s)
      else case decodeJSON accountReq r of
        None \<Rightarrow> (writeErr 400 ''bad_request'', s)
      | Some req \<Rightarrow>
          (let accountID = field req ''account_id''
           in if accountID = '''' then (writeErr 400 ''bad_request'', s)
              else
                let secret = newAccountSecret accountID (r_rand rd 0);
                    acct = \<lparr>acc_ID = accountID, acc_StripeCustomerID = '''',
                      acc_SecretHash = hashSecret (v_sha256 v) secret, acc_CreatedAt = r_now rd 0\<rparr>
                in case st_UpsertAccount (v_ops v) acct s of
                     (Some e, s) \<Rightarrow> (writeErr 500 ''store_error'', s)
                   | (None, s) \<Rightarrow>
                       (if a_billingEnabled (v_cfg v) then ((200, AccountResp accountID secret ''''), s)
                        else case provisionOpenLicense v (r_now rd 1) (r_rand rd 1) (r_rand rd 2) accountID s of
                               (Inl e, s) \<Rightarrow> (writeErr 500 ''store_error'', s)
                             | (Inr (licID, _), s) \<Rightarrow> ((200, AccountResp accountID secret licID), s))))"

subsection \<open>Devices\<close>

datatype device_error = DeviceLimit | DeviceStoreError store_error

definition len_key :: "bytes option \<Rightarrow> nat" where
  "len_key k = (case k of None \<Rightarrow> 0 | Some b \<Rightarrow> length b)"

definition registerOrFindDevice ::
  "('s, 'b) svc \<Rightarrow> time \<Rightarrow> bytes \<Rightarrow> string \<Rightarrow> role \<Rightarrow> bytes option \<Rightarrow> 's \<Rightarrow> (device_error + device) \<times> 's" where
  "registerOrFindDevice v now rnd accountID role pub s =
     (let existing = (if len_key pub > 0
                      then st_FindDeviceByAccountRoleKey (v_ops v) s accountID role (the pub)
                      else Inl ErrNotFound)
      in case existing of
           Inr d \<Rightarrow> (Inr d, s)
         | Inl e \<Rightarrow>
             (if e \<noteq> ErrNotFound then (Inl (DeviceStoreError e), s)
              else case st_CountDevicesByAccount (v_ops v) s accountID of
                Inl e \<Rightarrow> (Inl (DeviceStoreError e), s)
              | Inr count \<Rightarrow>
                  (if int count \<ge> a_deviceCap (v_cfg v) then (Inl DeviceLimit, s)
                   else let dev = \<lparr>dev_ID = NewID ''dev'' rnd, dev_AccountID = accountID, dev_Role = role,
                              dev_PublicKey = pub, dev_CreatedAt = now\<rparr>
                        in case st_UpsertDevice (v_ops v) dev s of
                             (Some e, s) \<Rightarrow> (Inl (DeviceStoreError e), s)
                           | (None, s) \<Rightarrow> (Inr dev, s))))"

definition deviceReq :: "string list" where "deviceReq = [''role'', ''public_key'']"

definition handleRegisterDevice :: "('s, 'b) svc \<Rightarrow> readings \<Rightarrow> request \<Rightarrow> 's \<Rightarrow> response \<times> 's" where
  "handleRegisterDevice v rd r s =
     (case authenticateAccount v r s of
        None \<Rightarrow> (writeErr 401 ''unauthorized'', s)
      | Some accountID \<Rightarrow>
          (case decodeJSON deviceReq r of
             None \<Rightarrow> (writeErr 400 ''bad_request'', s)
           | Some req \<Rightarrow>
               (let role = field req ''role''; key = field req ''public_key'';
                    pub = (if key = '''' then Some None else map_option Some (base64_DecodeString key))
                in if \<not> role_Valid role then (writeErr 400 ''bad_role'', s)
                   else case pub of
                     None \<Rightarrow> (writeErr 400 ''bad_public_key'', s)
                   | Some pub \<Rightarrow>
                       (case registerOrFindDevice v (r_now rd 0) (r_rand rd 0) accountID role pub s of
                          (Inl DeviceLimit, s) \<Rightarrow> (writeErr 409 ''device_limit'', s)
                        | (Inl (DeviceStoreError e), s) \<Rightarrow> (writeErr 500 ''store_error'', s)
                        | (Inr dev, s) \<Rightarrow> ((200, DeviceResp (dev_ID dev)), s)))))"

subsection \<open>Validity helpers\<close>

definition pairingHasDevice :: "pairing \<Rightarrow> device \<Rightarrow> bool" where
  "pairingHasDevice p dev \<longleftrightarrow>
     (if dev_Role dev = RoleMobile then pr_MobileDeviceID p = dev_ID dev
      else if dev_Role dev = RoleDesktop then pr_DesktopDeviceID p = dev_ID dev
      else False)"

definition deviceForRole :: "('s, 'b) svc \<Rightarrow> string \<Rightarrow> string \<Rightarrow> role \<Rightarrow> 's \<Rightarrow> device option" where
  "deviceForRole v deviceID accountID role s =
     (case st_GetDevice (v_ops v) s deviceID of
        Inl e \<Rightarrow> None
      | Inr dev \<Rightarrow> (if dev_AccountID dev \<noteq> accountID \<or> dev_Role dev \<noteq> role then None else Some dev))"

definition licenseIssuable :: "('s, 'b) svc \<Rightarrow> time \<Rightarrow> license \<Rightarrow> 's \<Rightarrow> bool" where
  "licenseIssuable v now lic s \<longleftrightarrow>
     (if lic_Status lic \<noteq> LicenseActive then False
      else if \<not> a_billingEnabled (v_cfg v) then True
      else case st_GetSubscription (v_ops v) s (lic_SubscriptionID lic) of
             Inl e \<Rightarrow> False
           | Inr sub \<Rightarrow> Issuable (Evaluate sub now))"

definition pairingIssuable :: "('s, 'b) svc \<Rightarrow> time \<Rightarrow> pairing \<Rightarrow> 's \<Rightarrow> license option" where
  "pairingIssuable v now p s =
     (case st_GetLicense (v_ops v) s (pr_LicenseID p) of
        Inl e \<Rightarrow> None
      | Inr lic \<Rightarrow> (if licenseIssuable v now lic s then Some lic else None))"

definition publishRevocation :: "('s, 'b) svc \<Rightarrow> revocation_event \<Rightarrow> 'b \<Rightarrow> 'b" where
  "publishRevocation v ev b =
     (case v_bps v of None \<Rightarrow> b | Some bops \<Rightarrow> snd (PublishRevocation bops ev b))"

subsection \<open>Connection tokens\<close>

definition rejectToken :: "nat \<Rightarrow> string \<Rightarrow> response" where "rejectToken status code = writeErr status code"

definition token_params_for :: "('s, 'b) svc \<Rightarrow> string \<Rightarrow> pairing \<Rightarrow> device \<Rightarrow> license \<Rightarrow> token_params" where
  "token_params_for v accountID p dev lic =
     \<lparr>tp_Issuer = a_issuer (v_cfg v), tp_Audience = a_audience (v_cfg v), tp_AccountID = accountID,
      tp_PairID = pr_PairID p, tp_DeviceID = dev_ID dev, tp_Role = dev_Role dev, tp_LicenseID = lic_ID lic,
      tp_TTL = a_tokenTTL (v_cfg v), tp_IssuedAt = 0\<rparr>"

lemma minted_claims:
  "Mint_claims clock jti (token_params_for v acct p dev lic) =
     \<lparr>c_Issuer = a_issuer (v_cfg v), c_Audience = [a_audience (v_cfg v)], c_Subject = ''device:'' @ dev_ID dev, c_ID = jti,
      c_IssuedAt = Some (NewNumericDate clock), c_ExpiresAt = Some (NewNumericDate (clock + a_tokenTTL (v_cfg v))),
      c_AccountID = acct, c_PairID = pr_PairID p, c_DeviceID = dev_ID dev, c_Role = dev_Role dev, c_LicenseID = lic_ID lic\<rparr>"
  by (simp add: Mint_claims_def token_params_for_def IsZero_def)

text \<open>\<open>now\<close> is the clock when the refresh token is built, \<open>rnd\<close> its random part.\<close>

definition issueTokenPair ::
  "('s, 'b) svc \<Rightarrow> readings \<Rightarrow> time \<Rightarrow> bytes \<Rightarrow> string \<Rightarrow> pairing \<Rightarrow> device \<Rightarrow> license \<Rightarrow> 's \<Rightarrow> response \<times> 's" where
  "issueTokenPair v rd now rnd accountID p dev lic s =
     (case v_sign v (Mint_claims (r_wall rd) (r_jti rd) (token_params_for v accountID p dev lic)) of
        None \<Rightarrow> (rejectToken 500 ''sign_error'', s)
      | Some jwtStr \<Rightarrow>
          (let refreshSecret = NewID ''rt'' rnd;
               rt = \<lparr>rt_ID = hashSecret (v_sha256 v) refreshSecret, rt_DeviceID = dev_ID dev, rt_AccountID = accountID,
                 rt_PairID = pr_PairID p, rt_ExpiresAt = now + a_refreshTTL (v_cfg v), rt_RevokedAt = 0\<rparr>
           in case st_PutRefreshToken (v_ops v) rt s of
                (Some e, s) \<Rightarrow> (rejectToken 500 ''store_error'', s)
              | (None, s) \<Rightarrow> ((200, TokenResp jwtStr refreshSecret (trunc_div (a_tokenTTL (v_cfg v)) second)), s)))"

definition tokenReq :: "string list" where "tokenReq = [''device_id'', ''pair_id'']"

definition handleIssueToken :: "('s, 'b) svc \<Rightarrow> readings \<Rightarrow> request \<Rightarrow> 's \<Rightarrow> response \<times> 's" where
  "handleIssueToken v rd r s =
     (case authenticateAccountOrPair v (r_now rd 0) r s of
        None \<Rightarrow> (writeErr 401 ''unauthorized'', s)
      | Some (accountID, cred) \<Rightarrow>
          (case decodeJSON tokenReq r of
             None \<Rightarrow> (rejectToken 400 ''bad_request'', s)
           | Some req \<Rightarrow>
               (let deviceID = field req ''device_id''; pairID = field req ''pair_id''
                in if deviceID = '''' \<or> pairID = '''' then (rejectToken 400 ''bad_request'', s)
                   else if (case cred of None \<Rightarrow> False
                            | Some c \<Rightarrow> pc_PairID c \<noteq> pairID \<or> pc_MobileDeviceID c \<noteq> deviceID)
                     then (rejectToken 403 ''pairing_invalid'', s)
                   else case st_GetPairing (v_ops v) s pairID of
                     Inl e \<Rightarrow> (rejectToken 403 ''pairing_invalid'', s)
                   | Inr p \<Rightarrow>
                       (if pr_AccountID p \<noteq> accountID \<or> pr_Status p \<noteq> PairingActive
                        then (rejectToken 403 ''pairing_invalid'', s)
                        else case st_GetDevice (v_ops v) s deviceID of
                          Inl e \<Rightarrow> (rejectToken 403 ''device_invalid'', s)
                        | Inr dev \<Rightarrow>
                            (if dev_AccountID dev \<noteq> accountID then (rejectToken 403 ''device_invalid'', s)
                             else if \<not> pairingHasDevice p dev then (rejectToken 403 ''device_not_in_pairing'', s)
                             else case pairingIssuable v (r_now rd 1) p s of
                               None \<Rightarrow> (rejectToken 403 ''license_invalid'', s)
                             | Some lic \<Rightarrow> issueTokenPair v rd (r_now rd 2) (r_rand rd 0) accountID p dev lic s)))))"

definition refreshReq :: "string list" where "refreshReq = [''refresh_token'']"

text \<open>The errors of the deferred revocations are ignored in the source; only their new state is kept.\<close>

definition handleRefreshToken ::
  "('s, 'b) svc \<Rightarrow> readings \<Rightarrow> request \<Rightarrow> ('s, 'b) auth_state \<Rightarrow> response \<times> ('s, 'b) auth_state" where
  "handleRefreshToken v rd r st =
     (let s = au_store st; revokeOne = (\<lambda>k. st\<lparr>au_store := snd (st_RevokeRefreshToken (v_ops v) (r_wall rd) k s)\<rparr>)
      in case decodeJSON refreshReq r of
        None \<Rightarrow> (rejectToken 400 ''bad_request'', st)
      | Some req \<Rightarrow>
          (let presented = field req ''refresh_token''
           in if presented = '''' then (rejectToken 400 ''bad_request'', st)
              else case st_GetRefreshToken (v_ops v) s (hashSecret (v_sha256 v) presented) of
                Inl e \<Rightarrow> (rejectToken 401 ''refresh_invalid'', st)
              | Inr rt \<Rightarrow>
                  (if \<not> rt_Active rt (r_now rd 0) then
                     (rejectToken 401 ''refresh_invalid'',
                      if IsZero (rt_RevokedAt rt) then st
                      else st\<lparr>au_store := snd (st_RevokeRefreshTokensByDevice (v_ops v) (rt_DeviceID rt) (r_now rd 1) s),
                              au_bp := publishRevocation v \<lparr>re_PairID = rt_PairID rt, re_AccountID = rt_AccountID rt\<rparr> (au_bp st)\<rparr>)
                   else case st_GetPairing (v_ops v) s (rt_PairID rt) of
                     Inl e \<Rightarrow> (rejectToken 403 ''pairing_invalid'', revokeOne (rt_ID rt))
                   | Inr p \<Rightarrow>
                       (if pr_Status p \<noteq> PairingActive then (rejectToken 403 ''pairing_invalid'', revokeOne (rt_ID rt))
                        else case st_GetDevice (v_ops v) s (rt_DeviceID rt) of
                          Inl e \<Rightarrow> (rejectToken 403 ''device_invalid'', st)
                        | Inr dev \<Rightarrow>
                            (if dev_AccountID dev \<noteq> rt_AccountID rt then (rejectToken 403 ''device_invalid'', st)
                             else if \<not> pairingHasDevice p dev
                               then (rejectToken 403 ''device_not_in_pairing'', revokeOne (rt_ID rt))
                             else case pairingIssuable v (r_now rd 1) p s of
                               None \<Rightarrow> (rejectToken 403 ''license_invalid'', revokeOne (rt_ID rt))
                             | Some lic \<Rightarrow>
                                 (case st_ConsumeRefreshToken (v_ops v) (rt_ID rt) (r_now rd 2) s of
                                    (Some e, s) \<Rightarrow> (rejectToken 401 ''refresh_invalid'', st\<lparr>au_store := s\<rparr>)
                                  | (None, s) \<Rightarrow>
                                      (case issueTokenPair v rd (r_now rd 3) (r_rand rd 0) (rt_AccountID rt) p dev lic s of
                                         (resp, s) \<Rightarrow> (resp, st\<lparr>au_store := s\<rparr>))))))))"

subsection \<open>Health and keys\<close>

definition handleHealth :: "('s, 'b) svc \<Rightarrow> 's \<Rightarrow> response" where
  "handleHealth v s =
     (case st_HealthCheck (v_ops v) s of
        Some e \<Rightarrow> writeErr 503 ''store_unavailable''
      | None \<Rightarrow> (200, StatusResp ''ok''))"

text \<open>\<open>doc\<close> is the key document of the signer, nothing when it cannot be built.\<close>

definition handleJWKS :: "bytes option \<Rightarrow> response" where
  "handleJWKS doc = (case doc of None \<Rightarrow> writeErr 500 ''jwks_error'' | Some d \<Rightarrow> (200, Text d))"

subsection \<open>What a token needs\<close>

text \<open>
  \<open>entitled cfg d now acct p dev lic\<close>: in the database \<open>d\<close> at \<open>now\<close>, the account may hold a connection token
  for the pairing \<open>p\<close> and the device \<open>dev\<close> under the licence \<open>lic\<close>.
\<close>

definition entitled :: "service \<Rightarrow> db \<Rightarrow> time \<Rightarrow> string \<Rightarrow> pairing \<Rightarrow> device \<Rightarrow> license \<Rightarrow> bool" where
  "entitled cfg d now acct p dev lic \<longleftrightarrow>
     db_pairings d (pr_PairID p) = Some p \<and> pr_Status p = PairingActive \<and>
     db_devices d (dev_ID dev) = Some dev \<and> dev_AccountID dev = acct \<and> role_Valid (dev_Role dev) \<and>
     dev_ID dev = (if dev_Role dev = RoleMobile then pr_MobileDeviceID p else pr_DesktopDeviceID p) \<and>
     db_licenses d (lic_ID lic) = Some lic \<and> pr_LicenseID p = lic_ID lic \<and> lic_Status lic = LicenseActive \<and>
     (a_billingEnabled cfg \<longrightarrow>
        (\<exists>sub. db_subscriptions d (lic_SubscriptionID lic) = Some sub \<and> Issuable (Evaluate sub now)))"

text \<open>\<open>account_bearer\<close> and \<open>pair_bearer\<close>: the bearer is a secret stored for the account, or an active pair credential.\<close>

definition account_bearer :: "(bytes \<Rightarrow> bytes) \<Rightarrow> db \<Rightarrow> request \<Rightarrow> string \<Rightarrow> bool" where
  "account_bearer H d r acct \<longleftrightarrow>
     (\<exists>a. db_accounts d acct = Some a \<and> acc_SecretHash a = hashSecret H (bearer r) \<and> prefix (acct @ ''.'') (bearer r))"

definition pair_bearer :: "(bytes \<Rightarrow> bytes) \<Rightarrow> db \<Rightarrow> time \<Rightarrow> request \<Rightarrow> pair_credential \<Rightarrow> bool" where
  "pair_bearer H d now r c \<longleftrightarrow>
     db_pairCredentials d (pc_PairID c) = Some c \<and> pc_Active c now \<and> pc_SecretHash c = hashSecret H (bearer r) \<and>
     prefix (pc_PairID c @ ''.'') (bearer r)"

lemma pairingHasDevice_iff:
  "pairingHasDevice p dev \<longleftrightarrow> role_Valid (dev_Role dev) \<and>
     dev_ID dev = (if dev_Role dev = RoleMobile then pr_MobileDeviceID p else pr_DesktopDeviceID p)"
  by (auto simp: pairingHasDevice_def role_Valid_def)

lemma Cut_prefix: "Cut c s = (a, b, True) \<Longrightarrow> prefix (a @ [c]) s"
  using Cut_found [of c s a b] by (auto simp: prefix_def)

lemma authenticateAccountOrPair_Some:
  "authenticateAccountOrPair v now r s = Some (acct, cred) \<Longrightarrow>
     cred = None \<and> authenticateAccount v r s = Some acct \<or>
     (\<exists>c. cred = Some c \<and> pc_AccountID c = acct \<and> authenticatePair v now r s = Some c)"
  by (cases "authenticateAccount v r s"; cases "authenticatePair v now r s"; simp add: authenticateAccountOrPair_def; blast)

lemma issueTokenPair_200:
  assumes "issueTokenPair v rd now rnd acct p dev lic s = ((200, b), s')"
  shows "\<exists>jwt. v_sign v (Mint_claims (r_wall rd) (r_jti rd) (token_params_for v acct p dev lic)) = Some jwt \<and>
    b = TokenResp jwt (NewID ''rt'' rnd) (trunc_div (a_tokenTTL (v_cfg v)) second) \<and>
    st_PutRefreshToken (v_ops v) \<lparr>rt_ID = hashSecret (v_sha256 v) (NewID ''rt'' rnd), rt_DeviceID = dev_ID dev,
      rt_AccountID = acct, rt_PairID = pr_PairID p, rt_ExpiresAt = now + a_refreshTTL (v_cfg v), rt_RevokedAt = 0\<rparr> s
      = (None, s')"
  using assms by (auto simp: issueTokenPair_def Let_def rejectToken_def writeErr_def split: option.splits prod.splits)

context auth_store
begin

lemma account_bearerI:
  assumes "v_ops v = ops" and "inv s" and "authenticateAccount v r s = Some acct"
  shows "acct \<noteq> '''' \<and> account_bearer (v_sha256 v) (view s) r acct"
proof -
  obtain rest acc where c: "Cut CHR ''.'' (bearer r) = (acct, rest, True)" "acct \<noteq> ''''"
    and g: "st_GetAccount ops s acct = Inr acc" "acc_SecretHash acc = hashSecret (v_sha256 v) (bearer r)"
    using assms(1,3) by (auto simp: authenticateAccount_def Let_def split: prod.splits sum.splits if_splits)
  then show ?thesis using get_account [OF assms(2), of acct] Cut_prefix [OF c(1)]
    by (auto simp: account_bearer_def)
qed

lemma pair_bearerI:
  assumes "v_ops v = ops" and "inv s" and "authenticatePair v now r s = Some cred"
  shows "pair_bearer (v_sha256 v) (view s) now r cred"
proof -
  obtain rest pid where c: "Cut CHR ''.'' (bearer r) = (pid, rest, True)"
    and g: "st_GetPairCredential ops s pid = Inr cred" "pc_SecretHash cred = hashSecret (v_sha256 v) (bearer r)"
      "pc_Active cred now"
    using assms(1,3) by (auto simp: authenticatePair_def Let_def split: prod.splits sum.splits if_splits)
  then have "db_pairCredentials (view s) pid = Some cred" using get_credential [OF assms(2), of pid] by simp
  moreover then have "pc_PairID cred = pid" using view_ok [OF assms(2)] by (simp add: db_ok_def)
  ultimately show ?thesis using g Cut_prefix [OF c] by (simp add: pair_bearer_def)
qed

lemma pairingIssuable_entitled:
  assumes "v_ops v = ops" and "inv s" and "pairingIssuable v now p s = Some lic"
    and "st_GetPairing ops s k = Inr p" and "pr_Status p = PairingActive"
    and "st_GetDevice ops s k' = Inr dev" and "pairingHasDevice p dev"
  shows "pr_PairID p = k \<and> dev_ID dev = k' \<and> entitled (v_cfg v) (view s) now (dev_AccountID dev) p dev lic"
proof -
  have ok: "db_ok (view s)" using assms(2) by (rule view_ok)
  have p: "db_pairings (view s) k = Some p" using get_pairing [OF assms(2), of k] assms(4) by simp
  have d: "db_devices (view s) k' = Some dev" using get_device [OF assms(2), of k'] assms(6) by simp
  from assms(1,3) have l: "st_GetLicense ops s (pr_LicenseID p) = Inr lic" and i: "licenseIssuable v now lic s"
    by (auto simp: pairingIssuable_def split: sum.splits if_splits)
  have lic: "db_licenses (view s) (pr_LicenseID p) = Some lic" using get_license [OF assms(2), of "pr_LicenseID p"] l by simp
  have "lic_Status lic = LicenseActive \<and> (a_billingEnabled (v_cfg v) \<longrightarrow>
      (\<exists>sub. db_subscriptions (view s) (lic_SubscriptionID lic) = Some sub \<and> Issuable (Evaluate sub now)))"
    using i assms(1) get_subscription [OF assms(2), of "lic_SubscriptionID lic"]
    by (auto simp: licenseIssuable_def split: if_splits sum.splits)
  moreover have "pr_PairID p = k" "dev_ID dev = k'" "lic_ID lic = pr_LicenseID p"
    using ok p d lic by (auto simp: db_ok_def)
  ultimately show ?thesis using p d lic assms(5,7) by (auto simp: entitled_def pairingHasDevice_iff)
qed

lemma issue_sound:
  assumes "v_ops v = ops" and "inv s" and "handleIssueToken v rd r s = ((200, b), s')"
  shows "\<exists>req acct p dev lic jwt. decodeJSON tokenReq r = Some req \<and>
    field req ''pair_id'' = pr_PairID p \<and> field req ''device_id'' = dev_ID dev \<and>
    b = TokenResp jwt (NewID ''rt'' (r_rand rd 0)) (trunc_div (a_tokenTTL (v_cfg v)) second) \<and>
    v_sign v (Mint_claims (r_wall rd) (r_jti rd) (token_params_for v acct p dev lic)) = Some jwt \<and>
    entitled (v_cfg v) (view s) (r_now rd 1) acct p dev lic \<and> pr_AccountID p = acct \<and>
    (account_bearer (v_sha256 v) (view s) r acct \<or>
     (\<exists>c. pair_bearer (v_sha256 v) (view s) (r_now rd 0) r c \<and> pc_AccountID c = acct \<and> pc_PairID c = pr_PairID p \<and>
        pc_MobileDeviceID c = dev_ID dev))"
proof -
  obtain acct cred req p dev lic where
    au: "authenticateAccountOrPair v (r_now rd 0) r s = Some (acct, cred)" and
    q: "decodeJSON tokenReq r = Some req" and
    sc: "(case cred of None \<Rightarrow> False
          | Some c \<Rightarrow> pc_PairID c \<noteq> field req ''pair_id'' \<or> pc_MobileDeviceID c \<noteq> field req ''device_id'') = False" and
    p: "st_GetPairing ops s (field req ''pair_id'') = Inr p" "pr_AccountID p = acct" "pr_Status p = PairingActive" and
    d: "st_GetDevice ops s (field req ''device_id'') = Inr dev" "dev_AccountID dev = acct" "pairingHasDevice p dev" and
    l: "pairingIssuable v (r_now rd 1) p s = Some lic" and
    i: "issueTokenPair v rd (r_now rd 2) (r_rand rd 0) acct p dev lic s = ((200, b), s')"
    using assms(1,3)
    by (auto simp: handleIssueToken_def Let_def rejectToken_def writeErr_def
        split: option.splits prod.splits if_splits sum.splits)
  note e = pairingIssuable_entitled [OF assms(1,2) l p(1,3) d(1,3)]
  from au consider "cred = None" "authenticateAccount v r s = Some acct"
    | c where "cred = Some c" "pc_AccountID c = acct" "authenticatePair v (r_now rd 0) r s = Some c"
    by (meson authenticateAccountOrPair_Some)
  then have "account_bearer (v_sha256 v) (view s) r acct \<or>
     (\<exists>c. pair_bearer (v_sha256 v) (view s) (r_now rd 0) r c \<and> pc_AccountID c = acct \<and> pc_PairID c = pr_PairID p \<and>
        pc_MobileDeviceID c = dev_ID dev)"
    using account_bearerI [OF assms(1,2)] pair_bearerI [OF assms(1,2)] sc e by cases auto
  with issueTokenPair_200 [OF i] e d(2) p(2) q show ?thesis by metis
qed

end

definition presented :: "request \<Rightarrow> string" where
  "presented r = (case decodeJSON refreshReq r of None \<Rightarrow> '''' | Some req \<Rightarrow> field req ''refresh_token'')"

context auth_store
begin

lemma refresh_200:
  assumes "v_ops v = ops" and "inv (au_store st)" and "handleRefreshToken v rd r st = ((200, b), st')"
  obtains rt p dev lic s1 where
    "presented r \<noteq> ''''" "db_refreshTokens (view (au_store st)) (hashSecret (v_sha256 v) (presented r)) = Some rt"
    "rt_Active rt (r_now rd 0)" "entitled (v_cfg v) (view (au_store st)) (r_now rd 1) (rt_AccountID rt) p dev lic"
    "pr_PairID p = rt_PairID rt" "dev_ID dev = rt_DeviceID rt"
    "exec ops (ConsumeRefreshToken (rt_ID rt) (r_now rd 2)) (au_store st) = (Done, s1)"
    "issueTokenPair v rd (r_now rd 3) (r_rand rd 0) (rt_AccountID rt) p dev lic s1 = ((200, b), au_store st')"
    "au_bp st' = au_bp st"
proof -
  let ?s = "au_store st"
  obtain rt p dev lic s1 s2 where
    req: "presented r \<noteq> ''''" and
    rt: "st_GetRefreshToken ops ?s (hashSecret (v_sha256 v) (presented r)) = Inr rt" "rt_Active rt (r_now rd 0)" and
    p: "st_GetPairing ops ?s (rt_PairID rt) = Inr p" "pr_Status p = PairingActive" and
    d: "st_GetDevice ops ?s (rt_DeviceID rt) = Inr dev" "dev_AccountID dev = rt_AccountID rt" "pairingHasDevice p dev" and
    l: "pairingIssuable v (r_now rd 1) p ?s = Some lic" and
    c: "st_ConsumeRefreshToken ops (rt_ID rt) (r_now rd 2) ?s = (None, s1)" and
    i: "issueTokenPair v rd (r_now rd 3) (r_rand rd 0) (rt_AccountID rt) p dev lic s1 = ((200, b), s2)" and
    st': "st' = st\<lparr>au_store := s2\<rparr>"
    using assms(1,3)
    by (auto simp: handleRefreshToken_def presented_def Let_def rejectToken_def writeErr_def
        split: option.splits prod.splits if_splits sum.splits)
  have "db_refreshTokens (view ?s) (hashSecret (v_sha256 v) (presented r)) = Some rt"
    using get_refresh [OF assms(2)] rt(1) by (metis answer_Inr)
  with that req rt(2) pairingIssuable_entitled [OF assms(1,2) l p d(1,3)] d(2) c i st' show thesis by auto
qed

lemma refresh_spends:
  assumes "v_ops v = ops" and "inv (au_store st)" and "handleRefreshToken v rd r st = ((200, b), st')"
    and "\<not> IsZero (r_now rd 2)"
    and "hashSecret (v_sha256 v) (NewID ''rt'' (r_rand rd 0)) \<noteq> hashSecret (v_sha256 v) (presented r)"
  shows "inv (au_store st') \<and> spent_refresh (hashSecret (v_sha256 v) (presented r)) (view (au_store st'))"
proof -
  let ?k = "hashSecret (v_sha256 v) (presented r)"
  from refresh_200 [OF assms(1-3)] obtain rt p dev lic s1 where
    rt: "db_refreshTokens (view (au_store st)) ?k = Some rt" and
    c: "exec ops (ConsumeRefreshToken (rt_ID rt) (r_now rd 2)) (au_store st) = (Done, s1)" and
    i: "issueTokenPair v rd (r_now rd 3) (r_rand rd 0) (rt_AccountID rt) p dev lic s1 = ((200, b), au_store st')"
    by metis
  have k: "rt_ID rt = ?k" using rt view_ok [OF assms(2)] by (simp add: db_ok_def)
  have s1: "inv s1" "spent_refresh ?k (view s1)"
    using write_None [OF assms(2) c] rt assms(4) k
    by (auto simp: spent_refresh_def row_defs split: option.splits if_splits)
  define x where "x = \<lparr>rt_ID = hashSecret (v_sha256 v) (NewID ''rt'' (r_rand rd 0)), rt_DeviceID = dev_ID dev,
    rt_AccountID = rt_AccountID rt, rt_PairID = pr_PairID p, rt_ExpiresAt = r_now rd 3 + a_refreshTTL (v_cfg v),
    rt_RevokedAt = 0\<rparr>"
  have "exec ops (PutRefreshToken x) s1 = (Done, au_store st')" "rt_ID x \<noteq> ?k"
    using issueTokenPair_200 [OF i] assms(1,5) by (auto simp: x_def)
  then show ?thesis using s1 write_None [OF s1(1), of "PutRefreshToken x"] spent_refresh_stays [of ?k "PutRefreshToken x"]
    by auto
qed

lemma refresh_spent_refused:
  assumes "v_ops v = ops" and "inv (au_store st)" and "presented r \<noteq> ''''"
    and "spent_refresh (hashSecret (v_sha256 v) (presented r)) (view (au_store st))"
  shows "fst (handleRefreshToken v rd r st) = (401, ErrorBody ''refresh_invalid'')"
proof -
  obtain req where q: "decodeJSON refreshReq r = Some req" "field req ''refresh_token'' = presented r"
    using assms(3) by (auto simp: presented_def split: option.splits)
  have "rt_Active rt t = False"
    if "st_GetRefreshToken ops (au_store st) (hashSecret (v_sha256 v) (presented r)) = Inr rt" for rt t
    using get_refresh [OF assms(2), of "hashSecret (v_sha256 v) (presented r)"] that assms(4)
    by (auto simp: spent_refresh_def rt_Active_def)
  then show ?thesis using q assms(1,3)
    by (auto simp: handleRefreshToken_def Let_def rejectToken_def writeErr_def split: sum.splits)
qed

end

subsection \<open>Bearers round trip\<close>

text \<open>
  A credential of the form \<^verbatim>\<open>id.random\<close> is read back from the header as it was minted when the identifier does
  not begin with white space, and its identifier is what stands before the first full stop.
\<close>

definition leads :: "string \<Rightarrow> bool" where
  "leads s \<longleftrightarrow> s \<noteq> '''' \<and> (\<forall>p \<in> set white_space. \<not> prefix p s)"

definition bearing :: "string \<Rightarrow> request \<Rightarrow> request" where
  "bearing secret r = r\<lparr>rq_authorization := ''Bearer '' @ secret\<rparr>"

lemma strip_prefixes_id: "\<forall>p \<in> set ps. \<not> prefix p s \<Longrightarrow> strip_prefixes ps s = s"
proof -
  assume "\<forall>p \<in> set ps. \<not> prefix p s"
  then have "find (\<lambda>p. p \<noteq> [] \<and> prefix p s) ps = None" by (auto simp: find_None_iff)
  then show ?thesis by (subst strip_prefixes.simps) simp
qed

lemma white_space_last: "list_all (\<lambda>p. p \<noteq> [] \<and> last p \<notin> set token_alphabet \<and> CHR ''.'' \<notin> set p) white_space"
  by code_simp

lemma TrimSpace_credential:
  assumes "leads k" and "tail \<noteq> []" and "set tail \<subseteq> set token_alphabet"
  shows "TrimSpace (k @ ''.'' @ tail) = k @ ''.'' @ tail"
proof -
  let ?s = "k @ ''.'' @ tail"
  have ws: "p \<noteq> [] \<and> last p \<notin> set token_alphabet \<and> CHR ''.'' \<notin> set p" if "p \<in> set white_space" for p
    using white_space_last that by (simp add: list_all_iff)
  have "\<not> prefix p ?s" if p: "p \<in> set white_space" for p
  proof
    assume "prefix p ?s"
    then have "prefix p k \<or> (\<exists>q. p = k @ q \<and> prefix q (''.'' @ tail))" by (simp add: prefix_append)
    then show False using assms(1) p ws [OF p] by (auto simp: leads_def prefix_Cons)
  qed
  then have 1: "strip_prefixes white_space ?s = ?s" by (intro strip_prefixes_id) blast
  have "\<not> prefix (rev p) (rev ?s)" if p: "p \<in> set white_space" for p
  proof
    assume "prefix (rev p) (rev ?s)"
    then have "suffix p ?s" by (simp add: suffix_to_prefix)
    then have "last p = last ?s" using ws [OF p] by (metis last_appendR suffixE)
    then have "last p = last tail" using assms(2) by simp
    then show False using ws [OF p] assms(3) last_in_set [OF assms(2)] by (metis subsetD)
  qed
  then have "strip_prefixes (map rev white_space) (rev ?s) = rev ?s" by (intro strip_prefixes_id) auto
  then show ?thesis unfolding TrimSpace_def 1 by simp
qed

lemma bearer_bearing: "secret \<noteq> '''' \<Longrightarrow> bearer (bearing secret r) = TrimSpace secret"
  by (simp add: bearer_def bearing_def EqualFold_def)

lemma newAccountSecret_eq: "newAccountSecret k rnd = k @ ''.'' @ randToken rnd"
  by (simp add: newAccountSecret_def NewID_def)

lemma newPairCredential_eq: "newPairCredential k rnd = k @ ''.'' @ randToken rnd"
  by (simp add: newPairCredential_def NewID_def)

lemma bearer_credential:
  assumes "leads k" and "rnd \<noteq> []"
  shows "bearer (bearing (k @ ''.'' @ randToken rnd) r) = k @ ''.'' @ randToken rnd"
  using TrimSpace_credential [OF assms(1) _ randToken_alphabet] assms(2) by (simp add: bearer_bearing)

lemma Cut_credential: "CHR ''.'' \<notin> set k \<Longrightarrow> Cut CHR ''.'' (k @ ''.'' @ t) = (k, t, True)"
  using Cut_append [of "CHR ''.''" k t] by simp

lemma hash_nonempty: "H x \<noteq> [] \<Longrightarrow> hashSecret H x \<noteq> ''''"
  by (simp add: hashSecret_def hex_EncodeToString_def symbols_Nil_iff)

end
