(* ===== verification/Auth_Tokens.thy ===== *)
theory Auth_Tokens
  imports Auth_Service
begin

section \<open>Properties of credentials, devices and tokens\<close>

text \<open>
  What the definitions of the auth service guarantee on the in-memory store, through the interpretation of the
  store contract, and a concrete service for the witnesses.
\<close>

subsection \<open>A concrete service\<close>

text \<open>
  A service over the in-memory store and backplane, with one account whose desktop and mobile are paired under
  an active licence; the digest and the signature are stand-ins that keep their input apart.
\<close>

definition ex_cfg :: service where
  "ex_cfg = NewService \<lparr>a_issuer = ''auth'', a_audience = ''relay'', a_tokenTTL = 600 * second,
     a_refreshTTL = 3600 * second, a_pairingTokenTTL = 0, a_grace = 86400 * second, a_adminKey = ''root'',
     a_relayURL = ''wss://relay'', a_authURL = ''https://auth'', a_checkoutPriceID = ''price'', a_claimTTL = 0,
     a_billingEnabled = True, a_deviceCap = 0\<rparr>"

definition ex_svc :: "(mem_store, mem_bp) svc" where
  "ex_svc = \<lparr>v_cfg = ex_cfg, v_ops = ms_ops, v_bps = Some mem_ops, v_sha256 = (\<lambda>x. x @ ''!''),
     v_sign = (\<lambda>c. Some (''jwt:'' @ c_DeviceID c))\<rparr>"

definition ex_rd :: readings where
  "ex_rd = \<lparr>r_now = (\<lambda>n. 1000 + int n), r_rand = (\<lambda>n. [CHR ''r'', char_of (n + 65)]), r_wall = 2000, r_jti = ''j''\<rparr>"

definition quoted :: "string \<Rightarrow> string" where "quoted s = CHR 0x22 # s @ [CHR 0x22]"

fun object :: "(string \<times> string) list \<Rightarrow> bytes" where
  "object [] = ''{}''"
| "object ((k, x) # kvs) =
     ''{'' @ quoted k @ '':'' @ quoted x @ concat (map (\<lambda>(k, x). '', '' @ quoted k @ '':'' @ quoted x) kvs) @ ''}''"

definition ex_post :: "string \<Rightarrow> (string \<times> string) list \<Rightarrow> request" where
  "ex_post secret kvs =
     bearing secret \<lparr>rq_remoteAddr = ''10.0.0.1:5000'', rq_forwardedFor = '''', rq_authorization = '''', rq_query = [],
       rq_stripeSignature = '''', rq_body = object kvs\<rparr>"

definition ex_ops :: "store_op list" where
  "ex_ops =
     [UpsertAccount \<lparr>acc_ID = ''a1'', acc_StripeCustomerID = ''cus'', acc_SecretHash = hashSecret (v_sha256 ex_svc) ''a1.key'',
        acc_CreatedAt = 1\<rparr>,
      UpsertSubscription \<lparr>sub_ID = ''sub1'', sub_AccountID = ''a1'', sub_Status = SubActive, sub_MaxPairs = 2,
        sub_CurrentPeriodEnd = 0, sub_GraceUntil = 0, sub_UpdatedAt = 1\<rparr>,
      CreateLicense \<lparr>lic_ID = ''l1'', lic_AccountID = ''a1'', lic_SubscriptionID = ''sub1'', lic_SubscriptionItemID = '''',
        lic_Status = LicenseActive, lic_CreatedAt = 1\<rparr>,
      UpsertDevice \<lparr>dev_ID = ''d1'', dev_AccountID = ''a1'', dev_Role = RoleDesktop, dev_PublicKey = Some ''dk'', dev_CreatedAt = 1\<rparr>,
      UpsertDevice \<lparr>dev_ID = ''m1'', dev_AccountID = ''a1'', dev_Role = RoleMobile, dev_PublicKey = Some ''mk'', dev_CreatedAt = 1\<rparr>,
      CreatePairing ex_pairing,
      PutPairCredential \<lparr>pc_PairID = ''p1'', pc_AccountID = ''a1'', pc_LicenseID = ''l1'', pc_MobileDeviceID = ''m1'',
        pc_SecretHash = hashSecret (v_sha256 ex_svc) ''p1.key'', pc_CreatedAt = 1, pc_RevokedAt = 0\<rparr>,
      PutRefreshToken \<lparr>rt_ID = hashSecret (v_sha256 ex_svc) ''rt_old'', rt_DeviceID = ''m1'', rt_AccountID = ''a1'',
        rt_PairID = ''p1'', rt_ExpiresAt = 5000, rt_RevokedAt = 0\<rparr>]"

definition ex_store :: mem_store where "ex_store = run ms_ops ex_ops ms_New"

lemma ex_store_ok: "ms_ok ex_store"
  unfolding ex_store_def using ms.run_inv ms_New_ok by blast

lemma ex_svc_ops [simp]: "v_ops ex_svc = ms_ops" "v_cfg ex_svc = ex_cfg" "v_bps ex_svc = Some mem_ops"
  by (simp_all add: ex_svc_def)

lemma ex_rd_simps [simp]: "r_now ex_rd n = 1000 + int n" "r_rand ex_rd n = [CHR ''r'', char_of (n + 65)]"
  by (simp_all add: ex_rd_def)

lemma ex_issue:
  "fst (handleIssueToken ex_svc ex_rd (ex_post ''a1.key'' [(''device_id'', ''d1''), (''pair_id'', ''p1'')]) ex_store)
     = (200, TokenResp ''jwt:d1'' (NewID ''rt'' (r_rand ex_rd 0)) 600)"
  by code_simp

subsection \<open>Properties\<close>

text \<open>
  C25. A connection token is issued only to whom it belongs: when the token endpoint answers 200, the bearer is
  the stored secret of an account, or the active credential of the very pairing and mobile device that are
  asked for; the pairing is active and of that account; the device is registered to the account and is the
  pairing's device for its role; the pairing's licence is active and, with billing on, its subscription is in
  a state that permits tokens at that moment; and the token is the signature over claims that name exactly
  that account, pairing, device, role and licence, the service's issuer and audience, and an expiry one token
  lifetime after the clock reading.
\<close>

theorem issue_token_entitled:
  assumes "v_ops v = ms_ops" and "ms_ok s" and "handleIssueToken v rd r s = ((200, b), s')"
  shows "\<exists>req acct p dev lic jwt. decodeJSON tokenReq r = Some req \<and>
    field req ''pair_id'' = pr_PairID p \<and> field req ''device_id'' = dev_ID dev \<and>
    b = TokenResp jwt (NewID ''rt'' (r_rand rd 0)) (trunc_div (a_tokenTTL (v_cfg v)) second) \<and>
    v_sign v \<lparr>c_Issuer = a_issuer (v_cfg v), c_Audience = [a_audience (v_cfg v)], c_Subject = ''device:'' @ dev_ID dev,
      c_ID = r_jti rd, c_IssuedAt = Some (NewNumericDate (r_wall rd)),
      c_ExpiresAt = Some (NewNumericDate (r_wall rd + a_tokenTTL (v_cfg v))),
      c_AccountID = acct, c_PairID = pr_PairID p, c_DeviceID = dev_ID dev, c_Role = dev_Role dev, c_LicenseID = lic_ID lic\<rparr>
      = Some jwt \<and>
    entitled (v_cfg v) (ms_view s) (r_now rd 1) acct p dev lic \<and> pr_AccountID p = acct \<and>
    (account_bearer (v_sha256 v) (ms_view s) r acct \<or>
     (\<exists>c. pair_bearer (v_sha256 v) (ms_view s) (r_now rd 0) r c \<and> pc_AccountID c = acct \<and>
        pc_PairID c = pr_PairID p \<and> pc_MobileDeviceID c = dev_ID dev))"
  using ms.issue_sound [OF assms] unfolding minted_claims .

theorem issue_token_entitled_witness:
  "\<exists>acct p dev lic. entitled ex_cfg (ms_view ex_store) 1001 acct p dev lic"
proof -
  let ?r = "ex_post ''a1.key'' [(''device_id'', ''d1''), (''pair_id'', ''p1'')]"
  have "handleIssueToken ex_svc ex_rd ?r ex_store =
      ((200, TokenResp ''jwt:d1'' (NewID ''rt'' (r_rand ex_rd 0)) 600), snd (handleIssueToken ex_svc ex_rd ?r ex_store))"
    using ex_issue by (metis prod.collapse)
  from issue_token_entitled [OF _ ex_store_ok this] show ?thesis by auto
qed

text \<open>
  C26. A refresh token is good for one rotation: when the refresh endpoint answers 200, the presented token was
  stored, neither spent nor expired, and its account is entitled at that moment, with a device that is still a
  member of the pairing; from then on, whatever the service does in between short of storing a token under the
  same identifier, presenting it again gets 401.
\<close>

theorem refresh_rotates:
  assumes "v_ops v = ms_ops" and "ms_ok (au_store st)" and "handleRefreshToken v rd r st = ((200, b), st')"
    and "\<not> IsZero (r_now rd 2)"
    and "hashSecret (v_sha256 v) (NewID ''rt'' (r_rand rd 0)) \<noteq> hashSecret (v_sha256 v) (presented r)"
  shows "(\<exists>rt p dev lic. map_of (m_refreshTokens (au_store st)) (hashSecret (v_sha256 v) (presented r)) = Some rt \<and>
      rt_Active rt (r_now rd 0) \<and> pr_PairID p = rt_PairID rt \<and> dev_ID dev = rt_DeviceID rt \<and>
      entitled (v_cfg v) (ms_view (au_store st)) (r_now rd 1) (rt_AccountID rt) p dev lic) \<and>
    (\<forall>xs rd' bp. (\<forall>x \<in> set xs. \<not> reissues (hashSecret (v_sha256 v) (presented r)) x) \<longrightarrow>
      fst (handleRefreshToken v rd' r \<lparr>au_store = run ms_ops xs (au_store st'), au_bp = bp\<rparr>)
        = (401, ErrorBody ''refresh_invalid''))"
proof -
  let ?k = "hashSecret (v_sha256 v) (presented r)"
  have s': "ms_ok (au_store st') \<and> spent_refresh ?k (ms_view (au_store st'))" by (rule ms.refresh_spends [OF assms])
  have "fst (handleRefreshToken v rd' r \<lparr>au_store = run ms_ops xs (au_store st'), au_bp = bp\<rparr>)
      = (401, ErrorBody ''refresh_invalid'')" if "\<forall>x \<in> set xs. \<not> reissues ?k x" for xs rd' bp
  proof (rule ms.refresh_spent_refused [OF assms(1)])
    show "presented r \<noteq> ''''" using ms.refresh_200 [OF assms(1-3)] by metis
  qed (use ms.run_keeps [of "au_store st'" "spent_refresh ?k" xs] s' spent_refresh_stays that in auto)
  moreover from ms.refresh_200 [OF assms(1-3)] obtain rt p dev lic where
    "db_refreshTokens (ms_view (au_store st)) ?k = Some rt" "rt_Active rt (r_now rd 0)"
    "entitled (v_cfg v) (ms_view (au_store st)) (r_now rd 1) (rt_AccountID rt) p dev lic"
    "pr_PairID p = rt_PairID rt" "dev_ID dev = rt_DeviceID rt" by metis
  ultimately show ?thesis by (auto simp: ms_view_def)
qed

definition ex_refresh_req :: request where "ex_refresh_req = ex_post '''' [(''refresh_token'', ''rt_old'')]"
definition ex_state :: "(mem_store, mem_bp) auth_state" where "ex_state = \<lparr>au_store = ex_store, au_bp = mem_New 60 4\<rparr>"

lemma ex_refresh_ok:
  "fst (handleRefreshToken ex_svc ex_rd ex_refresh_req ex_state)
     = (200, TokenResp ''jwt:m1'' (NewID ''rt'' (r_rand ex_rd 0)) 600)"
  by code_simp

theorem refresh_rotates_witness:
  "fst (handleRefreshToken ex_svc ex_rd ex_refresh_req
     (snd (handleRefreshToken ex_svc ex_rd ex_refresh_req ex_state))) = (401, ErrorBody ''refresh_invalid'')"
proof -
  have "handleRefreshToken ex_svc ex_rd ex_refresh_req ex_state =
      ((200, TokenResp ''jwt:m1'' (NewID ''rt'' (r_rand ex_rd 0)) 600), snd (handleRefreshToken ex_svc ex_rd ex_refresh_req ex_state))"
    using ex_refresh_ok by (metis prod.collapse)
  moreover have "ms_ok (au_store ex_state)" using ex_store_ok by (simp add: ex_state_def)
  moreover have "hashSecret (v_sha256 ex_svc) (NewID ''rt'' (r_rand ex_rd 0)) \<noteq> hashSecret (v_sha256 ex_svc) (presented ex_refresh_req)"
    by code_simp
  ultimately have "fst (handleRefreshToken ex_svc ex_rd ex_refresh_req
      \<lparr>au_store = run ms_ops [] (au_store (snd (handleRefreshToken ex_svc ex_rd ex_refresh_req ex_state))),
       au_bp = au_bp (snd (handleRefreshToken ex_svc ex_rd ex_refresh_req ex_state))\<rparr>) = (401, ErrorBody ''refresh_invalid'')"
    using refresh_rotates [of ex_svc ex_state ex_rd ex_refresh_req] by (simp add: IsZero_def)
  then show ?thesis by (simp add: run_def) (metis (full_types) auth_state.surjective old.unit.exhaust)
qed

text \<open>
  The rows of the refresh tokens after all tokens of a device are revoked.
\<close>

lemma revoke_by_device_row:
  "map_of (m_refreshTokens (snd (ms_RevokeRefreshTokensByDevice d now s))) k =
     map_option (\<lambda>z. if rt_DeviceID z = d \<and> IsZero (rt_RevokedAt z) then z\<lparr>rt_RevokedAt := now\<rparr> else z)
       (map_of (m_refreshTokens s) k)"
  by (simp add: ms_RevokeRefreshTokensByDevice_def)

lemma revoke_by_device_rows:
  shows "map_of (m_refreshTokens (snd (ms_RevokeRefreshTokensByDevice d now s))) k = Some t \<Longrightarrow>
      rt_DeviceID t = d \<Longrightarrow> IsZero (rt_RevokedAt t) \<Longrightarrow> IsZero now"
    and "map_of (m_refreshTokens s) k = Some t \<Longrightarrow> rt_DeviceID t \<noteq> d \<Longrightarrow>
      map_of (m_refreshTokens (snd (ms_RevokeRefreshTokensByDevice d now s))) k = Some t"
proof -
  assume a: "map_of (m_refreshTokens (snd (ms_RevokeRefreshTokensByDevice d now s))) k = Some t"
    "rt_DeviceID t = d" "IsZero (rt_RevokedAt t)"
  then obtain z where z: "(if rt_DeviceID z = d \<and> IsZero (rt_RevokedAt z) then z\<lparr>rt_RevokedAt := now\<rparr> else z) = t"
    unfolding revoke_by_device_row map_option_eq_Some by blast
  show "IsZero now"
  proof (cases "rt_DeviceID z = d \<and> IsZero (rt_RevokedAt z)")
    case True
    then have "rt_RevokedAt t = now" unfolding z [symmetric] if_P [OF True] by simp
    with a show ?thesis by simp
  next
    case False
    then show ?thesis using a unfolding z [symmetric] if_not_P [OF False] by blast
  qed
qed (simp add: revoke_by_device_row)

text \<open>
  C27. A replayed refresh token cuts off the whole chain: presenting a token that is already spent gets 401, and
  afterwards every refresh token of its device is revoked, those of other devices are as they were, and the
  revocation of its pairing and account has been published.
\<close>

theorem refresh_reuse_cuts:
  assumes "v_ops v = ms_ops" and "v_bps v = Some mem_ops" and "presented r \<noteq> ''''"
    and "map_of (m_refreshTokens (au_store st)) (hashSecret (v_sha256 v) (presented r)) = Some rt"
    and "\<not> IsZero (rt_RevokedAt rt)" and "\<not> IsZero (r_now rd 1)"
  shows "\<exists>st'. handleRefreshToken v rd r st = ((401, ErrorBody ''refresh_invalid''), st') \<and>
    (\<forall>k t. map_of (m_refreshTokens (au_store st')) k = Some t \<longrightarrow> rt_DeviceID t = rt_DeviceID rt \<longrightarrow>
       \<not> IsZero (rt_RevokedAt t)) \<and>
    (\<forall>k t. map_of (m_refreshTokens (au_store st)) k = Some t \<longrightarrow> rt_DeviceID t \<noteq> rt_DeviceID rt \<longrightarrow>
       map_of (m_refreshTokens (au_store st')) k = Some t) \<and>
    au_bp st' = snd (mem_PublishRevocation \<lparr>re_PairID = rt_PairID rt, re_AccountID = rt_AccountID rt\<rparr> (au_bp st))"
proof -
  obtain req where q: "decodeJSON refreshReq r = Some req" "field req ''refresh_token'' = presented r"
    using assms(3) by (auto simp: presented_def split: option.splits)
  have g: "ms_GetRefreshToken (au_store st) (hashSecret (v_sha256 v) (presented r)) = Inr rt"
    using assms(4) by (simp add: ms_GetRefreshToken_def found_def)
  have "handleRefreshToken v rd r st = ((401, ErrorBody ''refresh_invalid''),
      st\<lparr>au_store := snd (ms_RevokeRefreshTokensByDevice (rt_DeviceID rt) (r_now rd 1) (au_store st)),
         au_bp := snd (mem_PublishRevocation \<lparr>re_PairID = rt_PairID rt, re_AccountID = rt_AccountID rt\<rparr> (au_bp st))\<rparr>)"
    using assms(1-3,5) q g
    by (simp add: handleRefreshToken_def rt_Active_def rejectToken_def writeErr_def publishRevocation_def Let_def)
  moreover have "\<not> IsZero (rt_RevokedAt t)"
    if "map_of (m_refreshTokens (snd (ms_RevokeRefreshTokensByDevice (rt_DeviceID rt) (r_now rd 1) (au_store st)))) k = Some t"
      and "rt_DeviceID t = rt_DeviceID rt" for k t
    using revoke_by_device_rows(1) [OF that(1)] that(2) assms(6) by (cases "IsZero (rt_RevokedAt t)") auto
  moreover note revoke_by_device_rows(2) [where s = "au_store st"]
  ultimately show ?thesis by simp
qed

definition ex_spent_state :: "(mem_store, mem_bp) auth_state" where
  "ex_spent_state = snd (handleRefreshToken ex_svc ex_rd ex_refresh_req ex_state)"

lemma ex_spent_row:
  "map_option rt_RevokedAt (map_of (m_refreshTokens (au_store ex_spent_state))
     (hashSecret (v_sha256 ex_svc) (presented ex_refresh_req))) = Some 1002"
  by code_simp

lemma ex_presented: "presented ex_refresh_req = ''rt_old''"
  by code_simp

theorem refresh_reuse_cuts_witness:
  "\<exists>st' (rt :: refresh_token). handleRefreshToken ex_svc ex_rd ex_refresh_req ex_spent_state = ((401, ErrorBody ''refresh_invalid''), st') \<and>
     au_bp st' = snd (mem_PublishRevocation \<lparr>re_PairID = rt_PairID rt, re_AccountID = rt_AccountID rt\<rparr> (au_bp ex_spent_state))"
proof -
  obtain rt where "map_of (m_refreshTokens (au_store ex_spent_state)) (hashSecret (v_sha256 ex_svc) (presented ex_refresh_req)) = Some rt"
    "rt_RevokedAt rt = 1002" using ex_spent_row by auto
  with refresh_reuse_cuts [of ex_svc ex_refresh_req ex_spent_state rt ex_rd] ex_presented show ?thesis
    by (simp add: IsZero_def) blast
qed

lemma provision_accounts:
  "v_ops v = ms_ops \<Longrightarrow> m_accounts (snd (provisionOpenLicense v now rnd1 rnd2 acct s)) = m_accounts s"
  by (auto simp: provisionOpenLicense_def ms_UpsertSubscription_def ms_CreateLicense_def Let_def
        split: sum.splits option.splits)

lemma create_account_200:
  assumes "v_ops v = ms_ops" and "handleCreateAccount v rd r s = ((200, AccountResp acct secret lic), s')"
  shows "acct \<noteq> '''' \<and> secret = newAccountSecret acct (r_rand rd 0) \<and>
    (\<exists>a. map_of (m_accounts s') acct = Some a \<and>
       (hashSecret (v_sha256 v) secret \<noteq> '''' \<longrightarrow> acc_SecretHash a = hashSecret (v_sha256 v) secret))"
proof -
  let ?sec = "newAccountSecret acct (r_rand rd 0)"
  let ?a = "\<lparr>acc_ID = acct, acc_StripeCustomerID = '''', acc_SecretHash = hashSecret (v_sha256 v) ?sec, acc_CreatedAt = r_now rd 0\<rparr>"
  let ?s1 = "snd (ms_UpsertAccount ?a s)"
  have r: "acct \<noteq> ''''" "secret = ?sec"
    "s' = ?s1 \<or> s' = snd (provisionOpenLicense v (r_now rd 1) (r_rand rd 1) (r_rand rd 2) acct ?s1)"
    using assms by (auto simp: handleCreateAccount_def writeErr_def Let_def
        split: if_splits option.splits prod.splits sum.splits)
  then have "m_accounts s' = m_accounts ?s1" using provision_accounts [OF assms(1)] by auto
  with r(1,2) show ?thesis by (auto simp: ms_UpsertAccount_def Let_def split: option.splits)
qed

text \<open>
  C28. An account secret works exactly when the account identifier has no full stop: after the admin endpoint has
  answered with a secret for an identifier that does not begin with white space, a request that bears it is
  authenticated as that account if the identifier contains no full stop, and never as that account if it does,
  because the identifier is read back up to the first full stop.
\<close>

theorem account_secret_authenticates:
  assumes "v_ops v = ms_ops" and "handleCreateAccount v rd r s = ((200, AccountResp acct secret lic), s')"
    and "leads acct" and "r_rand rd 0 \<noteq> []" and "v_sha256 v secret \<noteq> []"
  shows "authenticateAccount v (bearing secret r') s' = Some acct \<longleftrightarrow> CHR ''.'' \<notin> set acct"
proof -
  note c = create_account_200 [OF assms(1,2)]
  then have sec: "secret = acct @ ''.'' @ randToken (r_rand rd 0)" by (simp add: newAccountSecret_eq)
  have b: "bearer (bearing secret r') = secret" using bearer_credential [OF assms(3,4)] sec by simp
  have h: "hashSecret (v_sha256 v) secret \<noteq> ''''" using assms(5) by (rule hash_nonempty)
  show ?thesis
  proof
    assume "authenticateAccount v (bearing secret r') s' = Some acct"
    then have "fst (Cut CHR ''.'' secret) = acct"
      by (auto simp: authenticateAccount_def b Let_def split: if_splits prod.splits sum.splits)
    then show "CHR ''.'' \<notin> set acct" using Cut_fst_no_sep [of "CHR ''.''" secret] by simp
  next
    assume "CHR ''.'' \<notin> set acct"
    from Cut_credential [OF this, of "randToken (r_rand rd 0)"] have "Cut CHR ''.'' secret = (acct, randToken (r_rand rd 0), True)"
      using sec by simp
    moreover obtain a where "map_of (m_accounts s') acct = Some a" "acc_SecretHash a = hashSecret (v_sha256 v) secret"
      using c h by blast
    moreover have "secret \<noteq> ''''" "acct \<noteq> ''''" using sec c by simp_all
    ultimately show "authenticateAccount v (bearing secret r') s' = Some acct"
      using h assms(1) by (simp add: authenticateAccount_def b Let_def ms_GetAccount_def found_def)
  qed
qed

lemma ex_create:
  "fst (handleCreateAccount ex_svc ex_rd (ex_post ''root'' [(''account_id'', ''a.b'')]) ex_store)
     = (200, AccountResp ''a.b'' (newAccountSecret ''a.b'' (r_rand ex_rd 0)) '''')"
  by code_simp

theorem account_secret_authenticates_witness:
  "\<exists>s' secret. handleCreateAccount ex_svc ex_rd (ex_post ''root'' [(''account_id'', ''a.b'')]) ex_store
     = ((200, AccountResp ''a.b'' secret ''''), s') \<and>
   authenticateAccount ex_svc (bearing secret (ex_post '''' [])) s' \<noteq> Some ''a.b''"
proof -
  let ?x = "handleCreateAccount ex_svc ex_rd (ex_post ''root'' [(''account_id'', ''a.b'')]) ex_store"
  have x: "?x = ((200, AccountResp ''a.b'' (newAccountSecret ''a.b'' (r_rand ex_rd 0)) ''''), snd ?x)"
    using ex_create by (metis prod.collapse)
  have "leads ''a.b''" by code_simp
  with account_secret_authenticates [OF _ x, of "ex_post '''' []"] x show ?thesis
    by (auto simp: ex_svc_def)
qed

end
