(* ===== verification/Devices.thy ===== *)
theory Devices
  imports Auth_Tokens
begin

section \<open>Device registration\<close>

text \<open>
  What \<^verbatim>\<open>registerOrFindDevice\<close> of \<^verbatim>\<open>internal/authservice/handlers.go\<close> does on every store that keeps the contract:
  it refuses and writes nothing, finds a registered device, or adds one below the cap.
\<close>

lemma registerOrFindDevice_eq:
  "registerOrFindDevice v now rnd acct role pub s =
     (case (if len_key pub > 0 then st_FindDeviceByAccountRoleKey (v_ops v) s acct role (the pub) else Inl ErrNotFound) of
        Inr d \<Rightarrow> (Inr d, s)
      | Inl e \<Rightarrow>
          if e \<noteq> ErrNotFound then (Inl (DeviceStoreError e), s)
          else case st_CountDevicesByAccount (v_ops v) s acct of
            Inl e \<Rightarrow> (Inl (DeviceStoreError e), s)
          | Inr count \<Rightarrow>
              if int count \<ge> a_deviceCap (v_cfg v) then (Inl DeviceLimit, s)
              else (case st_UpsertDevice (v_ops v) \<lparr>dev_ID = NewID ''dev'' rnd, dev_AccountID = acct, dev_Role = role,
                              dev_PublicKey = pub, dev_CreatedAt = now\<rparr> s of
                             (Some e, s) \<Rightarrow> (Inl (DeviceStoreError e), s)
                           | (None, s) \<Rightarrow> (Inr \<lparr>dev_ID = NewID ''dev'' rnd, dev_AccountID = acct, dev_Role = role,
                              dev_PublicKey = pub, dev_CreatedAt = now\<rparr>, s)))"
  unfolding registerOrFindDevice_def Let_def by (rule refl)

context auth_store
begin

lemma register_cases:
  assumes "v_ops v = ops" and "inv s" and "registerOrFindDevice v now rnd acct role pub s = (res, s')"
  obtains (refused) e where "res = Inl e" "inv s'" "view s' = view s"
  | (existing) key dev where "pub = Some key" "key \<noteq> []" "res = Inr dev" "s' = s"
      "st_FindDeviceByAccountRoleKey ops s acct role key = Inr dev"
      "db_devices (view s) (dev_ID dev) = Some dev" "dev_AccountID dev = acct" "dev_Role dev = role"
  | (new) dev where "res = Inr dev" "inv s'" "view s' = snd (spec (UpsertDevice dev) (view s))"
      "dev_ID dev = NewID ''dev'' rnd" "dev_AccountID dev = acct" "dev_Role dev = role" "dev_PublicKey dev = pub"
      "int (card (account_devices (view s) acct)) < a_deviceCap (v_cfg v)"
      "\<And>x key. pub = Some key \<Longrightarrow> key \<noteq> [] \<Longrightarrow> x \<in> ran (db_devices (view s)) \<Longrightarrow>
         \<not> (dev_AccountID x = acct \<and> dev_Role x = role \<and> dev_PublicKey x = Some key)"
proof -
  define found where "found = (if len_key pub > 0 then st_FindDeviceByAccountRoleKey ops s acct role (the pub) else Inl ErrNotFound)"
  define dev where "dev = \<lparr>dev_ID = NewID ''dev'' rnd, dev_AccountID = acct, dev_Role = role,
                              dev_PublicKey = pub, dev_CreatedAt = now\<rparr>"
  note eq = assms(3) [unfolded registerOrFindDevice_eq assms(1), folded found_def dev_def]
  show thesis
  proof (cases found)
    case (Inr d)
    then have k: "len_key pub > 0" "st_FindDeviceByAccountRoleKey ops s acct role (the pub) = Inr d"
      by (auto simp: found_def split: if_splits)
    then obtain key where key: "pub = Some key" by (auto simp: len_key_def split: option.splits)
    show thesis using find_device [OF assms(2) k(2)] k(2) key eq Inr by (intro existing [of key d]) auto
  next
    case (Inl e)
    show thesis
    proof (cases "e = ErrNotFound")
      case False
      then show thesis using eq Inl assms(2) by (intro refused [of "DeviceStoreError e"]) auto
    next
      case nf: True
      show thesis
      proof (cases "st_CountDevicesByAccount ops s acct")
        case (Inl e')
        then show thesis using eq nf \<open>found = Inl e\<close> assms(2) by (intro refused [of "DeviceStoreError e'"]) auto
      next
        case (Inr n)
        note n = count_devices [OF assms(2) Inr]
        show thesis
        proof (cases "int n \<ge> a_deviceCap (v_cfg v)")
          case True
          then show thesis using eq nf \<open>found = Inl e\<close> Inr assms(2) by (intro refused [of DeviceLimit]) auto
        next
          case False
          obtain er s1 where u: "st_UpsertDevice ops dev s = (er, s1)" by fastforce
          show thesis
          proof (cases er)
            case (Some e')
            then have "res = Inl (DeviceStoreError e')" "s' = s1" using eq nf \<open>found = Inl e\<close> Inr False u by auto
            then show thesis using write_Some [OF assms(2), of "UpsertDevice dev" e' s1] u Some by (intro refused) auto
          next
            case None
            have r: "res = Inr dev" "s' = s1" using eq nf \<open>found = Inl e\<close> Inr False u None by auto
            have none: "\<not> (dev_AccountID x = acct \<and> dev_Role x = role \<and> dev_PublicKey x = Some key)"
              if "pub = Some key" "key \<noteq> []" "x \<in> ran (db_devices (view s))" for x key
              using find_device_none [OF assms(2), of acct role key x] that \<open>found = Inl e\<close> nf
              by (simp add: found_def len_key_def)
            show thesis
              using write_None [OF assms(2), of "UpsertDevice dev" s1] u None r n False none
              by (intro new [of dev]) (simp_all add: dev_def)
          qed
        qed
      qed
    qed
  qed
qed

end

subsection \<open>The cap\<close>

lemma find_device_memory:
  "ms_FindDeviceByAccountRoleKey s acct role key = Inl e \<Longrightarrow> e = ErrNotFound"
  by (auto simp: ms_FindDeviceByAccountRoleKey_def found_def split: if_splits option.splits)

lemma account_devices_upsert:
  "account_devices (snd (spec (UpsertDevice x) d)) acct \<subseteq>
     (if dev_AccountID x = acct then insert (dev_ID x) (account_devices d acct) else account_devices d acct)"
  by (auto simp: account_devices_def split: if_splits)

context auth_store
begin

lemma register_stored:
  assumes "v_ops v = ops" and "inv s" and "registerOrFindDevice v now rnd acct role pub s = (Inr dev, s')"
  shows "inv s' \<and> (\<exists>x. db_devices (view s') (dev_ID dev) = Some x \<and> dev_AccountID x = acct \<and> dev_Role x = role) \<and>
    dev_AccountID dev = acct \<and> dev_Role dev = role"
  using assms by (cases rule: register_cases) (use assms(2) in auto)

lemma register_cap:
  assumes "v_ops v = ops" and "inv s" and "registerOrFindDevice v now rnd acct role pub s = (res, s')"
  shows "int (card (account_devices (view s') k)) \<le> max (a_deviceCap (v_cfg v)) (int (card (account_devices (view s) k)))"
  using assms
proof (cases rule: register_cases)
  case (new dev)
  have fin: "finite (account_devices (view s) k)"
    using finite_account_devices view_ok [OF assms(2)] by blast
  have sub: "account_devices (view s') k \<subseteq> (if acct = k then insert (dev_ID dev) (account_devices (view s) k) else account_devices (view s) k)"
    using account_devices_upsert [of dev "view s" k] new(3,5) by simp
  show ?thesis
  proof (cases "acct = k")
    case True
    have "card (account_devices (view s') k) \<le> card (insert (dev_ID dev) (account_devices (view s) k))"
      using sub fin True by (intro card_mono) auto
    also have "\<dots> \<le> Suc (card (account_devices (view s) k))" using card_insert_le_m1 fin by (simp add: card_insert_if)
    finally show ?thesis using new(8) True by (simp add: max_def)
  next
    case False
    then have "card (account_devices (view s') k) \<le> card (account_devices (view s) k)" using sub fin by (intro card_mono) auto
    then show ?thesis by (simp add: max_def)
  qed
qed simp_all

lemma register_found:
  assumes "v_ops v = ops" and "inv s" and "registerOrFindDevice v now rnd acct role (Some key) s = (Inr dev, s')"
    and "key \<noteq> []" and "st_FindDeviceByAccountRoleKey ops s' acct role key = Inr y"
  shows "y = dev"
proof -
  note y = find_device [OF _ assms(5)]
  show ?thesis using assms(1-3)
  proof (cases rule: register_cases)
    case (existing key' dev')
    then show ?thesis using assms(5) by simp
  next
    case (new dev')
    show ?thesis
    proof (rule ccontr)
      assume "y \<noteq> dev"
      moreover have "merge_device (db_devices (view s) (dev_ID dev)) dev = dev"
        using new(1,7) by (simp add: merge_device_def)
      ultimately have "db_devices (view s) (dev_ID y) = Some y"
        using y [OF new(2)] new(1,3) by (auto split: if_splits)
      then show False using new(9) [of key y] y [OF new(2)] by (auto intro: ranI)
    qed
  qed simp
qed

end

text \<open>
  C33. Devices are capped and registration is idempotent: registering a device leaves the number of devices of
  every account at most the cap, or at most what it was; a device it returns is stored for the account with
  the asked role; and registering the same role and non-empty key again returns the same device and changes
  nothing.
\<close>

theorem device_registration:
  assumes "v_ops v = ms_ops" and "ms_ok s" and "registerOrFindDevice v now rnd acct role pub s = (res, s')"
  shows "int (card (account_devices (ms_view s') k)) \<le> max (a_deviceCap (v_cfg v)) (int (card (account_devices (ms_view s) k))) \<and>
    (\<forall>dev. res = Inr dev \<longrightarrow> (\<exists>x. map_of (m_devices s') (dev_ID dev) = Some x \<and> dev_AccountID x = acct \<and> dev_Role x = role)) \<and>
    (\<forall>dev key now' rnd'. res = Inr dev \<longrightarrow> pub = Some key \<longrightarrow> key \<noteq> [] \<longrightarrow>
       registerOrFindDevice v now' rnd' acct role pub s' = (Inr dev, s'))"
proof -
  have again: "registerOrFindDevice v now' rnd' acct role pub s' = (Inr dev, s')"
    if r: "res = Inr dev" "pub = Some key" "key \<noteq> []" for dev key now' rnd'
  proof -
    note a3 = assms(3) [unfolded r(1,2)]
    note st = ms.register_stored [OF assms(1,2) a3]
    have "ms_FindDeviceByAccountRoleKey s' acct role key \<noteq> Inl ErrNotFound"
    proof
      assume nf: "ms_FindDeviceByAccountRoleKey s' acct role key = Inl ErrNotFound"
      from assms(1,2) a3 show False
      proof (cases rule: ms.register_cases)
        case (existing key' dev')
        then show False using nf by simp
      next
        case (new dev')
        then have "db_devices (ms_view s') (dev_ID dev) = Some dev" by (simp add: merge_device_def)
        then have "dev \<in> ran (db_devices (ms_view s'))" by (rule ranI)
        then show False using ms.find_device_none [of s' acct role key dev] st nf r(3) new(1,7) by simp
      qed simp
    qed
    then obtain y where y: "ms_FindDeviceByAccountRoleKey s' acct role key = Inr y"
      using find_device_memory by (cases "ms_FindDeviceByAccountRoleKey s' acct role key") auto
    then have "y = dev" using ms.register_found [OF assms(1,2) a3 r(3)] by simp
    then show ?thesis using y r assms(1) by (simp add: registerOrFindDevice_eq len_key_def)
  qed
  moreover have "\<exists>x. map_of (m_devices s') (dev_ID dev) = Some x \<and> dev_AccountID x = acct \<and> dev_Role x = role"
    if "res = Inr dev" for dev
    using ms.register_stored [OF assms(1,2) assms(3) [unfolded that]] by (simp add: ms_view_def)
  ultimately show ?thesis using ms.register_cap [OF assms(1-3), of k] by blast
qed

theorem device_registration_witness:
  "int (card (account_devices (ms_view (snd (registerOrFindDevice ex_svc 5 ''r'' ''a1'' RoleMobile (Some ''nk'') ex_store))) ''a1'')) \<le>
     max 10 (int (card (account_devices (ms_view ex_store) ''a1'')))"
proof -
  obtain res s' where x: "registerOrFindDevice ex_svc 5 ''r'' ''a1'' RoleMobile (Some ''nk'') ex_store = (res, s')" by fastforce
  have "a_deviceCap ex_cfg = 10" by (simp add: ex_cfg_def NewService_def defaultDeviceCap_def)
  with device_registration [OF _ ex_store_ok x, of "''a1''"] x show ?thesis by simp
qed

end
