(* ===== verification/Pairing.thy ===== *)
theory Pairing
  imports Devices
begin

section \<open>Pairing endpoints\<close>

text \<open>
  Models \<^verbatim>\<open>internal/authservice/pairing.go\<close>: the desktop's one-time pairing token, its completion by the mobile,
  the desktop's poll and unpairing. A handler takes the service, the readings of the request, the request and
  the state; the long completion handler is cut where the source has its comments.
\<close>

subsection \<open>Helpers\<close>

definition capacityAvailable :: "('s, 'b) svc \<Rightarrow> license \<Rightarrow> 's \<Rightarrow> store_error + bool \<times> int" where
  "capacityAvailable v lic s =
     (case st_GetSubscription (v_ops v) s (lic_SubscriptionID lic) of
        Inl e \<Rightarrow> Inl e
      | Inr sub \<Rightarrow>
          (case st_ActivePairCount (v_ops v) s (lic_ID lic) of
             Inl e \<Rightarrow> Inl e
           | Inr inUse \<Rightarrow> Inr (int inUse < sub_MaxPairs sub, sub_MaxPairs sub)))"

definition activePairingForDesktop :: "('s, 'b) svc \<Rightarrow> string \<Rightarrow> string \<Rightarrow> 's \<Rightarrow> store_error + pairing option" where
  "activePairingForDesktop v licenseID desktopDeviceID s =
     (case st_ListActivePairingsByLicense (v_ops v) s licenseID of
        Inl e \<Rightarrow> Inl e
      | Inr pairings \<Rightarrow> Inr (find (\<lambda>p. pr_DesktopDeviceID p = desktopDeviceID) pairings))"

text \<open>
  Both the start and the completion of a pairing look for an active pairing of the desktop and, without one, for
  a free slot. The result is the pairing to replace, if any, and the capacity for a new one (0 when replacing).
\<close>

definition pairing_slot :: "('s, 'b) svc \<Rightarrow> license \<Rightarrow> string \<Rightarrow> 's \<Rightarrow> response + pairing option \<times> int" where
  "pairing_slot v lic desktopDeviceID s =
     (case activePairingForDesktop v (lic_ID lic) desktopDeviceID s of
        Inl e \<Rightarrow> Inl (writeErr 500 ''store_error'')
      | Inr (Some existing) \<Rightarrow> Inr (Some existing, 0)
      | Inr None \<Rightarrow>
          (case capacityAvailable v lic s of
             Inl e \<Rightarrow> Inl (writeErr 500 ''store_error'')
           | Inr (ok, maxPairs) \<Rightarrow>
               (if \<not> ok then Inl (writeErr 409 ''capacity_exceeded'') else Inr (None, maxPairs))))"

subsection \<open>Starting a pairing\<close>

definition pairingQRVersion :: int where "pairingQRVersion = 1"

definition pairingTokenReq :: "string list" where
  "pairingTokenReq = [''license_id'', ''desktop_device_id'', ''desktop_public_key'']"

text \<open>The desktop's key: the one supplied is stored first, and there must be one.\<close>

definition desktop_key :: "('s, 'b) svc \<Rightarrow> device \<Rightarrow> string \<Rightarrow> 's \<Rightarrow> (response + device) \<times> 's" where
  "desktop_key v dev supplied s =
     (let checked = (\<lambda>dev. if len_key (dev_PublicKey dev) = 0 then Inl (writeErr 400 ''missing_public_key'') else Inr dev)
      in if supplied = '''' then (checked dev, s)
         else case base64_DecodeString supplied of
           None \<Rightarrow> (Inl (writeErr 400 ''bad_public_key''), s)
         | Some pub \<Rightarrow>
             (let dev = dev\<lparr>dev_PublicKey := Some pub\<rparr>
              in case st_UpsertDevice (v_ops v) dev s of
                   (Some e, s) \<Rightarrow> (Inl (writeErr 500 ''store_error''), s)
                 | (None, s) \<Rightarrow> (checked dev, s)))"

definition qr_payload :: "('s, 'b) svc \<Rightarrow> string \<Rightarrow> device \<Rightarrow> qrPayload" where
  "qr_payload v secret dev =
     \<lparr>qr_V = pairingQRVersion, qr_PairingToken = secret,
      qr_DesktopPubKey = (case dev_PublicKey dev of None \<Rightarrow> '''' | Some k \<Rightarrow> base64_EncodeToString k),
      qr_DesktopDeviceID = dev_ID dev,
      qr_Endpoints = [(''relay'', a_relayURL (v_cfg v)), (''auth'', a_authURL (v_cfg v))]\<rparr>"

definition mint_pairing_token ::
  "('s, 'b) svc \<Rightarrow> time \<Rightarrow> bytes \<Rightarrow> string \<Rightarrow> license \<Rightarrow> device \<Rightarrow> 's \<Rightarrow> response \<times> 's" where
  "mint_pairing_token v now rnd accountID lic dev s =
     (let secret = NewID ''pt'' rnd;
          pt = \<lparr>pt_ID = hashSecret (v_sha256 v) secret, pt_AccountID = accountID, pt_LicenseID = lic_ID lic,
            pt_DesktopDeviceID = dev_ID dev, pt_ExpiresAt = now + a_pairingTokenTTL (v_cfg v), pt_ConsumedAt = 0,
            pt_ResultPairID = ''''\<rparr>
      in case st_CreatePairingToken (v_ops v) pt s of
           (Some e, s) \<Rightarrow> (writeErr 500 ''store_error'', s)
         | (None, s) \<Rightarrow>
             ((200, PairingTokenResp secret (trunc_div (a_pairingTokenTTL (v_cfg v)) second) (qr_payload v secret dev)), s))"

definition handleCreatePairingToken :: "('s, 'b) svc \<Rightarrow> readings \<Rightarrow> request \<Rightarrow> 's \<Rightarrow> response \<times> 's" where
  "handleCreatePairingToken v rd r s =
     (case authenticateAccount v r s of
        None \<Rightarrow> (writeErr 401 ''unauthorized'', s)
      | Some accountID \<Rightarrow>
          (case decodeJSON pairingTokenReq r of
             None \<Rightarrow> (writeErr 400 ''bad_request'', s)
           | Some req \<Rightarrow>
               (let licenseID = field req ''license_id''; desktopID = field req ''desktop_device_id''
                in if licenseID = '''' \<or> desktopID = '''' then (writeErr 400 ''bad_request'', s)
                   else case st_GetLicense (v_ops v) s licenseID of
                     Inl e \<Rightarrow> (writeErr 404 ''license_not_found'', s)
                   | Inr lic \<Rightarrow>
                       (if lic_AccountID lic \<noteq> accountID then (writeErr 404 ''license_not_found'', s)
                        else if \<not> licenseIssuable v (r_now rd 0) lic s then (writeErr 403 ''license_invalid'', s)
                        else case deviceForRole v desktopID accountID RoleDesktop s of
                          None \<Rightarrow> (writeErr 400 ''bad_devices'', s)
                        | Some dev \<Rightarrow>
                            (case pairing_slot v lic (dev_ID dev) s of
                               Inl resp \<Rightarrow> (resp, s)
                             | Inr _ \<Rightarrow>
                                 (case desktop_key v dev (field req ''desktop_public_key'') s of
                                    (Inl resp, s) \<Rightarrow> (resp, s)
                                  | (Inr dev, s) \<Rightarrow>
                                      mint_pairing_token v (r_now rd 1) (r_rand rd 0) accountID lic dev s))))))"

subsection \<open>Completing a pairing\<close>

definition completePairingReq :: "string list" where
  "completePairingReq = [''pairing_token'', ''mobile_device_id'', ''mobile_public_key'']"

text \<open>The mobile device: the one named, or one registered from its key under the token's account.\<close>

definition resolve_mobile ::
  "('s, 'b) svc \<Rightarrow> time \<Rightarrow> bytes \<Rightarrow> string \<Rightarrow> string \<Rightarrow> bytes \<Rightarrow> 's \<Rightarrow> (response + device) \<times> 's" where
  "resolve_mobile v now rnd accountID mobileID pub s =
     (if mobileID \<noteq> '''' then
        (case deviceForRole v mobileID accountID RoleMobile s of
           None \<Rightarrow> (Inl (writeErr 400 ''bad_devices''), s)
         | Some dev \<Rightarrow> (Inr dev, s))
      else case registerOrFindDevice v now rnd accountID RoleMobile (Some pub) s of
        (Inl DeviceLimit, s) \<Rightarrow> (Inl (writeErr 409 ''device_limit''), s)
      | (Inl (DeviceStoreError e), s) \<Rightarrow> (Inl (writeErr 500 ''store_error''), s)
      | (Inr dev, s) \<Rightarrow> (Inr dev, s))"

text \<open>Replacing the devices of an existing pairing, and cutting off the device that is replaced.\<close>

definition replace_pairing ::
  "('s, 'b) svc \<Rightarrow> time \<Rightarrow> pairing \<Rightarrow> string \<Rightarrow> string \<Rightarrow> ('s, 'b) auth_state \<Rightarrow> response option \<times> ('s, 'b) auth_state" where
  "replace_pairing v now existing mobileID desktopID st =
     (case st_UpdatePairingDevices (v_ops v) (pr_PairID existing) mobileID desktopID (au_store st) of
        (Some e, s) \<Rightarrow> (Some (writeErr 500 ''store_error''), st\<lparr>au_store := s\<rparr>)
      | (None, s) \<Rightarrow>
          (let evicted = pr_MobileDeviceID existing;
               s = (if evicted \<noteq> '''' \<and> evicted \<noteq> mobileID
                    then snd (st_RevokeRefreshTokensByDevice (v_ops v) evicted now s) else s)
           in (None, \<lparr>au_store = s,
                 au_bp = publishRevocation v \<lparr>re_PairID = pr_PairID existing, re_AccountID = ''''\<rparr> (au_bp st)\<rparr>)))"

definition create_pairing ::
  "('s, 'b) svc \<Rightarrow> pairing \<Rightarrow> int \<Rightarrow> ('s, 'b) auth_state \<Rightarrow> response option \<times> ('s, 'b) auth_state" where
  "create_pairing v p maxPairs st =
     (case st_CreatePairingWithinCapacity (v_ops v) p maxPairs (au_store st) of
        (None, s) \<Rightarrow> (None, st\<lparr>au_store := s\<rparr>)
      | (Some e, s) \<Rightarrow>
          (Some (if e = ErrCapacityExceeded then writeErr 409 ''capacity_exceeded'' else writeErr 500 ''store_error''),
           st\<lparr>au_store := s\<rparr>))"

definition issue_credential ::
  "('s, 'b) svc \<Rightarrow> time \<Rightarrow> bytes \<Rightarrow> string \<Rightarrow> pairing_token \<Rightarrow> license \<Rightarrow> device \<Rightarrow> device \<Rightarrow> 's \<Rightarrow> response \<times> 's" where
  "issue_credential v now rnd pairID pt lic mobile desktop s =
     (let credSecret = newPairCredential pairID rnd
      in case st_PutPairCredential (v_ops v) \<lparr>pc_PairID = pairID, pc_AccountID = pt_AccountID pt,
             pc_LicenseID = lic_ID lic, pc_MobileDeviceID = dev_ID mobile,
             pc_SecretHash = hashSecret (v_sha256 v) credSecret, pc_CreatedAt = now, pc_RevokedAt = 0\<rparr> s of
           (Some e, s) \<Rightarrow> (writeErr 500 ''store_error'', s)
         | (None, s) \<Rightarrow>
             ((200, CompletePairingResp pairID
                (case dev_PublicKey desktop of None \<Rightarrow> '''' | Some k \<Rightarrow> base64_EncodeToString k) (dev_ID mobile) credSecret), s))"

text \<open>What follows once the pairing token is consumed.\<close>

definition finish_pairing ::
  "('s, 'b) svc \<Rightarrow> readings \<Rightarrow> pairing_token \<Rightarrow> license \<Rightarrow> pairing option \<Rightarrow> int \<Rightarrow> string \<Rightarrow> device \<Rightarrow> device \<Rightarrow> bytes \<Rightarrow>
   ('s, 'b) auth_state \<Rightarrow> response \<times> ('s, 'b) auth_state" where
  "finish_pairing v rd pt lic existing maxPairs pairID mobile desktop mobilePub st =
     (let mobile = mobile\<lparr>dev_PublicKey := Some mobilePub\<rparr>
      in case st_UpsertDevice (v_ops v) mobile (au_store st) of
        (Some e, s) \<Rightarrow> (writeErr 500 ''store_error'', st\<lparr>au_store := s\<rparr>)
      | (None, s) \<Rightarrow>
          (case (case existing of
                   Some ex \<Rightarrow> replace_pairing v (r_now rd 4) ex (dev_ID mobile) (dev_ID desktop) (st\<lparr>au_store := s\<rparr>)
                 | None \<Rightarrow>
                     create_pairing v \<lparr>pr_PairID = pairID, pr_LicenseID = lic_ID lic, pr_AccountID = pt_AccountID pt,
                       pr_MobileDeviceID = dev_ID mobile, pr_DesktopDeviceID = dev_ID desktop,
                       pr_Status = PairingActive, pr_CreatedAt = r_now rd 5\<rparr> maxPairs (st\<lparr>au_store := s\<rparr>)) of
             (Some resp, st) \<Rightarrow> (resp, st)
           | (None, st) \<Rightarrow>
               (case issue_credential v (r_now rd 6) (r_rand rd 2) pairID pt lic mobile desktop (au_store st) of
                  (resp, s) \<Rightarrow> (resp, st\<lparr>au_store := s\<rparr>))))"

text \<open>The token is consumed before anything else is written, for the pairing it will stand for.\<close>

definition consume_and_finish ::
  "('s, 'b) svc \<Rightarrow> readings \<Rightarrow> pairing_token \<Rightarrow> license \<Rightarrow> device \<Rightarrow> device \<Rightarrow> bytes \<Rightarrow>
   ('s, 'b) auth_state \<Rightarrow> response \<times> ('s, 'b) auth_state" where
  "consume_and_finish v rd pt lic mobile desktop mobilePub st =
     (case pairing_slot v lic (pt_DesktopDeviceID pt) (au_store st) of
        Inl resp \<Rightarrow> (resp, st)
      | Inr (existing, maxPairs) \<Rightarrow>
          (let pairID = (case existing of Some ex \<Rightarrow> pr_PairID ex | None \<Rightarrow> NewID ''pair'' (r_rand rd 1))
           in case st_ConsumePairingToken (v_ops v) (pt_ID pt) pairID (r_now rd 3) (au_store st) of
                (Some e, s) \<Rightarrow>
                  (if e = ErrConflict then writeErr 409 ''pairing_token_used'' else writeErr 500 ''store_error'',
                   st\<lparr>au_store := s\<rparr>)
              | (None, s) \<Rightarrow>
                  finish_pairing v rd pt lic existing maxPairs pairID mobile desktop mobilePub (st\<lparr>au_store := s\<rparr>)))"

definition handleCompletePairing ::
  "('s, 'b) svc \<Rightarrow> readings \<Rightarrow> request \<Rightarrow> ('s, 'b) auth_state \<Rightarrow> response \<times> ('s, 'b) auth_state" where
  "handleCompletePairing v rd r st =
     (case decodeJSON completePairingReq r of
        None \<Rightarrow> (writeErr 400 ''bad_request'', st)
      | Some req \<Rightarrow>
          (if field req ''pairing_token'' = '''' \<or> field req ''mobile_public_key'' = ''''
           then (writeErr 400 ''bad_request'', st)
           else case st_GetPairingToken (v_ops v) (au_store st) (hashSecret (v_sha256 v) (field req ''pairing_token'')) of
             Inl e \<Rightarrow> (writeErr 401 ''pairing_token_invalid'', st)
           | Inr pt \<Rightarrow>
               (if \<not> pt_Active pt (r_now rd 0) then (writeErr 401 ''pairing_token_invalid'', st)
                else case st_GetLicense (v_ops v) (au_store st) (pt_LicenseID pt) of
                  Inl e \<Rightarrow> (writeErr 403 ''license_invalid'', st)
                | Inr lic \<Rightarrow>
                    (if \<not> licenseIssuable v (r_now rd 1) lic (au_store st) then (writeErr 403 ''license_invalid'', st)
                     else case base64_DecodeString (field req ''mobile_public_key'') of
                       None \<Rightarrow> (writeErr 400 ''bad_public_key'', st)
                     | Some mobilePub \<Rightarrow>
                         (if mobilePub = [] then (writeErr 400 ''bad_public_key'', st)
                          else case resolve_mobile v (r_now rd 2) (r_rand rd 0) (pt_AccountID pt)
                                  (field req ''mobile_device_id'') mobilePub (au_store st) of
                            (Inl resp, s) \<Rightarrow> (resp, st\<lparr>au_store := s\<rparr>)
                          | (Inr mobile, s) \<Rightarrow>
                              (case st_GetDevice (v_ops v) s (pt_DesktopDeviceID pt) of
                                 Inl e \<Rightarrow> (writeErr 403 ''desktop_unavailable'', st\<lparr>au_store := s\<rparr>)
                               | Inr desktop \<Rightarrow>
                                   (if len_key (dev_PublicKey desktop) = 0
                                    then (writeErr 403 ''desktop_unavailable'', st\<lparr>au_store := s\<rparr>)
                                    else consume_and_finish v rd pt lic mobile desktop mobilePub
                                           (st\<lparr>au_store := s\<rparr>))))))))"

subsection \<open>Polling and unpairing\<close>

definition pollPairingReq :: "string list" where "pollPairingReq = [''pairing_token'']"

definition handlePollPairingToken :: "('s, 'b) svc \<Rightarrow> readings \<Rightarrow> request \<Rightarrow> 's \<Rightarrow> response" where
  "handlePollPairingToken v rd r s =
     (case authenticateAccount v r s of
        None \<Rightarrow> writeErr 401 ''unauthorized''
      | Some accountID \<Rightarrow>
          (case decodeJSON pollPairingReq r of
             None \<Rightarrow> writeErr 400 ''bad_request''
           | Some req \<Rightarrow>
               (if field req ''pairing_token'' = '''' then writeErr 400 ''bad_request''
                else case st_GetPairingToken (v_ops v) s (hashSecret (v_sha256 v) (field req ''pairing_token'')) of
                  Inl e \<Rightarrow> writeErr 404 ''pairing_token_not_found''
                | Inr pt \<Rightarrow>
                    (if pt_AccountID pt \<noteq> accountID then writeErr 404 ''pairing_token_not_found''
                     else if \<not> IsZero (pt_ConsumedAt pt) then
                       (case st_GetPairing (v_ops v) s (pt_ResultPairID pt) of
                          Inl e \<Rightarrow> writeErr 500 ''store_error''
                        | Inr p \<Rightarrow>
                            (case st_GetDevice (v_ops v) s (pr_MobileDeviceID p) of
                               Inl e \<Rightarrow> writeErr 500 ''store_error''
                             | Inr mobile \<Rightarrow>
                                 (200, PollPairingResp ''completed'' (pt_ResultPairID pt)
                                    (case dev_PublicKey mobile of None \<Rightarrow> '''' | Some k \<Rightarrow> base64_EncodeToString k))))
                     else if \<not> r_now rd 0 < pt_ExpiresAt pt then (200, PollPairingResp ''expired'' '''' '''')
                     else (200, PollPairingResp ''pending'' '''' '''')))))"

definition unpairReq :: "string list" where "unpairReq = [''pair_id'']"

definition handleUnpair ::
  "('s, 'b) svc \<Rightarrow> readings \<Rightarrow> request \<Rightarrow> ('s, 'b) auth_state \<Rightarrow> response \<times> ('s, 'b) auth_state" where
  "handleUnpair v rd r st =
     (case authenticateAccountOrPair v (r_now rd 0) r (au_store st) of
        None \<Rightarrow> (writeErr 401 ''unauthorized'', st)
      | Some (accountID, cred) \<Rightarrow>
          (case decodeJSON unpairReq r of
             None \<Rightarrow> (writeErr 400 ''bad_request'', st)
           | Some req \<Rightarrow>
               (let pairID = field req ''pair_id''
                in if pairID = '''' then (writeErr 400 ''bad_request'', st)
                   else if (case cred of None \<Rightarrow> False | Some c \<Rightarrow> pc_PairID c \<noteq> pairID)
                     then (writeErr 404 ''pairing_not_found'', st)
                   else case st_GetPairing (v_ops v) (au_store st) pairID of
                     Inl e \<Rightarrow> (writeErr 404 ''pairing_not_found'', st)
                   | Inr p \<Rightarrow>
                       (if pr_AccountID p \<noteq> accountID then (writeErr 404 ''pairing_not_found'', st)
                        else case st_SetPairingStatus (v_ops v) (pr_PairID p) PairingRevoked (au_store st) of
                          (Some e, s) \<Rightarrow> (writeErr 500 ''store_error'', st\<lparr>au_store := s\<rparr>)
                        | (None, s) \<Rightarrow>
                            ((200, StatusResp ''revoked''),
                             \<lparr>au_store = snd (st_RevokePairCredential (v_ops v) (pr_PairID p) (r_now rd 1) s),
                              au_bp = publishRevocation v \<lparr>re_PairID = pr_PairID p, re_AccountID = ''''\<rparr> (au_bp st)\<rparr>)))))"

subsection \<open>What a completion leaves behind\<close>

text \<open>
  The steps of a completion that succeeds, one lemma per definition.
\<close>

lemma resolve_mobile_Inr:
  assumes "resolve_mobile v now rnd acct mid pub s = (Inr dev, s')"
  shows "mid \<noteq> '''' \<and> s' = s \<and> deviceForRole v mid acct RoleMobile s = Some dev \<or>
    mid = '''' \<and> registerOrFindDevice v now rnd acct RoleMobile (Some pub) s = (Inr dev, s')"
  using assms by (auto simp: resolve_mobile_def split: if_splits option.splits prod.splits sum.splits device_error.splits)

lemma pairing_slot_Inr:
  assumes "pairing_slot v lic d s = Inr (ex, n)"
  shows "(case ex of
      Some p \<Rightarrow> \<exists>ps. st_ListActivePairingsByLicense (v_ops v) s (lic_ID lic) = Inr ps \<and> p \<in> set ps \<and> pr_DesktopDeviceID p = d
    | None \<Rightarrow> \<exists>sub. st_GetSubscription (v_ops v) s (lic_SubscriptionID lic) = Inr sub \<and> n = sub_MaxPairs sub)"
proof (cases ex)
  case None
  then show ?thesis using assms
    by (auto simp: pairing_slot_def capacityAvailable_def split: sum.splits option.splits prod.splits if_splits)
next
  case (Some p)
  then have "activePairingForDesktop v (lic_ID lic) d s = Inr (Some p)" using assms
    by (auto simp: pairing_slot_def split: sum.splits option.splits prod.splits if_splits)
  then obtain ps where "st_ListActivePairingsByLicense (v_ops v) s (lic_ID lic) = Inr ps"
    "find (\<lambda>p. pr_DesktopDeviceID p = d) ps = Some p"
    by (auto simp: activePairingForDesktop_def split: sum.splits)
  then show ?thesis using Some by (auto simp: find_Some_iff)
qed

lemma consume_and_finish_200:
  assumes "consume_and_finish v rd pt lic mobile desktop pub st = ((200, b), st')"
  obtains ex n pid s where "pairing_slot v lic (pt_DesktopDeviceID pt) (au_store st) = Inr (ex, n)"
    "pid = (case ex of Some p \<Rightarrow> pr_PairID p | None \<Rightarrow> NewID ''pair'' (r_rand rd 1))"
    "st_ConsumePairingToken (v_ops v) (pt_ID pt) pid (r_now rd 3) (au_store st) = (None, s)"
    "finish_pairing v rd pt lic ex n pid mobile desktop pub (st\<lparr>au_store := s\<rparr>) = ((200, b), st')"
proof (cases "pairing_slot v lic (pt_DesktopDeviceID pt) (au_store st)")
  case (Inl resp)
  moreover have "\<not> (\<exists>b. resp = (200, b))" using Inl
    by (auto simp: pairing_slot_def writeErr_def split: sum.splits option.splits prod.splits if_splits)
  ultimately show thesis using assms by (auto simp: consume_and_finish_def)
next
  case (Inr y)
  obtain ex n where y: "y = (ex, n)" by fastforce
  let ?pid = "case ex of Some p \<Rightarrow> pr_PairID p | None \<Rightarrow> NewID ''pair'' (r_rand rd 1)"
  obtain e s where c: "st_ConsumePairingToken (v_ops v) (pt_ID pt) ?pid (r_now rd 3) (au_store st) = (e, s)" by fastforce
  show thesis
  proof (cases e)
    case None
    then show thesis using that [of ex n ?pid s] Inr y c assms by (simp add: consume_and_finish_def Let_def)
  next
    case (Some er)
    then show thesis using Inr y c assms by (simp add: consume_and_finish_def Let_def writeErr_def split: if_splits)
  qed
qed

lemma replace_pairing_None:
  assumes "replace_pairing v now ex mid did st = (None, st')"
  obtains s where "st_UpdatePairingDevices (v_ops v) (pr_PairID ex) mid did (au_store st) = (None, s)"
    "au_store st' = s \<or> au_store st' = snd (st_RevokeRefreshTokensByDevice (v_ops v) (pr_MobileDeviceID ex) now s)"
    "au_bp st' = publishRevocation v \<lparr>re_PairID = pr_PairID ex, re_AccountID = ''''\<rparr> (au_bp st)"
proof -
  obtain e s where u: "st_UpdatePairingDevices (v_ops v) (pr_PairID ex) mid did (au_store st) = (e, s)" by fastforce
  then have "e = None" using assms by (cases e) (simp_all add: replace_pairing_def)
  with that [of s] u assms show thesis by (auto simp: replace_pairing_def Let_def split: if_splits)
qed

lemma create_pairing_None:
  "create_pairing v p n st = (None, st') \<Longrightarrow>
     st_CreatePairingWithinCapacity (v_ops v) p n (au_store st) = (None, au_store st') \<and> au_bp st' = au_bp st"
  by (auto simp: create_pairing_def split: prod.splits option.splits)

lemma issue_credential_200:
  assumes "issue_credential v now rnd pid pt lic mobile desktop s = ((200, b), s')"
  shows "st_PutPairCredential (v_ops v) \<lparr>pc_PairID = pid, pc_AccountID = pt_AccountID pt,
             pc_LicenseID = lic_ID lic, pc_MobileDeviceID = dev_ID mobile,
             pc_SecretHash = hashSecret (v_sha256 v) (newPairCredential pid rnd), pc_CreatedAt = now, pc_RevokedAt = 0\<rparr> s = (None, s') \<and>
    b = CompletePairingResp pid (case dev_PublicKey desktop of None \<Rightarrow> '''' | Some k \<Rightarrow> base64_EncodeToString k)
          (dev_ID mobile) (newPairCredential pid rnd)"
  using assms by (auto simp: issue_credential_def Let_def writeErr_def split: prod.splits option.splits)

lemma finish_pairing_200:
  assumes "finish_pairing v rd pt lic ex n pid mobile desktop pub st = ((200, b), st')"
  obtains s st1 where
    "st_UpsertDevice (v_ops v) (mobile\<lparr>dev_PublicKey := Some pub\<rparr>) (au_store st) = (None, s)"
    "(case ex of
        Some p \<Rightarrow> replace_pairing v (r_now rd 4) p (dev_ID mobile) (dev_ID desktop) (st\<lparr>au_store := s\<rparr>)
      | None \<Rightarrow> create_pairing v \<lparr>pr_PairID = pid, pr_LicenseID = lic_ID lic, pr_AccountID = pt_AccountID pt,
          pr_MobileDeviceID = dev_ID mobile, pr_DesktopDeviceID = dev_ID desktop, pr_Status = PairingActive,
          pr_CreatedAt = r_now rd 5\<rparr> n (st\<lparr>au_store := s\<rparr>)) = (None, st1)"
    "issue_credential v (r_now rd 6) (r_rand rd 2) pid pt lic (mobile\<lparr>dev_PublicKey := Some pub\<rparr>) desktop (au_store st1)
       = ((200, b), au_store st')"
    "au_bp st' = au_bp st1"
proof -
  let ?m = "mobile\<lparr>dev_PublicKey := Some pub\<rparr>"
  obtain e s where u: "st_UpsertDevice (v_ops v) ?m (au_store st) = (e, s)" by fastforce
  define step where "step = (case ex of
        Some p \<Rightarrow> replace_pairing v (r_now rd 4) p (dev_ID mobile) (dev_ID desktop) (st\<lparr>au_store := s\<rparr>)
      | None \<Rightarrow> create_pairing v \<lparr>pr_PairID = pid, pr_LicenseID = lic_ID lic, pr_AccountID = pt_AccountID pt,
          pr_MobileDeviceID = dev_ID mobile, pr_DesktopDeviceID = dev_ID desktop, pr_Status = PairingActive,
          pr_CreatedAt = r_now rd 5\<rparr> n (st\<lparr>au_store := s\<rparr>))"
  obtain er st1 where t: "step = (er, st1)" by fastforce
  have e: "e = None" using assms u by (cases e) (simp_all add: finish_pairing_def writeErr_def)
  have "fst resp \<noteq> 200" if "er = Some resp" for resp
    using t that by (auto simp: step_def replace_pairing_def create_pairing_def writeErr_def Let_def
        split: option.splits prod.splits if_splits)
  moreover have fe: "finish_pairing v rd pt lic ex n pid mobile desktop pub st =
      (case step of (Some resp, st) \<Rightarrow> (resp, st)
       | (None, st) \<Rightarrow> (case issue_credential v (r_now rd 6) (r_rand rd 2) pid pt lic ?m desktop (au_store st) of
                  (resp, s) \<Rightarrow> (resp, st\<lparr>au_store := s\<rparr>)))"
    using u e by (cases ex) (simp_all add: finish_pairing_def step_def Let_def)
  ultimately have "er = None" using assms t by (cases er) auto
  with assms fe t have "issue_credential v (r_now rd 6) (r_rand rd 2) pid pt lic ?m desktop (au_store st1) = ((200, b), au_store st')"
    "au_bp st' = au_bp st1" by (auto split: prod.splits)
  with that [of s st1] u e t \<open>er = None\<close> show thesis by (simp add: step_def)
qed

context auth_store
begin

text \<open>
  Once the token is consumed: the pairing has the two devices, everything else about it is as it was when it is
  replaced, the mobile's key and the credential are stored, the pairing tokens are untouched and the licence is
  within the capacity that was read.
\<close>

lemma replace_effect:
  assumes "v_ops v = ops" and "inv (au_store st)" and "replace_pairing v now p mid did st = (None, st')"
    and "db_pairings (view (au_store st)) (pr_PairID p) = Some p"
  shows "inv (au_store st') \<and>
    db_pairings (view (au_store st')) =
      (db_pairings (view (au_store st)))(pr_PairID p \<mapsto> p\<lparr>pr_MobileDeviceID := mid, pr_DesktopDeviceID := did\<rparr>) \<and>
    db_devices (view (au_store st')) = db_devices (view (au_store st)) \<and>
    db_licenses (view (au_store st')) = db_licenses (view (au_store st)) \<and>
    db_pairingTokens (view (au_store st')) = db_pairingTokens (view (au_store st))"
proof -
  obtain s where u: "st_UpdatePairingDevices ops (pr_PairID p) mid did (au_store st) = (None, s)"
    and r: "au_store st' = s \<or> au_store st' = snd (exec ops (RevokeRefreshTokensByDevice (pr_MobileDeviceID p) now) s)"
    using replace_pairing_None [OF assms(3)] assms(1) by (metis answered_simps(2) exec.simps(13))
  have s: "inv s" "view s = (view (au_store st))\<lparr>db_pairings :=
      (db_pairings (view (au_store st)))(pr_PairID p \<mapsto> p\<lparr>pr_MobileDeviceID := mid, pr_DesktopDeviceID := did\<rparr>)\<rparr>"
    using write_None [OF assms(2), of "UpdatePairingDevices (pr_PairID p) mid did" s] u assms(4) by (auto simp: row_defs)
  from r show ?thesis
  proof
    assume "au_store st' = s"
    then show ?thesis using s by simp
  next
    assume "au_store st' = snd (exec ops (RevokeRefreshTokensByDevice (pr_MobileDeviceID p) now) s)"
    then show ?thesis using s exec_inv [OF s(1)] exec_view [OF s(1), of "RevokeRefreshTokensByDevice (pr_MobileDeviceID p) now"]
      by (auto simp del: exec.simps)
  qed
qed

lemma create_effect:
  assumes "v_ops v = ops" and "inv (au_store st)" and "create_pairing v p n st = (None, st')"
  shows "inv (au_store st') \<and> db_pairings (view (au_store st)) (pr_PairID p) = None \<and>
    int (card (active_pairs (view (au_store st)) (pr_LicenseID p))) < n \<and>
    view (au_store st') = (view (au_store st))\<lparr>db_pairings := (db_pairings (view (au_store st)))(pr_PairID p \<mapsto> p)\<rparr>"
  using write_None [OF assms(2), of "CreatePairingWithinCapacity p n" "au_store st'"] create_pairing_None [OF assms(3)] assms(1)
  by (auto simp: row_defs split: option.splits if_splits)

end

context auth_store
begin

lemma finish_effect:
  assumes "v_ops v = ops" and "inv (au_store st)"
    and "finish_pairing v rd pt lic ex n pid mobile desktop pub st = ((200, b), st')"
    and "\<And>p. ex = Some p \<Longrightarrow> pid = pr_PairID p \<and> db_pairings (view (au_store st)) pid = Some p"
  obtains p c where "inv (au_store st')"
    "db_pairings (view (au_store st')) = (db_pairings (view (au_store st)))(pid \<mapsto> p)"
    "pr_MobileDeviceID p = dev_ID mobile" "pr_DesktopDeviceID p = dev_ID desktop"
    "case ex of Some q \<Rightarrow> p = q\<lparr>pr_MobileDeviceID := dev_ID mobile, pr_DesktopDeviceID := dev_ID desktop\<rparr>
       | None \<Rightarrow> pr_PairID p = pid \<and> pr_LicenseID p = lic_ID lic \<and> pr_AccountID p = pt_AccountID pt \<and>
           pr_Status p = PairingActive \<and> int (card (active_pairs (view (au_store st)) (lic_ID lic))) < n \<and>
           db_pairings (view (au_store st)) pid = None"
    "db_pairCredentials (view (au_store st')) pid = Some c" "pc_PairID c = pid" "pc_AccountID c = pt_AccountID pt"
    "pc_MobileDeviceID c = dev_ID mobile" "pc_RevokedAt c = 0"
    "pc_SecretHash c = hashSecret (v_sha256 v) (newPairCredential pid (r_rand rd 2))"
    "db_devices (view (au_store st')) (dev_ID mobile) = Some (mobile\<lparr>dev_PublicKey := Some pub\<rparr>)"
    "db_pairingTokens (view (au_store st')) = db_pairingTokens (view (au_store st))"
    "db_licenses (view (au_store st')) = db_licenses (view (au_store st))"
    "b = CompletePairingResp pid (case dev_PublicKey desktop of None \<Rightarrow> '''' | Some k \<Rightarrow> base64_EncodeToString k)
          (dev_ID mobile) (newPairCredential pid (r_rand rd 2))"
proof -
  let ?m = "mobile\<lparr>dev_PublicKey := Some pub\<rparr>"
  let ?p = "\<lparr>pr_PairID = pid, pr_LicenseID = lic_ID lic, pr_AccountID = pt_AccountID pt,
          pr_MobileDeviceID = dev_ID mobile, pr_DesktopDeviceID = dev_ID desktop, pr_Status = PairingActive,
          pr_CreatedAt = r_now rd 5\<rparr>"
  define c where "c = \<lparr>pc_PairID = pid, pc_AccountID = pt_AccountID pt,
             pc_LicenseID = lic_ID lic, pc_MobileDeviceID = dev_ID ?m,
             pc_SecretHash = hashSecret (v_sha256 v) (newPairCredential pid (r_rand rd 2)), pc_CreatedAt = r_now rd 6, pc_RevokedAt = 0\<rparr>"
  obtain s st1 where u: "st_UpsertDevice ops ?m (au_store st) = (None, s)"
    and t: "(case ex of
        Some p \<Rightarrow> replace_pairing v (r_now rd 4) p (dev_ID mobile) (dev_ID desktop) (st\<lparr>au_store := s\<rparr>)
      | None \<Rightarrow> create_pairing v ?p n (st\<lparr>au_store := s\<rparr>)) = (None, st1)"
    and i: "issue_credential v (r_now rd 6) (r_rand rd 2) pid pt lic ?m desktop (au_store st1) = ((200, b), au_store st')"
    using finish_pairing_200 [OF assms(3)] assms(1) by metis
  have s: "inv s" "view s = (view (au_store st))\<lparr>db_devices := (db_devices (view (au_store st)))(dev_ID mobile \<mapsto> ?m)\<rparr>"
    using write_None [OF assms(2), of "UpsertDevice ?m" s] u by (simp_all add: merge_device_def)
  have "\<exists>p. inv (au_store st1) \<and> db_pairings (view (au_store st1)) = (db_pairings (view (au_store st)))(pid \<mapsto> p) \<and>
      pr_MobileDeviceID p = dev_ID mobile \<and> pr_DesktopDeviceID p = dev_ID desktop \<and>
      (case ex of Some q \<Rightarrow> p = q\<lparr>pr_MobileDeviceID := dev_ID mobile, pr_DesktopDeviceID := dev_ID desktop\<rparr>
       | None \<Rightarrow> pr_PairID p = pid \<and> pr_LicenseID p = lic_ID lic \<and> pr_AccountID p = pt_AccountID pt \<and>
           pr_Status p = PairingActive \<and> int (card (active_pairs (view (au_store st)) (lic_ID lic))) < n \<and>
           db_pairings (view (au_store st)) pid = None) \<and>
      db_devices (view (au_store st1)) (dev_ID mobile) = Some ?m \<and>
      db_licenses (view (au_store st1)) = db_licenses (view (au_store st)) \<and>
      db_pairingTokens (view (au_store st1)) = db_pairingTokens (view (au_store st))"
  proof (cases ex)
    case None
    then have "create_pairing v ?p n (st\<lparr>au_store := s\<rparr>) = (None, st1)" using t by simp
    note e = create_effect [OF assms(1) _ this]
    show ?thesis using e s None by (intro exI [of _ ?p]) (simp add: active_pairs_def)
  next
    case (Some p)
    then have r: "replace_pairing v (r_now rd 4) p (dev_ID mobile) (dev_ID desktop) (st\<lparr>au_store := s\<rparr>) = (None, st1)"
      using t by simp
    have "pid = pr_PairID p" "db_pairings (view s) (pr_PairID p) = Some p" using assms(4) [OF Some] s by auto
    then show ?thesis using replace_effect [OF assms(1) _ r] s Some
      by (intro exI [of _ "p\<lparr>pr_MobileDeviceID := dev_ID mobile, pr_DesktopDeviceID := dev_ID desktop\<rparr>"]) simp
  qed
  then obtain p where st1: "inv (au_store st1)" and p: "db_pairings (view (au_store st1)) = (db_pairings (view (au_store st)))(pid \<mapsto> p)"
      "pr_MobileDeviceID p = dev_ID mobile" "pr_DesktopDeviceID p = dev_ID desktop"
      "case ex of Some q \<Rightarrow> p = q\<lparr>pr_MobileDeviceID := dev_ID mobile, pr_DesktopDeviceID := dev_ID desktop\<rparr>
       | None \<Rightarrow> pr_PairID p = pid \<and> pr_LicenseID p = lic_ID lic \<and> pr_AccountID p = pt_AccountID pt \<and>
           pr_Status p = PairingActive \<and> int (card (active_pairs (view (au_store st)) (lic_ID lic))) < n \<and>
           db_pairings (view (au_store st)) pid = None"
      "db_devices (view (au_store st1)) (dev_ID mobile) = Some ?m"
      "db_licenses (view (au_store st1)) = db_licenses (view (au_store st))"
      "db_pairingTokens (view (au_store st1)) = db_pairingTokens (view (au_store st))" by blast
  have put: "inv (au_store st')" "view (au_store st') = (view (au_store st1))\<lparr>db_pairCredentials := (db_pairCredentials (view (au_store st1)))(pid \<mapsto> c)\<rparr>"
    using write_None [OF st1, of "PutPairCredential c" "au_store st'"] issue_credential_200 [OF i] assms(1)
    by (simp_all add: c_def)
  show thesis
    by (rule that [of p c]) (use put p issue_credential_200 [OF i] in \<open>simp_all add: c_def\<close>)
qed

end

definition pairing_secret :: "request \<Rightarrow> string" where
  "pairing_secret r = (case decodeJSON completePairingReq r of None \<Rightarrow> '''' | Some req \<Rightarrow> field req ''pairing_token'')"

text \<open>\<open>licensed cfg d now k lic\<close>: the licence \<open>k\<close> permits new tokens and pairings at \<open>now\<close>.\<close>

definition licensed :: "service \<Rightarrow> db \<Rightarrow> time \<Rightarrow> license \<Rightarrow> bool" where
  "licensed cfg d now lic \<longleftrightarrow>
     db_licenses d (lic_ID lic) = Some lic \<and> lic_Status lic = LicenseActive \<and>
     (a_billingEnabled cfg \<longrightarrow>
        (\<exists>sub. db_subscriptions d (lic_SubscriptionID lic) = Some sub \<and> Issuable (Evaluate sub now)))"

context auth_store
begin

lemma licensedI:
  assumes "v_ops v = ops" and "inv s" and "st_GetLicense ops s k = Inr lic" and "licenseIssuable v now lic s"
  shows "lic_ID lic = k \<and> licensed (v_cfg v) (view s) now lic"
proof -
  have l: "db_licenses (view s) k = Some lic" using get_license [OF assms(2), of k] assms(3) by simp
  then have "lic_ID lic = k" using view_ok [OF assms(2)] by (simp add: db_ok_def)
  moreover have "lic_Status lic = LicenseActive \<and> (a_billingEnabled (v_cfg v) \<longrightarrow>
      (\<exists>sub. db_subscriptions (view s) (lic_SubscriptionID lic) = Some sub \<and> Issuable (Evaluate sub now)))"
    using assms(1,4) get_subscription [OF assms(2), of "lic_SubscriptionID lic"]
    by (auto simp: licenseIssuable_def split: if_splits sum.splits)
  ultimately show ?thesis using l by (simp add: licensed_def)
qed

lemma resolve_effect:
  assumes "v_ops v = ops" and "inv s" and "resolve_mobile v now rnd acct mid pub s = (Inr dev, s')"
  shows "inv s' \<and> (\<exists>D. view s' = (view s)\<lparr>db_devices := D\<rparr>) \<and> dev_AccountID dev = acct \<and> dev_Role dev = RoleMobile"
proof (cases "mid = ''''")
  case True
  then have r: "registerOrFindDevice v now rnd acct RoleMobile (Some pub) s = (Inr dev, s')"
    using resolve_mobile_Inr [OF assms(3)] by simp
  from assms(1,2) r show ?thesis
  proof (cases rule: register_cases)
    case (existing key dev')
    moreover have "view s = (view s)\<lparr>db_devices := db_devices (view s)\<rparr>" by simp
    ultimately show ?thesis using assms(2) by blast
  qed auto
next
  case False
  have "\<exists>D. view s = (view s)\<lparr>db_devices := D\<rparr>" by (rule exI [of _ "db_devices (view s)"]) simp
  then show ?thesis using resolve_mobile_Inr [OF assms(3)] assms(2) False
    by (auto simp: deviceForRole_def split: sum.splits if_splits)
qed

lemma complete_200:
  assumes "v_ops v = ops" and "inv (au_store st)" and "handleCompletePairing v rd r st = ((200, b), st')"
  obtains pt lic mobile desktop pub s1 mid where
    "pairing_secret r \<noteq> ''''"
    "st_GetPairingToken ops (au_store st) (hashSecret (v_sha256 v) (pairing_secret r)) = Inr pt" "pt_Active pt (r_now rd 0)"
    "st_GetLicense ops (au_store st) (pt_LicenseID pt) = Inr lic" "licenseIssuable v (r_now rd 1) lic (au_store st)"
    "resolve_mobile v (r_now rd 2) (r_rand rd 0) (pt_AccountID pt) mid pub (au_store st) = (Inr mobile, s1)"
    "st_GetDevice ops s1 (pt_DesktopDeviceID pt) = Inr desktop"
    "consume_and_finish v rd pt lic mobile desktop pub (st\<lparr>au_store := s1\<rparr>) = ((200, b), st')"
proof -
  have res: "resolve_mobile v (r_now rd 2) (r_rand rd 0) a mid pub (au_store st) \<noteq> (Inl (200, b'), s1)" for a mid pub b' s1
    by (auto simp: resolve_mobile_def writeErr_def split: if_splits option.splits prod.splits sum.splits device_error.splits)
  obtain req pt lic pub mobile s1 desktop where q: "decodeJSON completePairingReq r = Some req" "field req ''pairing_token'' \<noteq> ''''"
    and pt: "st_GetPairingToken ops (au_store st) (hashSecret (v_sha256 v) (field req ''pairing_token'')) = Inr pt" "pt_Active pt (r_now rd 0)"
    and lic: "st_GetLicense ops (au_store st) (pt_LicenseID pt) = Inr lic" "licenseIssuable v (r_now rd 1) lic (au_store st)"
    and m: "resolve_mobile v (r_now rd 2) (r_rand rd 0) (pt_AccountID pt) (field req ''mobile_device_id'') pub (au_store st) = (Inr mobile, s1)"
    and d: "st_GetDevice ops s1 (pt_DesktopDeviceID pt) = Inr desktop"
    and c: "consume_and_finish v rd pt lic mobile desktop pub (st\<lparr>au_store := s1\<rparr>) = ((200, b), st')"
    using assms(1,3) res
    by (auto simp: handleCompletePairing_def writeErr_def split: option.splits prod.splits if_splits sum.splits)
  have "pairing_secret r = field req ''pairing_token''" using q by (simp add: pairing_secret_def)
  with that q(2) pt lic m d c show thesis by simp
qed

end

context auth_store
begin

text \<open>The pairing to replace is active, of the licence and of the desktop.\<close>

lemma slot_existing:
  assumes "v_ops v = ops" and "inv s" and "pairing_slot v lic d s = Inr (Some q, n)"
  shows "pr_Status q = PairingActive \<and> pr_LicenseID q = lic_ID lic \<and> pr_DesktopDeviceID q = d \<and>
    db_pairings (view s) (pr_PairID q) = Some q"
proof -
  obtain ps where "st_ListActivePairingsByLicense ops s (lic_ID lic) = Inr ps" "q \<in> set ps" "pr_DesktopDeviceID q = d"
    using pairing_slot_Inr [OF assms(3)] assms(1) by auto
  moreover then have "q \<in> ran (db_pairings (view s))" "pr_Status q = PairingActive" "pr_LicenseID q = lic_ID lic"
    using list_pairings_license [OF assms(2), of "lic_ID lic"] by (auto simp: listing_def)
  ultimately show ?thesis using view_ok [OF assms(2)] by (auto simp: db_ok_def ran_def)
qed

lemma slot_new:
  assumes "v_ops v = ops" and "inv s" and "pairing_slot v lic d s = Inr (None, n)"
  shows "\<exists>sub. db_subscriptions (view s) (lic_SubscriptionID lic) = Some sub \<and> n = sub_MaxPairs sub"
  using pairing_slot_Inr [OF assms(3)] assms(1) get_subscription [OF assms(2), of "lic_SubscriptionID lic"] by auto

text \<open>
  \<open>paired d d' pt lic p c x\<close>: the database \<open>d'\<close> is \<open>d\<close> with the pairing \<open>p\<close> of the token \<open>pt\<close> completed, its credential
  \<open>c\<close> and the mobile device \<open>x\<close>.
\<close>

end

definition paired :: "db \<Rightarrow> db \<Rightarrow> pairing_token \<Rightarrow> license \<Rightarrow> pairing \<Rightarrow> pair_credential \<Rightarrow> device \<Rightarrow> bool" where
  "paired d d' pt lic p c x \<longleftrightarrow>
     db_pairings d' = (db_pairings d)(pr_PairID p \<mapsto> p) \<and> db_licenses d' = db_licenses d \<and>
     pr_Status p = PairingActive \<and> pr_LicenseID p = lic_ID lic \<and>
     pr_MobileDeviceID p = dev_ID x \<and> pr_DesktopDeviceID p = pt_DesktopDeviceID pt \<and>
     (case db_pairings d (pr_PairID p) of
        Some q \<Rightarrow> pr_Status q = PairingActive \<and> pr_LicenseID q = lic_ID lic \<and>
          pr_DesktopDeviceID q = pt_DesktopDeviceID pt \<and> pr_AccountID p = pr_AccountID q
      | None \<Rightarrow> pr_AccountID p = pt_AccountID pt \<and>
          (\<exists>sub. db_subscriptions d (lic_SubscriptionID lic) = Some sub \<and>
             int (card (active_pairs d (lic_ID lic))) < sub_MaxPairs sub)) \<and>
     db_pairCredentials d' (pr_PairID p) = Some c \<and> pc_PairID c = pr_PairID p \<and>
     pc_AccountID c = pt_AccountID pt \<and> pc_MobileDeviceID c = dev_ID x \<and> pc_RevokedAt c = 0 \<and>
     db_devices d' (dev_ID x) = Some x \<and> dev_AccountID x = pt_AccountID pt \<and> dev_Role x = RoleMobile"

text \<open>
  \<open>owned d\<close>: every pairing and every pairing token stands under a licence of its own account, and the identifier of a
  pairing can be read back from a credential. The endpoints keep it: a token is minted only for a licence of the
  caller, no operation gives a licence to another account, and a completion keeps it as well.
\<close>

definition owned :: "db \<Rightarrow> bool" where
  "owned d \<longleftrightarrow>
     (\<forall>k p. db_pairings d k = Some p \<longrightarrow> leads k \<and> CHR ''.'' \<notin> set k \<and>
        (\<exists>lic. db_licenses d (pr_LicenseID p) = Some lic \<and> lic_AccountID lic = pr_AccountID p)) \<and>
     (\<forall>k pt. db_pairingTokens d k = Some pt \<longrightarrow>
        (\<exists>lic. db_licenses d (pt_LicenseID pt) = Some lic \<and> lic_AccountID lic = pt_AccountID pt))"

lemma ownedD:
  "owned d \<Longrightarrow> db_pairings d k = Some p \<Longrightarrow> leads k \<and> CHR ''.'' \<notin> set k"
  "owned d \<Longrightarrow> db_pairings d k = Some p \<Longrightarrow>
     \<exists>lic. db_licenses d (pr_LicenseID p) = Some lic \<and> lic_AccountID lic = pr_AccountID p"
  "owned d \<Longrightarrow> db_pairingTokens d k = Some pt \<Longrightarrow>
     \<exists>lic. db_licenses d (pt_LicenseID pt) = Some lic \<and> lic_AccountID lic = pt_AccountID pt"
  unfolding owned_def by blast+

lemma owned_account:
  assumes "owned d" and "db_pairingTokens d k = Some pt" and "lic_ID lic = pt_LicenseID pt" and "paired d d' pt lic p c x"
  shows "pr_AccountID p = pt_AccountID pt"
proof (cases "db_pairings d (pr_PairID p)")
  case (Some q)
  then have "pr_LicenseID q = pt_LicenseID pt" "pr_AccountID p = pr_AccountID q" using assms(3,4) by (simp_all add: paired_def)
  moreover obtain l where "db_licenses d (pr_LicenseID q) = Some l" "lic_AccountID l = pr_AccountID q"
    using ownedD(2) [OF assms(1) Some] by blast
  moreover obtain l' where "db_licenses d (pt_LicenseID pt) = Some l'" "lic_AccountID l' = pt_AccountID pt"
    using ownedD(3) [OF assms(1,2)] by blast
  ultimately show ?thesis by simp
qed (use assms(4) in \<open>simp add: paired_def\<close>)

context auth_store
begin

lemma consume_effect:
  assumes "v_ops v = ops" and "inv (au_store st)"
    and "consume_and_finish v rd pt lic mobile desktop pub st = ((200, CompletePairingResp pid dk mid cred), st')"
    and "db_pairingTokens (view (au_store st)) (pt_ID pt) = Some pt" and "dev_ID desktop = pt_DesktopDeviceID pt"
    and "dev_AccountID mobile = pt_AccountID pt" and "dev_Role mobile = RoleMobile"
  obtains p c where "inv (au_store st')" "pr_PairID p = pid"
    "paired (view (au_store st)) (view (au_store st')) pt lic p c (mobile\<lparr>dev_PublicKey := Some pub\<rparr>)"
    "db_pairingTokens (view (au_store st')) = (db_pairingTokens (view (au_store st)))
       (pt_ID pt \<mapsto> pt\<lparr>pt_ConsumedAt := r_now rd 3, pt_ResultPairID := pid\<rparr>)"
    "mid = dev_ID mobile" "cred = newPairCredential pid (r_rand rd 2)" "pc_SecretHash c = hashSecret (v_sha256 v) cred"
    "db_pairings (view (au_store st)) pid = None \<longrightarrow> pid = NewID ''pair'' (r_rand rd 1)"
proof -
  let ?s = "au_store st"
  obtain ex n pid' s2 where sl: "pairing_slot v lic (pt_DesktopDeviceID pt) ?s = Inr (ex, n)" and
    pid': "pid' = (case ex of Some p \<Rightarrow> pr_PairID p | None \<Rightarrow> NewID ''pair'' (r_rand rd 1))" and
    con: "st_ConsumePairingToken (v_ops v) (pt_ID pt) pid' (r_now rd 3) ?s = (None, s2)" and
    fin: "finish_pairing v rd pt lic ex n pid' mobile desktop pub (st\<lparr>au_store := s2\<rparr>) = ((200, CompletePairingResp pid dk mid cred), st')"
    by (rule consume_and_finish_200 [OF assms(3)])
  define st2 where "st2 = st\<lparr>au_store := s2\<rparr>"
  have i2: "inv (au_store st2)" and v2: "db_pairings (view (au_store st2)) = db_pairings (view ?s)"
    "active_pairs (view (au_store st2)) = active_pairs (view ?s)" "db_pairingTokens (view (au_store st2)) =
      (db_pairingTokens (view ?s))(pt_ID pt \<mapsto> pt\<lparr>pt_ConsumedAt := r_now rd 3, pt_ResultPairID := pid'\<rparr>)"
    using write_None [OF assms(2), of "ConsumePairingToken (pt_ID pt) pid' (r_now rd 3)" s2] con assms(1,4)
    by (auto simp: st2_def active_pairs_def row_defs split: if_splits)
  have old: "pid' = pr_PairID q \<and> db_pairings (view (au_store st2)) pid' = Some q" if "ex = Some q" for q
    using slot_existing [OF assms(1,2), of lic "pt_DesktopDeviceID pt" q n] that sl pid' v2 by simp
  obtain p c where f: "inv (au_store st')"
    "db_pairings (view (au_store st')) = (db_pairings (view (au_store st2)))(pid' \<mapsto> p)"
    "pr_MobileDeviceID p = dev_ID mobile" "pr_DesktopDeviceID p = dev_ID desktop"
    "case ex of Some q \<Rightarrow> p = q\<lparr>pr_MobileDeviceID := dev_ID mobile, pr_DesktopDeviceID := dev_ID desktop\<rparr>
       | None \<Rightarrow> pr_PairID p = pid' \<and> pr_LicenseID p = lic_ID lic \<and> pr_AccountID p = pt_AccountID pt \<and>
           pr_Status p = PairingActive \<and> int (card (active_pairs (view (au_store st2)) (lic_ID lic))) < n \<and>
           db_pairings (view (au_store st2)) pid' = None"
    "db_pairCredentials (view (au_store st')) pid' = Some c" "pc_PairID c = pid'" "pc_AccountID c = pt_AccountID pt"
    "pc_MobileDeviceID c = dev_ID mobile" "pc_RevokedAt c = 0"
    "pc_SecretHash c = hashSecret (v_sha256 v) (newPairCredential pid' (r_rand rd 2))"
    "db_devices (view (au_store st')) (dev_ID mobile) = Some (mobile\<lparr>dev_PublicKey := Some pub\<rparr>)"
    "db_pairingTokens (view (au_store st')) = db_pairingTokens (view (au_store st2))"
    "db_licenses (view (au_store st')) = db_licenses (view (au_store st2))"
    "CompletePairingResp pid dk mid cred = CompletePairingResp pid' (case dev_PublicKey desktop of None \<Rightarrow> '''' | Some k \<Rightarrow> base64_EncodeToString k)
          (dev_ID mobile) (newPairCredential pid' (r_rand rd 2))"
    by (rule finish_effect [OF assms(1) i2 fin [folded st2_def] old])
  have pid: "pid' = pid" "dev_ID mobile = mid" "newPairCredential pid' (r_rand rd 2) = cred" using f(15) by simp_all
  have lics: "db_licenses (view (au_store st2)) = db_licenses (view ?s)"
    using write_None [OF assms(2), of "ConsumePairingToken (pt_ID pt) pid' (r_now rd 3)" s2] con assms(1,4)
    by (auto simp: st2_def row_defs split: if_splits)
  have p: "pr_PairID p = pid \<and> pr_Status p = PairingActive \<and> pr_LicenseID p = lic_ID lic \<and>
      (case db_pairings (view ?s) pid of
        Some q \<Rightarrow> pr_Status q = PairingActive \<and> pr_LicenseID q = lic_ID lic \<and>
          pr_DesktopDeviceID q = pt_DesktopDeviceID pt \<and> pr_AccountID p = pr_AccountID q
      | None \<Rightarrow> pr_AccountID p = pt_AccountID pt \<and>
          (\<exists>sub. db_subscriptions (view ?s) (lic_SubscriptionID lic) = Some sub \<and>
             int (card (active_pairs (view ?s) (lic_ID lic))) < sub_MaxPairs sub)) \<and>
      (db_pairings (view ?s) pid = None \<longrightarrow> pid = NewID ''pair'' (r_rand rd 1))"
  proof (cases ex)
    case None
    then show ?thesis using f(5) v2(1,2) slot_new [OF assms(1,2), of lic "pt_DesktopDeviceID pt" n] sl pid' unfolding pid(1) by auto
  next
    case (Some q)
    then show ?thesis using f(5) v2(1) old [OF Some] slot_existing [OF assms(1,2), of lic "pt_DesktopDeviceID pt" q n] sl
      unfolding pid(1) by auto
  qed
  show thesis
    by (rule that [of p c]) (use p f(1-14) [unfolded pid(1,2) v2 lics] assms(5-7) pid(2) pid(3) [unfolded pid(1)] in \<open>simp_all add: paired_def\<close>)
qed

lemma paired_cong:
  "db_pairings d = db_pairings e \<Longrightarrow> db_subscriptions d = db_subscriptions e \<Longrightarrow> db_licenses d = db_licenses e \<Longrightarrow>
     paired d d' pt lic p c x = paired e d' pt lic p c x"
  by (cases "db_pairings e (pr_PairID p)") (simp_all add: paired_def active_pairs_def)

lemma complete_effect:
  assumes "v_ops v = ops" and "inv (au_store st)" and "handleCompletePairing v rd r st = ((200, CompletePairingResp pid dk mid cred), st')"
  obtains pt lic p c x where "inv (au_store st')" "pairing_secret r \<noteq> ''''"
    "db_pairingTokens (view (au_store st)) (hashSecret (v_sha256 v) (pairing_secret r)) = Some pt" "pt_Active pt (r_now rd 0)"
    "lic_ID lic = pt_LicenseID pt" "licensed (v_cfg v) (view (au_store st)) (r_now rd 1) lic"
    "pr_PairID p = pid" "dev_ID x = mid" "paired (view (au_store st)) (view (au_store st')) pt lic p c x"
    "db_pairingTokens (view (au_store st')) = (db_pairingTokens (view (au_store st)))
       (hashSecret (v_sha256 v) (pairing_secret r) \<mapsto> pt\<lparr>pt_ConsumedAt := r_now rd 3, pt_ResultPairID := pid\<rparr>)"
    "cred = newPairCredential pid (r_rand rd 2)" "pc_SecretHash c = hashSecret (v_sha256 v) cred"
    "db_pairings (view (au_store st)) pid = None \<longrightarrow> pid = NewID ''pair'' (r_rand rd 1)"
proof -
  let ?k = "hashSecret (v_sha256 v) (pairing_secret r)" and ?s = "au_store st"
  obtain pt lic mobile desktop pub s1 m where sec: "pairing_secret r \<noteq> ''''" and
    gpt: "st_GetPairingToken ops ?s ?k = Inr pt" "pt_Active pt (r_now rd 0)" and
    glic: "st_GetLicense ops ?s (pt_LicenseID pt) = Inr lic" "licenseIssuable v (r_now rd 1) lic ?s" and
    res: "resolve_mobile v (r_now rd 2) (r_rand rd 0) (pt_AccountID pt) m pub ?s = (Inr mobile, s1)" and
    gdev: "st_GetDevice ops s1 (pt_DesktopDeviceID pt) = Inr desktop" and
    cf: "consume_and_finish v rd pt lic mobile desktop pub (st\<lparr>au_store := s1\<rparr>) = ((200, CompletePairingResp pid dk mid cred), st')"
    by (rule complete_200 [OF assms])
  have pt: "db_pairingTokens (view ?s) ?k = Some pt" using get_pairing_token [OF assms(2), of ?k] gpt by simp
  have ptk: "pt_ID pt = ?k" using pt view_ok [OF assms(2)] by (simp add: db_ok_def)
  obtain D where s1: "inv s1" "view s1 = (view ?s)\<lparr>db_devices := D\<rparr>" and
    mob: "dev_AccountID mobile = pt_AccountID pt" "dev_Role mobile = RoleMobile"
    using resolve_effect [OF assms(1,2) res] by blast
  have desk: "dev_ID desktop = pt_DesktopDeviceID pt"
    using get_device [OF s1(1), of "pt_DesktopDeviceID pt"] gdev view_ok [OF s1(1)] by (simp add: db_ok_def)
  define st1 where "st1 = st\<lparr>au_store := s1\<rparr>"
  have v1: "inv (au_store st1)" "db_pairingTokens (view (au_store st1)) (pt_ID pt) = Some pt"
    "db_pairings (view (au_store st1)) = db_pairings (view ?s)" "db_pairingTokens (view (au_store st1)) = db_pairingTokens (view ?s)"
    "db_subscriptions (view (au_store st1)) = db_subscriptions (view ?s)" "db_licenses (view (au_store st1)) = db_licenses (view ?s)"
    "active_pairs (view (au_store st1)) = active_pairs (view ?s)"
    using s1 pt ptk by (auto simp: st1_def active_pairs_def)
  obtain p c where e: "inv (au_store st')" "pr_PairID p = pid"
    "paired (view (au_store st1)) (view (au_store st')) pt lic p c (mobile\<lparr>dev_PublicKey := Some pub\<rparr>)"
    "db_pairingTokens (view (au_store st')) = (db_pairingTokens (view (au_store st1)))
       (pt_ID pt \<mapsto> pt\<lparr>pt_ConsumedAt := r_now rd 3, pt_ResultPairID := pid\<rparr>)"
    "mid = dev_ID mobile" "cred = newPairCredential pid (r_rand rd 2)" "pc_SecretHash c = hashSecret (v_sha256 v) cred"
    "db_pairings (view (au_store st1)) pid = None \<longrightarrow> pid = NewID ''pair'' (r_rand rd 1)"
    by (rule consume_effect [OF assms(1) v1(1) cf [folded st1_def] v1(2) desk mob])
  show thesis
    by (rule that [of pt lic p "mobile\<lparr>dev_PublicKey := Some pub\<rparr>" c])
      (use e paired_cong [OF v1(3,5,6)] v1 sec pt ptk gpt(2) licensedI [OF assms(1,2) glic] in simp_all)
qed

end

context auth_store
begin

lemma complete_spends:
  assumes "v_ops v = ops" and "inv (au_store st)" and "handleCompletePairing v rd r st = ((200, CompletePairingResp pid dk mid cred), st')"
    and "\<not> IsZero (r_now rd 3)"
  shows "inv (au_store st') \<and> pairing_secret r \<noteq> '''' \<and>
    spent_pairing_token (hashSecret (v_sha256 v) (pairing_secret r)) (view (au_store st'))"
  by (rule complete_effect [OF assms(1-3)]) (use assms(4) in \<open>simp add: spent_pairing_token_def\<close>)

end

lemma decodeJSON_bearing [simp]: "decodeJSON names (bearing secret r) = decodeJSON names r"
  by (simp add: decodeJSON_def bearing_def)

lemma white_space_first: "list_all (\<lambda>p. p \<noteq> [] \<and> hd p \<noteq> CHR ''p'') white_space"
  by code_simp

lemma token_alphabet_dot: "CHR ''.'' \<notin> set token_alphabet"
  by code_simp

lemma NewID_pair: "leads (NewID ''pair'' rnd) \<and> CHR ''.'' \<notin> set (NewID ''pair'' rnd)"
proof -
  have "CHR ''.'' \<notin> set (randToken rnd)" using randToken_alphabet [of rnd] token_alphabet_dot by blast
  moreover have "\<not> prefix w (NewID ''pair'' rnd)" if "w \<in> set white_space" for w
    using white_space_first that by (cases w) (auto simp: list_all_iff NewID_def)
  ultimately show ?thesis by (auto simp: leads_def NewID_def)
qed

lemma paired_owned:
  assumes "owned d" and "db_pairingTokens d k = Some pt" and "lic_ID lic = pt_LicenseID pt" and "paired d d' pt lic p c x"
    and "db_pairingTokens d' = (db_pairingTokens d)(k \<mapsto> pt\<lparr>pt_ConsumedAt := t, pt_ResultPairID := u\<rparr>)"
    and "db_pairings d (pr_PairID p) = None \<longrightarrow> (\<exists>rnd. pr_PairID p = NewID ''pair'' rnd)"
  shows "owned d' \<and> leads (pr_PairID p) \<and> CHR ''.'' \<notin> set (pr_PairID p)"
proof -
  have acct: "pr_AccountID p = pt_AccountID pt" by (rule owned_account [OF assms(1-4)])
  have id: "leads (pr_PairID p) \<and> CHR ''.'' \<notin> set (pr_PairID p)"
    using ownedD(1) [OF assms(1)] assms(6) NewID_pair by (cases "db_pairings d (pr_PairID p)") auto
  have l: "\<exists>lic. db_licenses d (pt_LicenseID pt) = Some lic \<and> lic_AccountID lic = pt_AccountID pt"
    by (rule ownedD(3) [OF assms(1,2)])
  have d': "db_pairings d' = (db_pairings d)(pr_PairID p \<mapsto> p)" "db_licenses d' = db_licenses d"
    "pr_LicenseID p = pt_LicenseID pt" using assms(3,4) by (simp_all add: paired_def)
  show ?thesis unfolding owned_def
  proof (intro conjI allI impI)
    fix k' q assume "db_pairings d' k' = Some q"
    then show "leads k'" "CHR ''.'' \<notin> set k'" "\<exists>lic. db_licenses d' (pr_LicenseID q) = Some lic \<and> lic_AccountID lic = pr_AccountID q"
      using d' id acct l ownedD(1,2) [OF assms(1)] by (auto split: if_splits)
  next
    fix k' t assume "db_pairingTokens d' k' = Some t"
    then show "\<exists>lic. db_licenses d' (pt_LicenseID t) = Some lic \<and> lic_AccountID lic = pt_AccountID t"
      using d'(2) l assms(5) ownedD(3) [OF assms(1)] by (auto split: if_splits)
  qed (use id in simp_all)
qed

text \<open>The credential of a completion authenticates the pairing.\<close>

lemma credential_authenticates:
  assumes "v_ops v = ms_ops" and "map_of (m_pairCredentials s) pid = Some c" and "pc_RevokedAt c = 0"
    and "pc_SecretHash c = hashSecret (v_sha256 v) cred" and "cred = newPairCredential pid rnd"
    and "leads pid" and "CHR ''.'' \<notin> set pid" and "rnd \<noteq> []" and "v_sha256 v cred \<noteq> []"
  shows "bearer (bearing cred r) = cred" and "Cut CHR ''.'' cred = (pid, randToken rnd, True)"
    and "authenticatePair v now (bearing cred r) s = Some c"
proof -
  show b: "bearer (bearing cred r) = cred" and cut: "Cut CHR ''.'' cred = (pid, randToken rnd, True)"
    using bearer_credential [OF assms(6,8), of r] Cut_credential [OF assms(7)] assms(5) by (simp_all add: newPairCredential_eq)
  have "cred \<noteq> ''''" "pid \<noteq> ''''" using assms(5,6) by (simp_all add: newPairCredential_eq leads_def)
  then show "authenticatePair v now (bearing cred r) s = Some c"
    using b cut assms(1-4) hash_nonempty [of "v_sha256 v" cred, OF assms(9)]
    by (simp add: authenticatePair_def ms_GetPairCredential_def found_def pc_Active_def IsZero_def)
qed

context auth_store
begin

text \<open>A token is minted only for a licence of the caller, so the tokens stay under licences of their accounts.\<close>

lemma desktop_key_effect:
  assumes "v_ops v = ops" and "inv s" and "desktop_key v dev key s = (Inr dev', s')"
  shows "inv s' \<and> (\<exists>D. view s' = (view s)\<lparr>db_devices := D\<rparr>)"
proof -
  have "s' = s \<or> (\<exists>x. st_UpsertDevice ops x s = (None, s'))"
    using assms(1,3) by (auto simp: desktop_key_def Let_def split: if_splits option.splits prod.splits)
  moreover have "view s = (view s)\<lparr>db_devices := db_devices (view s)\<rparr>" by simp
  moreover have "inv s' \<and> (\<exists>D. view s' = (view s)\<lparr>db_devices := D\<rparr>)" if "st_UpsertDevice ops x s = (None, s')" for x
    using write_None [OF assms(2), of "UpsertDevice x" s'] that by auto
  ultimately show ?thesis using assms(2) by blast
qed

lemma create_token_owned:
  assumes "v_ops v = ops" and "inv s" and "handleCreatePairingToken v rd r s = ((200, b), s')" and "owned (view s)"
  shows "inv s' \<and> owned (view s')"
proof -
  obtain acct req lic dev0 dev s1 where
    l: "st_GetLicense ops s (field req ''license_id'') = Inr lic" "lic_AccountID lic = acct" and
    k: "desktop_key v dev0 (field req ''desktop_public_key'') s = (Inr dev, s1)" and
    m: "mint_pairing_token v (r_now rd 1) (r_rand rd 0) acct lic dev s1 = ((200, b), s')"
  proof -
    have no: "desktop_key v d key s \<noteq> (Inl (200, b'), s1)" "pairing_slot v l d' s \<noteq> Inl (200, b')" for d key b' s1 l d'
      by (auto simp: desktop_key_def pairing_slot_def writeErr_def Let_def
          split: if_splits option.splits prod.splits sum.splits)
    show thesis using that assms(1,3) no
      by (auto simp: handleCreatePairingToken_def writeErr_def Let_def
          split: option.splits prod.splits sum.splits if_splits)
  qed
  have lic: "db_licenses (view s) (lic_ID lic) = Some lic"
    using get_license [OF assms(2), of "field req ''license_id''"] l(1) view_ok [OF assms(2)] by (auto simp: db_ok_def)
  have s1: "inv s1 \<and> (\<exists>D. view s1 = (view s)\<lparr>db_devices := D\<rparr>)" using desktop_key_effect [OF assms(1,2) k] .
  define pt where "pt = \<lparr>pt_ID = hashSecret (v_sha256 v) (NewID ''pt'' (r_rand rd 0)), pt_AccountID = acct, pt_LicenseID = lic_ID lic,
    pt_DesktopDeviceID = dev_ID dev, pt_ExpiresAt = r_now rd 1 + a_pairingTokenTTL (v_cfg v), pt_ConsumedAt = 0,
    pt_ResultPairID = ''''\<rparr>"
  have c: "st_CreatePairingToken ops pt s1 = (None, s')"
    using m assms(1) by (auto simp: mint_pairing_token_def pt_def writeErr_def Let_def split: option.splits prod.splits)
  obtain D where D: "inv s1" "view s1 = (view s)\<lparr>db_devices := D\<rparr>" using s1 by blast
  have "inv s' \<and> view s' = (view s1)\<lparr>db_pairingTokens := (db_pairingTokens (view s1))(pt_ID pt \<mapsto> pt)\<rparr>"
    using write_None [OF D(1), of "CreatePairingToken pt" s'] c by (auto simp: row_defs split: option.splits if_splits)
  moreover have "pt_LicenseID pt = lic_ID lic" "pt_AccountID pt = lic_AccountID lic" using l(2) by (simp_all add: pt_def)
  ultimately show ?thesis using D lic assms(4) unfolding owned_def by simp
qed

text \<open>A token is issued or refreshed only for an active pairing.\<close>

lemma issue_pair_active:
  assumes "v_ops v = ops" and "inv s" and "handleIssueToken v rd r s = ((200, b), s')" and "decodeJSON tokenReq r = Some req"
  shows "\<not> revoked_pairing (field req ''pair_id'') (view s)"
proof -
  obtain p where "st_GetPairing ops s (field req ''pair_id'') = Inr p" "pr_Status p = PairingActive"
    using assms(1,3,4) by (auto simp: handleIssueToken_def Let_def rejectToken_def writeErr_def
        split: option.splits prod.splits if_splits sum.splits)
  then show ?thesis using get_pairing [OF assms(2), of "field req ''pair_id''"] by (auto simp: revoked_pairing_def)
qed

lemma refresh_pair_active:
  assumes "v_ops v = ops" and "inv (au_store st)" and "handleRefreshToken v rd r st = ((200, b), st')"
    and "db_refreshTokens (view (au_store st)) (hashSecret (v_sha256 v) (presented r)) = Some rt"
  shows "\<not> revoked_pairing (rt_PairID rt) (view (au_store st))"
  by (rule refresh_200 [OF assms(1-3)]) (use assms(4) in \<open>auto simp: entitled_def revoked_pairing_def\<close>)

lemma unpair_writes:
  assumes "v_ops v = ops" and "inv (au_store st)" and "handleUnpair v rd r st = ((200, b), st')"
  obtains acct cred req p s where "authenticateAccountOrPair v (r_now rd 0) r (au_store st) = Some (acct, cred)"
    "decodeJSON unpairReq r = Some req" "field req ''pair_id'' \<noteq> ''''"
    "(case cred of None \<Rightarrow> False | Some c \<Rightarrow> pc_PairID c \<noteq> field req ''pair_id'') = False"
    "st_GetPairing ops (au_store st) (field req ''pair_id'') = Inr p" "pr_AccountID p = acct" "pr_PairID p = field req ''pair_id''"
    "st_SetPairingStatus ops (pr_PairID p) PairingRevoked (au_store st) = (None, s)"
    "st' = \<lparr>au_store = snd (exec ops (RevokePairCredential (pr_PairID p) (r_now rd 1)) s),
      au_bp = publishRevocation v \<lparr>re_PairID = pr_PairID p, re_AccountID = ''''\<rparr> (au_bp st)\<rparr>"
proof -
  obtain acct cred req p s where a: "authenticateAccountOrPair v (r_now rd 0) r (au_store st) = Some (acct, cred)"
    "decodeJSON unpairReq r = Some req" "field req ''pair_id'' \<noteq> ''''"
    "(case cred of None \<Rightarrow> False | Some c \<Rightarrow> pc_PairID c \<noteq> field req ''pair_id'') = False"
    "st_GetPairing ops (au_store st) (field req ''pair_id'') = Inr p" "pr_AccountID p = acct"
    "st_SetPairingStatus ops (pr_PairID p) PairingRevoked (au_store st) = (None, s)"
    "st' = \<lparr>au_store = snd (exec ops (RevokePairCredential (pr_PairID p) (r_now rd 1)) s),
      au_bp = publishRevocation v \<lparr>re_PairID = pr_PairID p, re_AccountID = ''''\<rparr> (au_bp st)\<rparr>"
    using assms(1,3)
    by (auto simp: handleUnpair_def Let_def writeErr_def split: option.splits prod.splits if_splits sum.splits)
  have "db_pairings (view (au_store st)) (field req ''pair_id'') = Some p"
    using get_pairing [OF assms(2), of "field req ''pair_id''"] a(5) by simp
  then have "pr_PairID p = field req ''pair_id''" using view_ok [OF assms(2)] by (simp add: db_ok_def)
  with that a show thesis by blast
qed

lemma unpair_200:
  assumes "v_ops v = ops" and "inv (au_store st)" and "handleUnpair v rd r st = ((200, b), st')"
  shows "\<exists>req p acct. decodeJSON unpairReq r = Some req \<and> field req ''pair_id'' \<noteq> '''' \<and>
    db_pairings (view (au_store st)) (field req ''pair_id'') = Some p \<and> pr_AccountID p = acct \<and>
    (account_bearer (v_sha256 v) (view (au_store st)) r acct \<or>
     (\<exists>c. pair_bearer (v_sha256 v) (view (au_store st)) (r_now rd 0) r c \<and> pc_AccountID c = acct \<and>
        pc_PairID c = field req ''pair_id'')) \<and>
    inv (au_store st') \<and> revoked_pairing (field req ''pair_id'') (view (au_store st')) \<and>

    (\<forall>k. k \<noteq> field req ''pair_id'' \<longrightarrow> db_pairings (view (au_store st')) k = db_pairings (view (au_store st)) k) \<and>
    au_bp st' = publishRevocation v \<lparr>re_PairID = field req ''pair_id'', re_AccountID = ''''\<rparr> (au_bp st)"
proof -
  obtain acct cred req p s where au: "authenticateAccountOrPair v (r_now rd 0) r (au_store st) = Some (acct, cred)" and
    q: "decodeJSON unpairReq r = Some req" "field req ''pair_id'' \<noteq> ''''" and
    sc: "(case cred of None \<Rightarrow> False | Some c \<Rightarrow> pc_PairID c \<noteq> field req ''pair_id'') = False" and
    gp: "st_GetPairing ops (au_store st) (field req ''pair_id'') = Inr p" "pr_AccountID p = acct" and
    pid: "pr_PairID p = field req ''pair_id''" and
    set: "st_SetPairingStatus ops (pr_PairID p) PairingRevoked (au_store st) = (None, s)" and
    st': "st' = \<lparr>au_store = snd (exec ops (RevokePairCredential (pr_PairID p) (r_now rd 1)) s),
      au_bp = publishRevocation v \<lparr>re_PairID = pr_PairID p, re_AccountID = ''''\<rparr> (au_bp st)\<rparr>"
    by (rule unpair_writes [OF assms])
  have p: "db_pairings (view (au_store st)) (field req ''pair_id'') = Some p"
    using get_pairing [OF assms(2), of "field req ''pair_id''"] gp by simp
  have s: "inv s" "view s = (view (au_store st))\<lparr>db_pairings :=
      (db_pairings (view (au_store st)))(field req ''pair_id'' \<mapsto> p\<lparr>pr_Status := PairingRevoked\<rparr>)\<rparr>"
    using write_None [OF assms(2), of "SetPairingStatus (pr_PairID p) PairingRevoked" s] set p pid
    by (auto simp: row_defs)
  have "inv (au_store st')" "db_pairings (view (au_store st')) = db_pairings (view s)"
    using exec_inv [OF s(1)] exec_view [OF s(1), of "RevokePairCredential (pr_PairID p) (r_now rd 1)"] st'
    by (auto simp del: exec.simps)

  moreover have "account_bearer (v_sha256 v) (view (au_store st)) r acct \<or>
     (\<exists>c. pair_bearer (v_sha256 v) (view (au_store st)) (r_now rd 0) r c \<and> pc_AccountID c = acct \<and>
        pc_PairID c = field req ''pair_id'')"
    using authenticateAccountOrPair_Some [OF au] account_bearerI [OF assms(1,2)] pair_bearerI [OF assms(1,2)] sc by auto
  ultimately show ?thesis using q p s(2) gp(2) pid st' by (auto simp: revoked_pairing_def PairingActive_def PairingRevoked_def)
qed

end

lemma ms_unpair_credential:
  assumes "v_ops v = ms_ops" and "ms_ok (au_store st)" and "handleUnpair v rd r st = ((200, b), st')"
    and "\<not> IsZero (r_now rd 1)" and "decodeJSON unpairReq r = Some req"
  shows "dead_credential (field req ''pair_id'') (ms_view (au_store st'))"
proof -
  have d: "dead_credential k (ms_view (snd (exec ms_ops (RevokePairCredential k (r_now rd 1)) s)))" for k s
    using assms(4) by (auto simp: dead_credential_def ms_RevokePairCredential_def ms_view_def split: option.splits if_splits)
  show ?thesis by (rule ms.unpair_writes [OF assms(1-3)]) (use d assms(5) in \<open>simp del: exec.simps\<close>)
qed

subsection \<open>Properties\<close>

text \<open>
  C29. A pairing is completed only with a live token, for its desktop and licence, and within capacity: when the
  completion endpoint answers 200, the presented token was stored and neither used nor expired; its licence
  permits pairing at that moment; the pairing of the answer is stored active, under the token's licence, with the
  token's desktop and a mobile device registered to the token's account; no other pairing has changed; and
  either an active pairing of the same desktop had its devices replaced, or a new pairing was added and the
  licence has no more active pairings than its subscription allows. The stored credential of the pairing is
  for the token's account and that mobile, and its hash is that of the credential returned. Where every pairing and
  token stood under a licence of its own account, that still holds, the pairing is of the token's account
  also when it was replaced, and a request that bears the credential returned is authenticated as that pairing.
\<close>

theorem complete_pairing_sound:
  assumes "v_ops v = ms_ops" and "ms_ok (au_store st)"
    and "handleCompletePairing v rd r st = ((200, CompletePairingResp pid dk mid cred), st')"
  shows "\<exists>pt lic p c x. map_of (m_pairingTokens (au_store st)) (hashSecret (v_sha256 v) (pairing_secret r)) = Some pt \<and>
    pt_Active pt (r_now rd 0) \<and> lic_ID lic = pt_LicenseID pt \<and> licensed (v_cfg v) (ms_view (au_store st)) (r_now rd 1) lic \<and>
    pr_PairID p = pid \<and> dev_ID x = mid \<and> paired (ms_view (au_store st)) (ms_view (au_store st')) pt lic p c x \<and>
    (map_of (m_pairings (au_store st)) pid = None \<longrightarrow>
       (\<exists>sub. map_of (m_subscriptions (au_store st)) (lic_SubscriptionID lic) = Some sub \<and>
          int (card (active_pairs (ms_view (au_store st')) (pt_LicenseID pt))) \<le> sub_MaxPairs sub)) \<and>
    map_of (m_pairCredentials (au_store st')) pid = Some c \<and> pc_AccountID c = pt_AccountID pt \<and>
    pc_MobileDeviceID c = mid \<and> pc_SecretHash c = hashSecret (v_sha256 v) cred \<and>
    (owned (ms_view (au_store st)) \<longrightarrow> owned (ms_view (au_store st')) \<and> pr_AccountID p = pt_AccountID pt \<and>
       (r_rand rd 2 \<noteq> [] \<longrightarrow> v_sha256 v cred \<noteq> [] \<longrightarrow>
          (\<forall>now r'. authenticatePair v now (bearing cred r') (au_store st') = Some c)))"
proof -
  obtain pt lic p c x where e: "ms_ok (au_store st')" "pairing_secret r \<noteq> ''''"
    "db_pairingTokens (ms_view (au_store st)) (hashSecret (v_sha256 v) (pairing_secret r)) = Some pt" "pt_Active pt (r_now rd 0)"
    "lic_ID lic = pt_LicenseID pt" "licensed (v_cfg v) (ms_view (au_store st)) (r_now rd 1) lic"
    "pr_PairID p = pid" "dev_ID x = mid" "paired (ms_view (au_store st)) (ms_view (au_store st')) pt lic p c x"
    "db_pairingTokens (ms_view (au_store st')) = (db_pairingTokens (ms_view (au_store st)))
       (hashSecret (v_sha256 v) (pairing_secret r) \<mapsto> pt\<lparr>pt_ConsumedAt := r_now rd 3, pt_ResultPairID := pid\<rparr>)"
    "cred = newPairCredential pid (r_rand rd 2)" "pc_SecretHash c = hashSecret (v_sha256 v) cred"
    "db_pairings (ms_view (au_store st)) pid = None \<longrightarrow> pid = NewID ''pair'' (r_rand rd 1)"
    by (rule ms.complete_effect [OF assms])
  have "\<exists>sub. map_of (m_subscriptions (au_store st)) (lic_SubscriptionID lic) = Some sub \<and>
      int (card (active_pairs (ms_view (au_store st')) (pt_LicenseID pt))) \<le> sub_MaxPairs sub"
    if new: "map_of (m_pairings (au_store st)) pid = None"
  proof -
    let ?d = "ms_view (au_store st)" and ?d' = "ms_view (au_store st')"
    have n: "db_pairings ?d (pr_PairID p) = None" using new e(7) by (simp add: ms_view_def)
    obtain sub where sub: "db_subscriptions ?d (lic_SubscriptionID lic) = Some sub"
      "int (card (active_pairs ?d (pt_LicenseID pt))) < sub_MaxPairs sub"
      using e(9) e(5) n by (auto simp: paired_def)
    have fin: "finite (active_pairs ?d (pt_LicenseID pt))" using finite_active_pairs ms.view_ok [OF assms(2)] by blast
    have "active_pairs ?d' (pt_LicenseID pt) \<subseteq> insert pid (active_pairs ?d (pt_LicenseID pt))"
      using e(7,9) by (auto simp: paired_def active_pairs_def split: if_splits)
    then have "card (active_pairs ?d' (pt_LicenseID pt)) \<le> card (insert pid (active_pairs ?d (pt_LicenseID pt)))"
      using fin by (intro card_mono) simp_all
    also have "\<dots> \<le> Suc (card (active_pairs ?d (pt_LicenseID pt)))" using fin by (simp add: card_insert_if)
    finally show ?thesis using sub by (auto simp: ms_view_def)
  qed
  moreover have "map_of (m_pairingTokens (au_store st)) (hashSecret (v_sha256 v) (pairing_secret r)) = Some pt"
    using e(3) by (simp add: ms_view_def)
  moreover have row: "map_of (m_pairCredentials (au_store st')) pid = Some c" "pc_AccountID c = pt_AccountID pt"
    "pc_MobileDeviceID c = mid" "pc_RevokedAt c = 0" using e(7-9) by (auto simp: paired_def ms_view_def)
  moreover have "owned (ms_view (au_store st')) \<and> pr_AccountID p = pt_AccountID pt \<and>
      (r_rand rd 2 \<noteq> [] \<longrightarrow> v_sha256 v cred \<noteq> [] \<longrightarrow>
        (\<forall>now r'. authenticatePair v now (bearing cred r') (au_store st') = Some c))" if "owned (ms_view (au_store st))"
    using owned_account [OF that e(3,5,9)] paired_owned [OF that e(3,5,9,10)] e(7,11-13)
      credential_authenticates(3) [OF assms(1) row(1,4) e(12,11)] by auto
  ultimately show ?thesis using e(4-9,12)
    by (intro exI [of _ pt] exI [of _ lic] exI [of _ p] exI [of _ c] exI [of _ x]) simp
qed

text \<open>
  C30. A pairing token pairs once: after a completion has succeeded, and whatever is written to the store in
  between, presenting the same token again is answered 401 and changes nothing.
\<close>

theorem pairing_token_single_use:
  assumes "v_ops v = ms_ops" and "ms_ok (au_store st)"
    and "handleCompletePairing v rd r st = ((200, CompletePairingResp pid dk mid cred), st')"
    and "\<not> IsZero (r_now rd 3)" and "pairing_secret r' = pairing_secret r"
    and "decodeJSON completePairingReq r' = Some req" and "field req ''mobile_public_key'' \<noteq> ''''"
  shows "handleCompletePairing v rd' r' \<lparr>au_store = run ms_ops xs (au_store st'), au_bp = bp\<rparr>
    = ((401, ErrorBody ''pairing_token_invalid''), \<lparr>au_store = run ms_ops xs (au_store st'), au_bp = bp\<rparr>)"
proof -
  let ?k = "hashSecret (v_sha256 v) (pairing_secret r)" and ?s = "run ms_ops xs (au_store st')"
  note e = ms.complete_spends [OF assms(1-4)]
  then have sp: "ms_ok ?s" "spent_pairing_token ?k (ms_view ?s)"
    using ms.run_keeps [of "au_store st'" "spent_pairing_token ?k" xs] spent_pairing_token_stays by auto
  then obtain t where "map_of (m_pairingTokens ?s) ?k = Some t" "\<not> pt_Active t (r_now rd' 0)"
    by (auto simp: spent_pairing_token_def pt_Active_def ms_view_def)
  moreover have "field req ''pairing_token'' = pairing_secret r" using assms(5,6) by (simp add: pairing_secret_def)
  ultimately show ?thesis using assms(1,6,7) e
    by (simp add: handleCompletePairing_def ms_GetPairingToken_def found_def writeErr_def)
qed

text \<open>
  C31. Unpairing is final: when the unpair endpoint answers 200, the caller bears the secret of the pairing's
  account or the active credential of that very pairing; the revocation of the pairing is published; no other
  pairing changes; and from then on, whatever is written to the store short of setting the pairing active again,
  no connection token is issued for the pairing and no refresh token of the pairing is accepted. Its credential is
  dead: short of storing a new one, no request is authenticated as that pairing any more.
\<close>

theorem unpair_terminal:
  assumes "v_ops v = ms_ops" and "ms_ok (au_store st)" and "handleUnpair v rd r st = ((200, b), st')"
  shows "\<exists>req p. decodeJSON unpairReq r = Some req \<and> map_of (m_pairings (au_store st)) (field req ''pair_id'') = Some p \<and>
    (account_bearer (v_sha256 v) (ms_view (au_store st)) r (pr_AccountID p) \<or>
     (\<exists>c. pair_bearer (v_sha256 v) (ms_view (au_store st)) (r_now rd 0) r c \<and> pc_AccountID c = pr_AccountID p \<and>
        pc_PairID c = field req ''pair_id'')) \<and>
    au_bp st' = publishRevocation v \<lparr>re_PairID = field req ''pair_id'', re_AccountID = ''''\<rparr> (au_bp st) \<and>
    (\<forall>k. k \<noteq> field req ''pair_id'' \<longrightarrow> map_of (m_pairings (au_store st')) k = map_of (m_pairings (au_store st)) k) \<and>
    (\<forall>xs rd' r' req' bp rt.
       (\<forall>x \<in> set xs. \<not> activates (field req ''pair_id'') x) \<longrightarrow>
       (decodeJSON tokenReq r' = Some req' \<longrightarrow> field req' ''pair_id'' = field req ''pair_id'' \<longrightarrow>
          fst (fst (handleIssueToken v rd' r' (run ms_ops xs (au_store st')))) \<noteq> 200) \<and>
       (map_of (m_refreshTokens (run ms_ops xs (au_store st'))) (hashSecret (v_sha256 v) (presented r')) = Some rt \<longrightarrow>
          rt_PairID rt = field req ''pair_id'' \<longrightarrow>
          fst (fst (handleRefreshToken v rd' r' \<lparr>au_store = run ms_ops xs (au_store st'), au_bp = bp\<rparr>)) \<noteq> 200)) \<and>
    (\<not> IsZero (r_now rd 1) \<longrightarrow>
      (\<forall>xs now r' c. (\<forall>x \<in> set xs. \<not> recredits (field req ''pair_id'') x) \<longrightarrow>
         authenticatePair v now r' (run ms_ops xs (au_store st')) = Some c \<longrightarrow> pc_PairID c \<noteq> field req ''pair_id''))"
proof -
  obtain req p where q: "decodeJSON unpairReq r = Some req" and p: "db_pairings (ms_view (au_store st)) (field req ''pair_id'') = Some p" and
    au: "account_bearer (v_sha256 v) (ms_view (au_store st)) r (pr_AccountID p) \<or>
     (\<exists>c. pair_bearer (v_sha256 v) (ms_view (au_store st)) (r_now rd 0) r c \<and> pc_AccountID c = pr_AccountID p \<and>
        pc_PairID c = field req ''pair_id'')" and
    st': "ms_ok (au_store st')" "revoked_pairing (field req ''pair_id'') (ms_view (au_store st'))"
      "\<forall>k. k \<noteq> field req ''pair_id'' \<longrightarrow> db_pairings (ms_view (au_store st')) k = db_pairings (ms_view (au_store st)) k"
      "au_bp st' = publishRevocation v \<lparr>re_PairID = field req ''pair_id'', re_AccountID = ''''\<rparr> (au_bp st)"
    using ms.unpair_200 [OF assms] by auto
  have "ms_ok (run ms_ops xs (au_store st')) \<and> revoked_pairing (field req ''pair_id'') (ms_view (run ms_ops xs (au_store st')))"
    if "\<forall>x \<in> set xs. \<not> activates (field req ''pair_id'') x" for xs
    using ms.revoked_run [OF st'(1), of xs "field req ''pair_id''"] st'(2) that by simp
  note rv = conjunct1 [OF this] conjunct2 [OF this]
  have "fst (fst (handleIssueToken v rd' r' (run ms_ops xs (au_store st')))) \<noteq> 200"
    if "\<forall>x \<in> set xs. \<not> activates (field req ''pair_id'') x" "decodeJSON tokenReq r' = Some req'" "field req' ''pair_id'' = field req ''pair_id''"
    for xs rd' r' req'
    using ms.issue_pair_active [OF assms(1) rv(1) [OF that(1)] _ that(2), of rd'] rv(2) [OF that(1)] that(3)
    by (metis prod.collapse)
  moreover have "fst (fst (handleRefreshToken v rd' r' \<lparr>au_store = run ms_ops xs (au_store st'), au_bp = bp\<rparr>)) \<noteq> 200"
    if "\<forall>x \<in> set xs. \<not> activates (field req ''pair_id'') x" "rt_PairID rt = field req ''pair_id''"
      "map_of (m_refreshTokens (run ms_ops xs (au_store st'))) (hashSecret (v_sha256 v) (presented r')) = Some rt"
    for xs rd' r' rt bp
    using ms.refresh_pair_active [OF assms(1), of "\<lparr>au_store = run ms_ops xs (au_store st'), au_bp = bp\<rparr>" rd' r' _ _ rt]
      rv [OF that(1)] that(2,3) by (auto simp: ms_view_def) (metis prod.collapse)
  moreover have "pc_PairID c \<noteq> field req ''pair_id''"
    if "\<not> IsZero (r_now rd 1)" "\<forall>x \<in> set xs. \<not> recredits (field req ''pair_id'') x"
      "authenticatePair v now r' (run ms_ops xs (au_store st')) = Some c" for xs now r' c
  proof -
    have "ms_ok (run ms_ops xs (au_store st'))" "dead_credential (field req ''pair_id'') (ms_view (run ms_ops xs (au_store st')))"
      using ms.run_keeps [of "au_store st'" "dead_credential (field req ''pair_id'')" xs] st'(1)
        ms_unpair_credential [OF assms that(1) q] that(2) dead_credential_stays by blast+
    then show ?thesis using ms.pair_bearerI [OF assms(1) _ that(3)] unfolding dead_credential_def pair_bearer_def pc_Active_def by metis
  qed
  ultimately show ?thesis using q p au st'(3,4)
    by (intro exI [of _ req] exI [of _ p]) (simp add: ms_view_def)
qed

text \<open>
  C32. A phone that has just paired can connect, for a new pairing and for a replaced one: after a completion, a
  request that bears the credential of the answer and asks for a token for the pairing and mobile device of the
  answer is answered 200 as long as the licence permits it and signing succeeds, and the token is the signature
  over claims that name that pairing, that device, the mobile role, the pairing's licence and the account that
  the stored pairing token named. Every pairing and token must have stood under a licence of its own account,
  and the pairing's identifier must not be an account's.
\<close>

theorem paired_phone_connects:
  assumes "v_ops v = ms_ops" and "ms_ok (au_store st)" and "owned (ms_view (au_store st))"
    and "handleCompletePairing v rd r st = ((200, CompletePairingResp pid dk mid cred), st')"
    and "map_of (m_accounts (au_store st')) pid = None"
    and "r_rand rd 2 \<noteq> []" and "v_sha256 v cred \<noteq> []" and "mid \<noteq> ''''"
    and "decodeJSON tokenReq r' = Some req" and "field req ''pair_id'' = pid" and "field req ''device_id'' = mid"
    and "map_of (m_pairings (au_store st')) pid = Some p" and "pairingIssuable v (r_now rd' 1) p (au_store st') = Some lic"
    and "\<And>c. v_sign v c \<noteq> None"
  shows "\<exists>pt jwt. map_of (m_pairingTokens (au_store st)) (hashSecret (v_sha256 v) (pairing_secret r)) = Some pt \<and>
    fst (handleIssueToken v rd' (bearing cred r') (au_store st'))
      = (200, TokenResp jwt (NewID ''rt'' (r_rand rd' 0)) (trunc_div (a_tokenTTL (v_cfg v)) second)) \<and>
    v_sign v \<lparr>c_Issuer = a_issuer (v_cfg v), c_Audience = [a_audience (v_cfg v)], c_Subject = ''device:'' @ mid,
      c_ID = r_jti rd', c_IssuedAt = Some (NewNumericDate (r_wall rd')),
      c_ExpiresAt = Some (NewNumericDate (r_wall rd' + a_tokenTTL (v_cfg v))),
      c_AccountID = pt_AccountID pt, c_PairID = pid, c_DeviceID = mid, c_Role = RoleMobile, c_LicenseID = lic_ID lic\<rparr>
      = Some jwt"
proof -
  obtain pt lic' p' c x where "pr_PairID p' = pid" and x: "dev_ID x = mid" and
    pt: "db_pairingTokens (ms_view (au_store st)) (hashSecret (v_sha256 v) (pairing_secret r)) = Some pt" and
    lic': "lic_ID lic' = pt_LicenseID pt" and pd: "paired (ms_view (au_store st)) (ms_view (au_store st')) pt lic' p' c x" and
    upd: "db_pairingTokens (ms_view (au_store st')) = (db_pairingTokens (ms_view (au_store st)))
       (hashSecret (v_sha256 v) (pairing_secret r) \<mapsto> pt\<lparr>pt_ConsumedAt := r_now rd 3, pt_ResultPairID := pid\<rparr>)" and
    cr: "cred = newPairCredential pid (r_rand rd 2)" "pc_SecretHash c = hashSecret (v_sha256 v) cred" and
    new: "db_pairings (ms_view (au_store st)) pid = None \<longrightarrow> pid = NewID ''pair'' (r_rand rd 1)"
    by (rule ms.complete_effect [OF assms(1,2,4)])
  moreover then have "p' = p" using assms(12) by (auto simp: paired_def ms_view_def)
  ultimately have p: "pr_PairID p = pid" "pr_Status p = PairingActive" "pr_AccountID p = pt_AccountID pt" "pr_MobileDeviceID p = mid"
    and c: "map_of (m_pairCredentials (au_store st')) pid = Some c" "pc_RevokedAt c = 0" "pc_AccountID c = pt_AccountID pt"
      "pc_PairID c = pid" "pc_MobileDeviceID c = mid"
    and dev: "map_of (m_devices (au_store st')) mid = Some x" "dev_AccountID x = pt_AccountID pt" "dev_Role x = RoleMobile"
    using owned_account [OF assms(3) pt lic' pd] by (auto simp: paired_def ms_view_def)
  have pid: "leads pid" "CHR ''.'' \<notin> set pid" "pid \<noteq> ''''"
    using paired_owned [OF assms(3) pt lic' pd upd] new \<open>pr_PairID p' = pid\<close> by (auto simp: leads_def)
  note au = credential_authenticates [OF assms(1) c(1,2) cr(2,1) pid(1,2) assms(6,7)]
  have "authenticateAccount v (bearing cred r') (au_store st') = None"
    using au(1,2) assms(1,5) pid(3) by (simp add: authenticateAccount_def ms_GetAccount_def found_def)
  then have acct: "authenticateAccountOrPair v (r_now rd' 0) (bearing cred r') (au_store st') = Some (pt_AccountID pt, Some c)"
    using au(3) c(3) by (simp add: authenticateAccountOrPair_def)
  obtain jwt where jwt: "v_sign v (Mint_claims (r_wall rd') (r_jti rd') (token_params_for v (pt_AccountID pt) p x lic)) = Some jwt"
    using assms(14) by fastforce
  have "fst (handleIssueToken v rd' (bearing cred r') (au_store st'))
      = (200, TokenResp jwt (NewID ''rt'' (r_rand rd' 0)) (trunc_div (a_tokenTTL (v_cfg v)) second))"
    using acct assms(1,8-13) pid(3) c(4,5) x dev p jwt
    by (simp add: handleIssueToken_def ms_GetPairing_def ms_GetDevice_def found_def pairingHasDevice_def
        issueTokenPair_def ms_PutRefreshToken_def Let_def)
  then show ?thesis using pt jwt p(1) x dev(3) by (auto simp: minted_claims ms_view_def)
qed

subsection \<open>A pairing on the concrete service\<close>

lemma auth_state_eta: "\<lparr>au_store = au_store st, au_bp = au_bp st\<rparr> = (st :: ('s, 'b) auth_state)"
  by simp

definition ex_pair_store :: mem_store where
  "ex_pair_store = run ms_ops
     [UpsertDevice \<lparr>dev_ID = ''d2'', dev_AccountID = ''a1'', dev_Role = RoleDesktop, dev_PublicKey = Some ''dk2'', dev_CreatedAt = 1\<rparr>,
      CreatePairingToken \<lparr>pt_ID = hashSecret (v_sha256 ex_svc) ''pt_x'', pt_AccountID = ''a1'', pt_LicenseID = ''l1'',
        pt_DesktopDeviceID = ''d2'', pt_ExpiresAt = 5000, pt_ConsumedAt = 0, pt_ResultPairID = ''''\<rparr>] ex_store"

definition ex_pair_state :: "(mem_store, mem_bp) auth_state" where
  "ex_pair_state = \<lparr>au_store = ex_pair_store, au_bp = mem_New 60 4\<rparr>"

definition ex_complete_req :: request where
  "ex_complete_req = ex_post '''' [(''pairing_token'', ''pt_x''), (''mobile_public_key'', ''bW0='')]"

definition ex_paired :: "(mem_store, mem_bp) auth_state" where
  "ex_paired = snd (handleCompletePairing ex_svc ex_rd ex_complete_req ex_pair_state)"

lemma ex_pair_state_ok: "ms_ok (au_store ex_pair_state)"
  unfolding ex_pair_state_def ex_pair_store_def using ms.run_inv ex_store_ok by auto

definition ex_pid :: string where "ex_pid = NewID ''pair'' (r_rand ex_rd 1)"
definition ex_mid :: string where "ex_mid = NewID ''dev'' (r_rand ex_rd 0)"
definition ex_cred :: string where "ex_cred = newPairCredential ex_pid (r_rand ex_rd 2)"

lemma ex_complete_eval:
  "case handleCompletePairing ex_svc ex_rd ex_complete_req ex_pair_state of
     (resp, st) \<Rightarrow> resp = (200, CompletePairingResp ex_pid ''ZGsy'' ex_mid ex_cred) \<and>
       map_of (m_accounts (au_store st)) ex_pid = None \<and>
       (case map_of (m_pairings (au_store st)) ex_pid of
          None \<Rightarrow> False | Some p \<Rightarrow> pairingIssuable ex_svc 1001 p (au_store st) \<noteq> None)"
  by code_simp

lemma ex_complete:
  "handleCompletePairing ex_svc ex_rd ex_complete_req ex_pair_state = ((200, CompletePairingResp ex_pid ''ZGsy'' ex_mid ex_cred), ex_paired)"
  using ex_complete_eval unfolding ex_paired_def by (auto split: prod.splits)

lemma ex_paired_rows:
  "map_of (m_accounts (au_store ex_paired)) ex_pid = None"
  "\<exists>p lic. map_of (m_pairings (au_store ex_paired)) ex_pid = Some p \<and> pairingIssuable ex_svc 1001 p (au_store ex_paired) = Some lic"
  using ex_complete_eval unfolding ex_complete by (auto split: option.splits)

lemma ex_pair_rows:
  "list_all (\<lambda>(k, p). leads k \<and> CHR ''.'' \<notin> set k \<and> (case map_of (m_licenses (au_store ex_pair_state)) (pr_LicenseID p) of
     None \<Rightarrow> False | Some l \<Rightarrow> lic_AccountID l = pr_AccountID p)) (m_pairings (au_store ex_pair_state))"
  "list_all (\<lambda>(k, t). case map_of (m_licenses (au_store ex_pair_state)) (pt_LicenseID t) of
     None \<Rightarrow> False | Some l \<Rightarrow> lic_AccountID l = pt_AccountID t) (m_pairingTokens (au_store ex_pair_state))"
  by code_simp+

lemma ex_owned: "owned (ms_view (au_store ex_pair_state))"
  using ex_pair_rows unfolding owned_def list_all_iff
  by (auto simp: ms_view_def dest!: map_of_SomeD split: option.splits) (fastforce split: option.splits)+

theorem complete_pairing_sound_witness:
  "\<exists>pt lic p c x. map_of (m_pairingTokens (au_store ex_pair_state)) (hashSecret (v_sha256 ex_svc) (pairing_secret ex_complete_req)) = Some pt \<and>
     paired (ms_view (au_store ex_pair_state)) (ms_view (au_store ex_paired)) pt lic p c x"
  using complete_pairing_sound [OF ex_svc_ops(1) ex_pair_state_ok ex_complete] by blast

theorem pairing_token_single_use_witness:
  "fst (handleCompletePairing ex_svc ex_rd ex_complete_req ex_paired) = (401, ErrorBody ''pairing_token_invalid'')"
proof -
  have "decodeJSON completePairingReq ex_complete_req =
    Some (the (decodeJSON completePairingReq ex_complete_req))"
    "field (the (decodeJSON completePairingReq ex_complete_req)) ''mobile_public_key'' \<noteq> ''''" by code_simp+
  then show ?thesis
    using pairing_token_single_use [OF _ ex_pair_state_ok ex_complete, of ex_complete_req
        "the (decodeJSON completePairingReq ex_complete_req)" ex_rd "[]" "au_bp ex_paired"]
    by (simp add: run_def IsZero_def auth_state_eta)
qed

definition ex_token_req :: request where
  "ex_token_req = ex_post '''' [(''device_id'', ex_mid), (''pair_id'', ex_pid)]"

theorem paired_phone_connects_witness:
  "\<exists>jwt. fst (handleIssueToken ex_svc ex_rd (bearing ex_cred ex_token_req) (au_store ex_paired))
     = (200, TokenResp jwt (NewID ''rt'' (r_rand ex_rd 0)) 600)"
proof -
  obtain p lic where p: "map_of (m_pairings (au_store ex_paired)) ex_pid = Some p"
    "pairingIssuable ex_svc (r_now ex_rd 1) p (au_store ex_paired) = Some lic" using ex_paired_rows(2) by auto
  have q: "decodeJSON tokenReq ex_token_req = Some (the (decodeJSON tokenReq ex_token_req))"
    "field (the (decodeJSON tokenReq ex_token_req)) ''pair_id'' = ex_pid"
    "field (the (decodeJSON tokenReq ex_token_req)) ''device_id'' = ex_mid" by code_simp+
  have "v_sha256 ex_svc ex_cred \<noteq> []" "ex_mid \<noteq> ''''" "trunc_div (a_tokenTTL ex_cfg) second = 600" by code_simp+
  with paired_phone_connects [OF _ ex_pair_state_ok ex_owned ex_complete ex_paired_rows(1) _ _ _ q p] show ?thesis
    by (auto simp: ex_svc_def)
qed

definition ex_unpair_req :: request where "ex_unpair_req = ex_post ''a1.key'' [(''pair_id'', ''p1'')]"

lemma ex_unpair: "fst (handleUnpair ex_svc ex_rd ex_unpair_req ex_state) = (200, StatusResp ''revoked'')"
  by code_simp

theorem unpair_terminal_witness:
  "fst (fst (handleIssueToken ex_svc ex_rd (ex_post ''a1.key'' [(''device_id'', ''d1''), (''pair_id'', ''p1'')])
     (au_store (snd (handleUnpair ex_svc ex_rd ex_unpair_req ex_state))))) \<noteq> 200"
proof -
  let ?st = "snd (handleUnpair ex_svc ex_rd ex_unpair_req ex_state)"
  let ?r = "ex_post ''a1.key'' [(''device_id'', ''d1''), (''pair_id'', ''p1'')]"
  have u: "handleUnpair ex_svc ex_rd ex_unpair_req ex_state = ((200, StatusResp ''revoked''), ?st)"
    using ex_unpair by (metis prod.collapse)
  have q: "decodeJSON unpairReq ex_unpair_req = Some (the (decodeJSON unpairReq ex_unpair_req))"
    "field (the (decodeJSON unpairReq ex_unpair_req)) ''pair_id'' = ''p1''"
    "decodeJSON tokenReq ?r = Some (the (decodeJSON tokenReq ?r))"
    "field (the (decodeJSON tokenReq ?r)) ''pair_id'' = ''p1''" by code_simp+
  have ok: "ms_ok (au_store ex_state)" using ex_store_ok by (simp add: ex_state_def)
  have "\<forall>xs rd' r' req' bp rt.
       (\<forall>x \<in> set xs. \<not> activates ''p1'' x) \<longrightarrow>
       (decodeJSON tokenReq r' = Some req' \<longrightarrow> field req' ''pair_id'' = ''p1'' \<longrightarrow>
          fst (fst (handleIssueToken ex_svc rd' r' (run ms_ops xs (au_store ?st)))) \<noteq> 200)"
    using unpair_terminal [OF _ ok u] q(1,2) by auto
  from this [rule_format, of "[]" ?r "the (decodeJSON tokenReq ?r)" ex_rd] q(3,4) show ?thesis
    by (simp add: run_def)
qed

end
