(* ===== verification/Store_Steps.thy ===== *)
theory Store_Steps
  imports AuthStore
begin

section \<open>Sequences of store operations\<close>

text \<open>
  The services write to the store only through its operations. \<open>steps ops P s s'\<close>: the store goes from \<open>s\<close> to \<open>s'\<close> by
  operations that satisfy \<open>P\<close>. One rule per operation gives the step that a call makes, so the footprint of a
  handler follows the handler's definition; what every such operation keeps is then kept by the handler.
\<close>

inductive steps :: "'s store_ops \<Rightarrow> (store_op \<Rightarrow> bool) \<Rightarrow> 's \<Rightarrow> 's \<Rightarrow> bool" for ops P where
  steps_refl: "steps ops P s s"
| steps_more: "steps ops P s t \<Longrightarrow> P x \<Longrightarrow> steps ops P s (snd (exec ops x t))"

lemma steps_one: "P x \<Longrightarrow> steps ops P s (snd (exec ops x s))"
  by (rule steps_more [OF steps_refl])

lemma steps_trans [trans]:
  assumes "steps ops P s t" and "steps ops P t u"
  shows "steps ops P s u"
  using assms(2,1) by induction (auto intro: steps_more)

lemma steps_mono:
  assumes "steps ops P s t" and "\<And>x. P x \<Longrightarrow> Q x"
  shows "steps ops Q s t"
  using assms(1) by induction (auto intro: steps.intros assms(2))

lemma steps_run: "steps ops P s t \<longleftrightarrow> (\<exists>xs. (\<forall>x \<in> set xs. P x) \<and> t = run ops xs s)"
proof
  assume "steps ops P s t"
  then show "\<exists>xs. (\<forall>x \<in> set xs. P x) \<and> t = run ops xs s"
  proof induction
    case (steps_refl s)
    then show ?case by (intro exI [of _ "[]"]) (simp add: run_def)
  next
    case (steps_more s t x)
    then obtain xs where "\<forall>x \<in> set xs. P x" "t = run ops xs s" by blast
    with steps_more show ?case by (intro exI [of _ "xs @ [x]"]) (auto simp: run_def)
  qed
next
  assume "\<exists>xs. (\<forall>x \<in> set xs. P x) \<and> t = run ops xs s"
  then obtain xs where "\<forall>x \<in> set xs. P x" "t = run ops xs s" by blast
  then show "steps ops P s t"
  proof (induction xs arbitrary: t rule: rev_induct)
    case Nil
    then show ?case by (simp add: run_def steps_refl)
  next
    case (snoc x xs)
    then have "steps ops P s (run ops xs s)" "P x" by auto
    with snoc.prems show ?case using steps_more [of ops P s "run ops xs s" x] by (simp add: run_def)
  qed
qed

text \<open>A call to an operation is one step, whatever it answers.\<close>

lemma step_of:
  "P (UpsertAccount a) \<Longrightarrow> steps ops P s (snd (st_UpsertAccount ops a s))"
  "P (UpsertSubscription u) \<Longrightarrow> steps ops P s (snd (st_UpsertSubscription ops u s))"
  "P (CreateLicense l) \<Longrightarrow> steps ops P s (snd (st_CreateLicense ops l s))"
  "P (SetLicenseStatus k v) \<Longrightarrow> steps ops P s (snd (st_SetLicenseStatus ops k v s))"
  "P (UpsertDevice d) \<Longrightarrow> steps ops P s (snd (st_UpsertDevice ops d s))"
  "P (CreatePairingWithinCapacity p n) \<Longrightarrow> steps ops P s (snd (st_CreatePairingWithinCapacity ops p n s))"
  "P (SetPairingStatus k v) \<Longrightarrow> steps ops P s (snd (st_SetPairingStatus ops k v s))"
  "P (UpdatePairingDevices k m d') \<Longrightarrow> steps ops P s (snd (st_UpdatePairingDevices ops k m d' s))"
  "P (PutRefreshToken rt) \<Longrightarrow> steps ops P s (snd (st_PutRefreshToken ops rt s))"
  "P (RevokeRefreshToken t k) \<Longrightarrow> steps ops P s (snd (st_RevokeRefreshToken ops t k s))"
  "P (ConsumeRefreshToken k t) \<Longrightarrow> steps ops P s (snd (st_ConsumeRefreshToken ops k t s))"
  "P (RevokeRefreshTokensByDevice k t) \<Longrightarrow> steps ops P s (snd (st_RevokeRefreshTokensByDevice ops k t s))"
  "P (PutPairCredential c) \<Longrightarrow> steps ops P s (snd (st_PutPairCredential ops c s))"
  "P (RevokePairCredential k t) \<Longrightarrow> steps ops P s (snd (st_RevokePairCredential ops k t s))"
  "P (CreatePairingToken pt) \<Longrightarrow> steps ops P s (snd (st_CreatePairingToken ops pt s))"
  "P (ConsumePairingToken k q t) \<Longrightarrow> steps ops P s (snd (st_ConsumePairingToken ops k q t s))"
  "P (CreateCheckoutClaim cc) \<Longrightarrow> steps ops P s (snd (st_CreateCheckoutClaim ops cc s))"
  "P (MarkCheckoutClaimReady k m q y z) \<Longrightarrow> steps ops P s (snd (st_MarkCheckoutClaimReady ops k m q y z s))"
  "P (SetCheckoutClaimCode k q) \<Longrightarrow> steps ops P s (snd (st_SetCheckoutClaimCode ops k q s))"
  "P (SetWebhookStatus k v n t) \<Longrightarrow> steps ops P s (snd (st_SetWebhookStatus ops k v n t s))"
  by (drule steps_one [where ops = ops and s = s], simp)+

lemma step_of_results:
  "P (ConsumeCheckoutClaim k t) \<Longrightarrow> steps ops P s (snd (st_ConsumeCheckoutClaim ops k t s))"
  "P (DeleteExpiredCheckoutClaims t) \<Longrightarrow> steps ops P s (snd (st_DeleteExpiredCheckoutClaims ops t s))"
  "P (InsertWebhookEventIfAbsent e) \<Longrightarrow> steps ops P s (snd (st_InsertWebhookEventIfAbsent ops e s))"
  using steps_one [of P "ConsumeCheckoutClaim k t" ops s] steps_one [of P "DeleteExpiredCheckoutClaims t" ops s]
    steps_one [of P "InsertWebhookEventIfAbsent e" ops s]
  by (auto split: prod.splits sum.splits bool.splits)

text \<open>The form in which a handler makes the call: by the pair it returns.\<close>

lemma step_by:
  assumes "steps ops P s (snd r)" and "r = (e, s')"
  shows "steps ops P s s'"
  using assms by simp

lemmas step_rules = step_of step_of_results
lemmas step_eqs = step_rules [THEN step_by]

context auth_store
begin

lemma steps_keep:
  assumes "steps ops P s t" and "inv s" and "J (view s)"
    and "\<And>x d. P x \<Longrightarrow> db_ok d \<Longrightarrow> J d \<Longrightarrow> J (snd (spec x d))"
  shows "inv t \<and> J (view t)"
proof -
  obtain xs where "\<forall>x \<in> set xs. P x" "t = run ops xs s" using assms(1) unfolding steps_run by blast
  then show ?thesis using run_keeps [of s J xs] assms(2-4) by blast
qed

lemma steps_inv: "steps ops P s t \<Longrightarrow> inv s \<Longrightarrow> inv t"
  using steps_keep [of P s t "\<lambda>_. True"] by simp

end

end
