(* ===== verification/Billing.thy ===== *)
theory Billing
  imports Auth_Service Store_Steps
begin

section \<open>Billing: Stripe webhooks and reconciliation\<close>

text \<open>
  Models \<^verbatim>\<open>internal/billing\<close> (\<^verbatim>\<open>stripe.go\<close>, \<^verbatim>\<open>extract.go\<close>, \<^verbatim>\<open>reconcile.go\<close>) and the webhook handler of
  \<^verbatim>\<open>internal/authservice/handlers.go\<close>. The Stripe library is a parameter: what it checks of a signature, how it
  reads the JSON of its objects, and what its API answers. A handler of an event ends well, with an error, or
  with a panic where the source dereferences a missing API.
\<close>

subsection \<open>What Stripe sends\<close>

text \<open>A price, its metadata and a list element may each be missing.\<close>

record stripe_item =
  it_ID :: string
  it_CurrentPeriodEnd :: int
  it_Price :: "(string, string) gomap option option"

record stripe_sub =
  ss_ID :: string
  ss_Customer :: "string option"
  ss_Status :: string
  ss_Items :: "stripe_item option list option"
  ss_Metadata :: "(string, string) gomap"

record checkout_session =
  cs_ID :: string
  cs_Customer :: "string option"
  cs_ClientReferenceID :: string
  cs_Subscription :: "string option"
  cs_Metadata :: "(string, string) gomap"

text \<open>\<open>inv_Parent\<close>: the parent, its subscription details and their subscription may each be missing.\<close>

record stripe_invoice =
  inv_ID :: string
  inv_Parent :: "string option option option"

text \<open>\<open>ev_Raw\<close>: the raw object of the event's data; the data may be missing, and reading its object then panics.\<close>

record stripe_event =
  ev_ID :: string
  ev_Type :: string
  ev_Raw :: "bytes option"

record checkout_params =
  cp_PriceID :: string
  cp_SuccessURL :: string
  cp_CancelURL :: string
  cp_Metadata :: "(string, string) gomap"

record stripe_api =
  sa_GetSubscription :: "string \<Rightarrow> stripe_sub option"
  sa_ListSubscriptions :: "stripe_sub list option"
  sa_CreateCheckoutSession :: "checkout_params \<Rightarrow> (string \<times> string) option"
  sa_CreateBillingPortalSession :: "string \<Rightarrow> string \<Rightarrow> string option"

record ('s, 'b) processor =
  p_ops :: "'s store_ops"
  p_bps :: "'b bp_ops"
  p_api :: "stripe_api option"
  p_grace :: duration
  p_webhookSecret :: string
  p_construct :: "bytes \<Rightarrow> string \<Rightarrow> string \<Rightarrow> stripe_event option"
  p_event :: "bytes \<Rightarrow> stripe_event option"
  p_session :: "bytes \<Rightarrow> checkout_session option"
  p_subscription :: "bytes \<Rightarrow> stripe_sub option"
  p_invoice :: "bytes \<Rightarrow> stripe_invoice option"

datatype billing_error =
  ErrParse
| ErrNoCustomer
| ErrNoSubscription
| ErrStripe
| ErrPublish
| ErrFrom store_error

datatype outcome = Fine | Failed billing_error | Panics

subsection \<open>Reading the objects\<close>

definition customerIDOf :: "string option \<Rightarrow> string" where
  "customerIDOf c = (case c of None \<Rightarrow> '''' | Some k \<Rightarrow> k)"

definition subscriptionIDOf :: "string option \<Rightarrow> string" where
  "subscriptionIDOf s = (case s of None \<Rightarrow> '''' | Some k \<Rightarrow> k)"

definition items_of :: "stripe_sub \<Rightarrow> stripe_item list" where
  "items_of sub = (case ss_Items sub of None \<Rightarrow> [] | Some xs \<Rightarrow> List.map_filter id xs)"

definition price_metadata :: "stripe_item \<Rightarrow> (string, string) gomap option" where
  "price_metadata it = (case it_Price it of Some (Some m) \<Rightarrow> Some m | _ \<Rightarrow> None)"

definition maxPairsFor :: "stripe_sub \<Rightarrow> int" where
  "maxPairsFor sub =
     (case find (\<lambda>m. map_of m ''max_pairs'' \<noteq> None) (List.map_filter price_metadata (items_of sub)) of
        Some m \<Rightarrow> MaxPairs m
      | None \<Rightarrow> MaxPairs (ss_Metadata sub))"

definition currentPeriodEnd :: "stripe_sub \<Rightarrow> time" where
  "currentPeriodEnd sub =
     (case find (\<lambda>it. it_CurrentPeriodEnd it > 0) (items_of sub) of
        Some it \<Rightarrow> time_Unix (it_CurrentPeriodEnd it)
      | None \<Rightarrow> 0)"

definition firstItemID :: "stripe_sub \<Rightarrow> string" where
  "firstItemID sub = (case find (\<lambda>it. it_ID it \<noteq> '''') (items_of sub) of Some it \<Rightarrow> it_ID it | None \<Rightarrow> '''')"

text \<open>Nothing when the event has no data.\<close>

definition invoiceSubscriptionID :: "('s, 'b) processor \<Rightarrow> stripe_event \<Rightarrow> (billing_error + string) option" where
  "invoiceSubscriptionID p ev =
     (case ev_Raw ev of
        None \<Rightarrow> None
      | Some raw \<Rightarrow>
          Some (case p_invoice p raw of
             None \<Rightarrow> Inl ErrParse
           | Some x \<Rightarrow>
               (case inv_Parent x of
                  Some (Some (Some k)) \<Rightarrow> (if k = '''' then Inl ErrNoSubscription else Inr k)
                | _ \<Rightarrow> Inl ErrNoSubscription)))"

subsection \<open>Accounts and licences of a subscription\<close>

text \<open>A loop over a list that returns at the first error.\<close>

fun each :: "('a \<Rightarrow> 'st \<Rightarrow> billing_error option \<times> 'st) \<Rightarrow> 'a list \<Rightarrow> 'st \<Rightarrow> billing_error option \<times> 'st" where
  "each f [] s = (None, s)"
| "each f (x # xs) s = (case f x s of (Some e, s) \<Rightarrow> (Some e, s) | (None, s) \<Rightarrow> each f xs s)"

definition from_store :: "store_error option \<times> 's \<Rightarrow> billing_error option \<times> 's" where
  "from_store r = (case r of (e, s) \<Rightarrow> (map_option ErrFrom e, s))"

definition resolveAccount ::
  "('s, 'b) processor \<Rightarrow> time \<Rightarrow> bytes \<Rightarrow> string \<Rightarrow> 's \<Rightarrow> (billing_error + string) \<times> 's" where
  "resolveAccount p now rnd customerID s =
     (if customerID = '''' then (Inl ErrNoCustomer, s)
      else case st_GetAccountByCustomer (p_ops p) s customerID of
        Inr acct \<Rightarrow> (Inr (acc_ID acct), s)
      | Inl e \<Rightarrow>
          (let k = NewID ''acct'' rnd
           in case st_UpsertAccount (p_ops p) \<lparr>acc_ID = k, acc_StripeCustomerID = customerID, acc_SecretHash = '''',
                  acc_CreatedAt = now\<rparr> s of
                (Some e, s) \<Rightarrow> (Inl (ErrFrom e), s)
              | (None, s) \<Rightarrow> (Inr k, s)))"

text \<open>One turn of the provisioning loop per missing licence; \<open>n\<close> turns are left.\<close>

fun provision :: "('s, 'b) processor \<Rightarrow> readings \<Rightarrow> subscription \<Rightarrow> string \<Rightarrow> nat \<Rightarrow> nat \<Rightarrow> 's \<Rightarrow> billing_error option \<times> 's" where
  "provision p rd mirror itemID i 0 s = (None, s)"
| "provision p rd mirror itemID i (Suc n) s =
     (case st_CreateLicense (p_ops p) \<lparr>lic_ID = NewKey (r_rand rd (3 + i)), lic_AccountID = sub_AccountID mirror,
          lic_SubscriptionID = sub_ID mirror, lic_SubscriptionItemID = itemID, lic_Status = LicenseActive,
          lic_CreatedAt = r_now rd (10 + i)\<rparr> s of
        (Some e, s) \<Rightarrow> (Some (ErrFrom e), s)
      | (None, s) \<Rightarrow> provision p rd mirror itemID (Suc i) n s)"

definition ensureLicenses ::
  "('s, 'b) processor \<Rightarrow> readings \<Rightarrow> subscription \<Rightarrow> stripe_sub \<Rightarrow> 's \<Rightarrow> billing_error option \<times> 's" where
  "ensureLicenses p rd mirror sub s =
     (case st_ListLicensesBySubscription (p_ops p) s (sub_ID mirror) of
        Inl e \<Rightarrow> (Some (ErrFrom e), s)
      | Inr existing \<Rightarrow>
          provision p rd mirror (firstItemID sub) (length existing) (nat (sub_MaxPairs mirror - int (length existing))) s)"

text \<open>Cutting the pairings of one licence: the status first when the licence is revoked, then the notice.\<close>

definition cut_pairing ::
  "('s, 'b) processor \<Rightarrow> behavior \<Rightarrow> pairing \<Rightarrow> ('s, 'b) auth_state \<Rightarrow> billing_error option \<times> ('s, 'b) auth_state" where
  "cut_pairing p b pr st =
     (let publish = (\<lambda>st. case PublishRevocation (p_bps p) \<lparr>re_PairID = pr_PairID pr, re_AccountID = ''''\<rparr> (au_bp st) of
            (Inl e, bp) \<Rightarrow> (Some ErrPublish, st\<lparr>au_bp := bp\<rparr>)
          | (Inr _, bp) \<Rightarrow> (None, st\<lparr>au_bp := bp\<rparr>))
      in if b = Revoked then
           (case st_SetPairingStatus (p_ops p) (pr_PairID pr) PairingRevoked (au_store st) of
              (Some e, s) \<Rightarrow> (Some (ErrFrom e), st\<lparr>au_store := s\<rparr>)
            | (None, s) \<Rightarrow> publish (st\<lparr>au_store := s\<rparr>))
         else publish st)"

definition cut_license ::
  "('s, 'b) processor \<Rightarrow> behavior \<Rightarrow> license \<Rightarrow> ('s, 'b) auth_state \<Rightarrow> billing_error option \<times> ('s, 'b) auth_state" where
  "cut_license p b l st =
     (case (if b = Revoked then st_SetLicenseStatus (p_ops p) (lic_ID l) LicenseRevoked (au_store st) else (None, au_store st)) of
        (Some e, s) \<Rightarrow> (Some (ErrFrom e), st\<lparr>au_store := s\<rparr>)
      | (None, s) \<Rightarrow>
          (case st_ListActivePairingsByLicense (p_ops p) s (lic_ID l) of
             Inl e \<Rightarrow> (Some (ErrFrom e), st\<lparr>au_store := s\<rparr>)
           | Inr pairs \<Rightarrow> each (cut_pairing p b) pairs (st\<lparr>au_store := s\<rparr>)))"

definition enforce ::
  "('s, 'b) processor \<Rightarrow> string \<Rightarrow> behavior \<Rightarrow> ('s, 'b) auth_state \<Rightarrow> billing_error option \<times> ('s, 'b) auth_state" where
  "enforce p subID b st =
     (case st_ListLicensesBySubscription (p_ops p) (au_store st) subID of
        Inl e \<Rightarrow> (Some (ErrFrom e), st)
      | Inr licenses \<Rightarrow> each (cut_license p b) licenses st)"

definition reactivate_one :: "('s, 'b) processor \<Rightarrow> license \<Rightarrow> 's \<Rightarrow> billing_error option \<times> 's" where
  "reactivate_one p l s =
     (if lic_Status l \<noteq> LicenseActive then from_store (st_SetLicenseStatus (p_ops p) (lic_ID l) LicenseActive s) else (None, s))"

definition reactivate :: "('s, 'b) processor \<Rightarrow> string \<Rightarrow> 's \<Rightarrow> billing_error option \<times> 's" where
  "reactivate p subID s =
     (case st_ListLicensesBySubscription (p_ops p) s subID of
        Inl e \<Rightarrow> (Some (ErrFrom e), s)
      | Inr licenses \<Rightarrow> each (reactivate_one p) licenses s)"

subsection \<open>Synchronising a subscription\<close>

definition mirror_of :: "('s, 'b) processor \<Rightarrow> time \<Rightarrow> stripe_sub \<Rightarrow> string \<Rightarrow> 's \<Rightarrow> subscription" where
  "mirror_of p now sub accountID s =
     (let status = ss_Status sub;
          kept = (case st_GetSubscription (p_ops p) s (ss_ID sub) of Inr existing \<Rightarrow> sub_GraceUntil existing | Inl e \<Rightarrow> 0);
          grace = (if status = SubPastDue \<and> IsZero kept then now + p_grace p else kept)
      in \<lparr>sub_ID = ss_ID sub, sub_AccountID = accountID, sub_Status = status, sub_MaxPairs = maxPairsFor sub,
          sub_CurrentPeriodEnd = currentPeriodEnd sub,
          sub_GraceUntil = (if status \<noteq> SubPastDue then 0 else grace), sub_UpdatedAt = now\<rparr>)"

definition syncSubscription ::
  "('s, 'b) processor \<Rightarrow> readings \<Rightarrow> stripe_sub \<Rightarrow> string \<Rightarrow> ('s, 'b) auth_state \<Rightarrow> billing_error option \<times> ('s, 'b) auth_state" where
  "syncSubscription p rd sub accountID st =
     (let now = r_now rd 2; mirror = mirror_of p now sub accountID (au_store st)
      in case st_UpsertSubscription (p_ops p) mirror (au_store st) of
           (Some e, s) \<Rightarrow> (Some (ErrFrom e), st\<lparr>au_store := s\<rparr>)
         | (None, s) \<Rightarrow>
             (case ensureLicenses p rd mirror sub s of
                (Some e, s) \<Rightarrow> (Some e, st\<lparr>au_store := s\<rparr>)
              | (None, s) \<Rightarrow>
                  (let behavior = Evaluate mirror now
                   in if Enforced behavior then enforce p (ss_ID sub) behavior (st\<lparr>au_store := s\<rparr>)
                      else case reactivate p (ss_ID sub) s of (e, s) \<Rightarrow> (e, st\<lparr>au_store := s\<rparr>))))"

subsection \<open>Event handlers\<close>

definition ended :: "billing_error option \<times> 'st \<Rightarrow> outcome \<times> 'st" where
  "ended r = (case r of (None, s) \<Rightarrow> (Fine, s) | (Some e, s) \<Rightarrow> (Failed e, s))"

text \<open>Binding the waiting desktop's claim to what was provisioned, when the session carries a nonce.\<close>

definition bind_claim ::
  "('s, 'b) processor \<Rightarrow> checkout_session \<Rightarrow> string \<Rightarrow> string \<Rightarrow> 's \<Rightarrow> billing_error option \<times> 's" where
  "bind_claim p cs accountID subID s =
     (let nonce = (case map_of (cs_Metadata cs) ''nonce'' of None \<Rightarrow> '''' | Some n \<Rightarrow> n)
      in if nonce = '''' then (None, s)
         else
           let licenseID = (case st_ListLicensesBySubscription (p_ops p) s subID of
                  Inr (l # _) \<Rightarrow> lic_ID l | _ \<Rightarrow> '''')
           in from_store (st_MarkCheckoutClaimReady (p_ops p) nonce accountID licenseID subID (cs_ID cs) s))"

definition checkout_account ::
  "('s, 'b) processor \<Rightarrow> readings \<Rightarrow> checkout_session \<Rightarrow> string \<Rightarrow> 's \<Rightarrow> (billing_error + string) \<times> 's" where
  "checkout_account p rd cs customerID s =
     (if cs_ClientReferenceID cs = '''' then resolveAccount p (r_now rd 0) (r_rand rd 0) customerID s
      else (Inr (cs_ClientReferenceID cs), s))"

definition handleCheckoutCompleted ::
  "('s, 'b) processor \<Rightarrow> readings \<Rightarrow> stripe_event \<Rightarrow> ('s, 'b) auth_state \<Rightarrow> outcome \<times> ('s, 'b) auth_state" where
  "handleCheckoutCompleted p rd ev st =
     (case ev_Raw ev of
        None \<Rightarrow> (Panics, st)
      | Some raw \<Rightarrow>
          (case p_session p raw of
             None \<Rightarrow> (Failed ErrParse, st)
           | Some cs \<Rightarrow>
               (let customerID = customerIDOf (cs_Customer cs)
                in if customerID = '''' then (Failed ErrNoCustomer, st)
                   else case checkout_account p rd cs customerID (au_store st) of
                     (Inl e, s) \<Rightarrow> (Failed e, st\<lparr>au_store := s\<rparr>)
                   | (Inr accountID, s) \<Rightarrow>
                       (case st_UpsertAccount (p_ops p) \<lparr>acc_ID = accountID, acc_StripeCustomerID = customerID,
                            acc_SecretHash = '''', acc_CreatedAt = r_now rd 1\<rparr> s of
                          (Some e, s) \<Rightarrow> (Failed (ErrFrom e), st\<lparr>au_store := s\<rparr>)
                        | (None, s) \<Rightarrow>
                            (let subID = subscriptionIDOf (cs_Subscription cs)
                             in if subID = '''' then (Failed ErrNoSubscription, st\<lparr>au_store := s\<rparr>)
                                else case p_api p of
                                  None \<Rightarrow> (Panics, st\<lparr>au_store := s\<rparr>)
                                | Some api \<Rightarrow>
                                    (case sa_GetSubscription api subID of
                                       None \<Rightarrow> (Failed ErrStripe, st\<lparr>au_store := s\<rparr>)
                                     | Some sub \<Rightarrow>
                                         (case syncSubscription p rd sub accountID (st\<lparr>au_store := s\<rparr>) of
                                            (Some e, st) \<Rightarrow> (Failed e, st)
                                          | (None, st) \<Rightarrow>
                                              (case bind_claim p cs accountID subID (au_store st) of
                                                 (e, s) \<Rightarrow> ended (e, st\<lparr>au_store := s\<rparr>)))))))))"

definition handleSubscriptionUpsert ::
  "('s, 'b) processor \<Rightarrow> readings \<Rightarrow> stripe_event \<Rightarrow> ('s, 'b) auth_state \<Rightarrow> outcome \<times> ('s, 'b) auth_state" where
  "handleSubscriptionUpsert p rd ev st =
     (case ev_Raw ev of
        None \<Rightarrow> (Panics, st)
      | Some raw \<Rightarrow>
          (case p_subscription p raw of
             None \<Rightarrow> (Failed ErrParse, st)
           | Some sub \<Rightarrow>
               (case resolveAccount p (r_now rd 0) (r_rand rd 0) (customerIDOf (ss_Customer sub)) (au_store st) of
                  (Inl e, s) \<Rightarrow> (Failed e, st\<lparr>au_store := s\<rparr>)
                | (Inr accountID, s) \<Rightarrow> ended (syncSubscription p rd sub accountID (st\<lparr>au_store := s\<rparr>)))))"

definition handleSubscriptionDeleted ::
  "('s, 'b) processor \<Rightarrow> readings \<Rightarrow> stripe_event \<Rightarrow> ('s, 'b) auth_state \<Rightarrow> outcome \<times> ('s, 'b) auth_state" where
  "handleSubscriptionDeleted p rd ev st =
     (case ev_Raw ev of
        None \<Rightarrow> (Panics, st)
      | Some raw \<Rightarrow>
          (case p_subscription p raw of
             None \<Rightarrow> (Failed ErrParse, st)
           | Some sub \<Rightarrow>
               (case resolveAccount p (r_now rd 0) (r_rand rd 0) (customerIDOf (ss_Customer sub)) (au_store st) of
                  (Inl e, s) \<Rightarrow> (Failed e, st\<lparr>au_store := s\<rparr>)
                | (Inr accountID, s) \<Rightarrow>
                    (case st_UpsertSubscription (p_ops p) \<lparr>sub_ID = ss_ID sub, sub_AccountID = accountID, sub_Status = SubCanceled,
                         sub_MaxPairs = maxPairsFor sub, sub_CurrentPeriodEnd = 0, sub_GraceUntil = 0,
                         sub_UpdatedAt = r_now rd 1\<rparr> s of
                       (Some e, s) \<Rightarrow> (Failed (ErrFrom e), st\<lparr>au_store := s\<rparr>)
                     | (None, s) \<Rightarrow> ended (enforce p (ss_ID sub) Revoked (st\<lparr>au_store := s\<rparr>))))))"

definition handleInvoicePaymentFailed ::
  "('s, 'b) processor \<Rightarrow> readings \<Rightarrow> stripe_event \<Rightarrow> 's \<Rightarrow> outcome \<times> 's" where
  "handleInvoicePaymentFailed p rd ev s =
     (case invoiceSubscriptionID p ev of
        None \<Rightarrow> (Panics, s)
      | Some (Inl e) \<Rightarrow> (Failed e, s)
      | Some (Inr subID) \<Rightarrow>
          (case st_GetSubscription (p_ops p) s subID of
             Inl e \<Rightarrow> (Failed (ErrFrom e), s)
           | Inr mirror \<Rightarrow>
               ended (from_store (st_UpsertSubscription (p_ops p)
                 (mirror\<lparr>sub_Status := SubPastDue,
                    sub_GraceUntil := (if IsZero (sub_GraceUntil mirror) then r_now rd 1 + p_grace p else sub_GraceUntil mirror),
                    sub_UpdatedAt := r_now rd 2\<rparr>) s))))"

definition handleInvoicePaid ::
  "('s, 'b) processor \<Rightarrow> readings \<Rightarrow> stripe_event \<Rightarrow> 's \<Rightarrow> outcome \<times> 's" where
  "handleInvoicePaid p rd ev s =
     (case invoiceSubscriptionID p ev of
        None \<Rightarrow> (Panics, s)
      | Some (Inl e) \<Rightarrow> (Failed e, s)
      | Some (Inr subID) \<Rightarrow>
          (case st_GetSubscription (p_ops p) s subID of
             Inl e \<Rightarrow> (Fine, s)
           | Inr mirror \<Rightarrow>
               (case st_UpsertSubscription (p_ops p)
                   (mirror\<lparr>sub_GraceUntil := 0,
                      sub_Status := (if sub_Status mirror = SubPastDue then SubActive else sub_Status mirror),
                      sub_UpdatedAt := r_now rd 1\<rparr>) s of
                  (Some e, s) \<Rightarrow> (Failed (ErrFrom e), s)
                | (None, s) \<Rightarrow> ended (reactivate p subID s))))"

definition dispatch ::
  "('s, 'b) processor \<Rightarrow> readings \<Rightarrow> stripe_event \<Rightarrow> ('s, 'b) auth_state \<Rightarrow> outcome \<times> ('s, 'b) auth_state" where
  "dispatch p rd ev st =
     (let on_store = (\<lambda>h. case h p rd ev (au_store st) of (r, s) \<Rightarrow> (r, st\<lparr>au_store := s\<rparr>));
          t = ev_Type ev
      in if t = ''checkout.session.completed'' then handleCheckoutCompleted p rd ev st
         else if t = ''customer.subscription.created'' \<or> t = ''customer.subscription.updated''
           then handleSubscriptionUpsert p rd ev st
         else if t = ''customer.subscription.deleted'' then handleSubscriptionDeleted p rd ev st
         else if t = ''invoice.payment_failed'' then on_store handleInvoicePaymentFailed
         else if t = ''invoice.paid'' then on_store handleInvoicePaid
         else (Fine, st))"

subsection \<open>Recording, processing and retrying\<close>

definition maxAttempts :: int where "maxAttempts = 5"

definition Verify_webhook :: "('s, 'b) processor \<Rightarrow> bytes \<Rightarrow> string \<Rightarrow> stripe_event option" where
  "Verify_webhook p payload sigHeader = p_construct p payload sigHeader (p_webhookSecret p)"

definition Record :: "('s, 'b) processor \<Rightarrow> time \<Rightarrow> stripe_event \<Rightarrow> bytes \<Rightarrow> 's \<Rightarrow> (store_error + bool) \<times> 's" where
  "Record p now ev payload s =
     st_InsertWebhookEventIfAbsent (p_ops p) \<lparr>we_ID = ev_ID ev, we_Type = ev_Type ev, we_Status = WebhookPending,
       we_Attempts = 0, we_Payload = payload, we_ReceivedAt = now, we_ProcessedAt = 0\<rparr> s"

text \<open>The error of the status update after a failure is ignored.\<close>

definition Process ::
  "('s, 'b) processor \<Rightarrow> readings \<Rightarrow> stripe_event \<Rightarrow> ('s, 'b) auth_state \<Rightarrow> outcome \<times> ('s, 'b) auth_state" where
  "Process p rd ev st =
     (case dispatch p rd ev st of
        (Panics, st) \<Rightarrow> (Panics, st)
      | (Failed e, st) \<Rightarrow>
          (Failed e, st\<lparr>au_store := snd (st_SetWebhookStatus (p_ops p) (ev_ID ev) WebhookFailed 1 0 (au_store st))\<rparr>)
      | (Fine, st) \<Rightarrow>
          (case st_SetWebhookStatus (p_ops p) (ev_ID ev) WebhookProcessed 0 (r_now rd 3) (au_store st) of
             (e, s) \<Rightarrow> ended (map_option ErrFrom e, st\<lparr>au_store := s\<rparr>)))"

text \<open>
  One failed event: what is added to the counts of processed and dead events, or nothing when the handler panics.
  The errors of the status updates are ignored.
\<close>

definition retry_one ::
  "('s, 'b) processor \<Rightarrow> readings \<Rightarrow> webhook_event \<Rightarrow> ('s, 'b) auth_state \<Rightarrow> (nat \<times> nat) option \<times> ('s, 'b) auth_state" where
  "retry_one p rd e st =
     (let mark = (\<lambda>v n t st. st\<lparr>au_store := snd (st_SetWebhookStatus (p_ops p) (we_ID e) v n t (au_store st))\<rparr>)
      in case p_event p (we_Payload e) of
           None \<Rightarrow> (Some (0, 1), mark WebhookDead (we_Attempts e) (r_now rd 3) st)
         | Some ev \<Rightarrow>
             (case dispatch p rd ev st of
                (Panics, st) \<Rightarrow> (None, st)
              | (Failed d, st) \<Rightarrow>
                  (let attempts = we_Attempts e + 1
                   in if attempts \<ge> maxAttempts then (Some (0, 1), mark WebhookDead attempts 0 st)
                      else (Some (0, 0), mark WebhookFailed attempts 0 st))
              | (Fine, st) \<Rightarrow> (Some (1, 0), mark WebhookProcessed 0 (r_now rd 3) st)))"

fun retry_all ::
  "('s, 'b) processor \<Rightarrow> (nat \<Rightarrow> readings) \<Rightarrow> nat \<Rightarrow> webhook_event list \<Rightarrow> nat \<times> nat \<Rightarrow> ('s, 'b) auth_state \<Rightarrow>
   (nat \<times> nat) option \<times> ('s, 'b) auth_state" where
  "retry_all p rds i [] c st = (Some c, st)"
| "retry_all p rds i (e # es) c st =
     (case retry_one p (rds i) e st of
        (None, st) \<Rightarrow> (None, st)
      | (Some (a, b), st) \<Rightarrow> retry_all p rds (Suc i) es (fst c + a, snd c + b) st)"

definition RetryFailed ::
  "('s, 'b) processor \<Rightarrow> (nat \<Rightarrow> readings) \<Rightarrow> int \<Rightarrow> ('s, 'b) auth_state \<Rightarrow>
   (store_error + (nat \<times> nat) option) \<times> ('s, 'b) auth_state" where
  "RetryFailed p rds limit st =
     (case st_ListWebhookEventsByStatus (p_ops p) (au_store st) WebhookFailed limit of
        Inl e \<Rightarrow> (Inl e, st)
      | Inr events \<Rightarrow> (case retry_all p rds 0 events (0, 0) st of (r, st) \<Rightarrow> (Inr r, st)))"

text \<open>Reconciliation goes on after an error and returns the first one.\<close>

fun reconcile_all ::
  "('s, 'b) processor \<Rightarrow> (nat \<Rightarrow> readings) \<Rightarrow> nat \<Rightarrow> stripe_sub list \<Rightarrow> billing_error option \<Rightarrow> ('s, 'b) auth_state \<Rightarrow>
   billing_error option \<times> ('s, 'b) auth_state" where
  "reconcile_all p rds i [] firstErr st = (firstErr, st)"
| "reconcile_all p rds i (sub # subs) firstErr st =
     (let first = (\<lambda>e. if firstErr = None then Some e else firstErr)
      in case resolveAccount p (r_now (rds i) 0) (r_rand (rds i) 0) (customerIDOf (ss_Customer sub)) (au_store st) of
           (Inl e, s) \<Rightarrow> reconcile_all p rds (Suc i) subs (first e) (st\<lparr>au_store := s\<rparr>)
         | (Inr accountID, s) \<Rightarrow>
             (case syncSubscription p (rds i) sub accountID (st\<lparr>au_store := s\<rparr>) of
                (Some e, st) \<Rightarrow> reconcile_all p rds (Suc i) subs (first e) st
              | (None, st) \<Rightarrow> reconcile_all p rds (Suc i) subs firstErr st))"

definition Reconcile ::
  "('s, 'b) processor \<Rightarrow> (nat \<Rightarrow> readings) \<Rightarrow> ('s, 'b) auth_state \<Rightarrow> outcome \<times> ('s, 'b) auth_state" where
  "Reconcile p rds st =
     (case p_api p of
        None \<Rightarrow> (Panics, st)
      | Some api \<Rightarrow>
          (case sa_ListSubscriptions api of
             None \<Rightarrow> (Failed ErrStripe, st)
           | Some subs \<Rightarrow> ended (reconcile_all p rds 0 subs None st)))"

text \<open>The outbound calls answer nothing when no API is configured, or a failed call.\<close>

datatype api_error = NotConfigured | CallFailed

definition CreateCheckoutSession :: "('s, 'b) processor \<Rightarrow> checkout_params \<Rightarrow> api_error + string \<times> string" where
  "CreateCheckoutSession p cp =
     (case p_api p of
        None \<Rightarrow> Inl NotConfigured
      | Some api \<Rightarrow> (case sa_CreateCheckoutSession api cp of None \<Rightarrow> Inl CallFailed | Some r \<Rightarrow> Inr r))"

definition CreateBillingPortalSession :: "('s, 'b) processor \<Rightarrow> string \<Rightarrow> string \<Rightarrow> api_error + string" where
  "CreateBillingPortalSession p customerID returnURL =
     (case p_api p of
        None \<Rightarrow> Inl NotConfigured
      | Some api \<Rightarrow> (case sa_CreateBillingPortalSession api customerID returnURL of None \<Rightarrow> Inl CallFailed | Some u \<Rightarrow> Inr u))"

subsection \<open>The webhook endpoint\<close>

text \<open>
  No response is the panic of a handler, which the HTTP server turns into a closed connection. The body is read
  up to the limit.
\<close>

definition rejectWebhook :: "nat \<Rightarrow> string \<Rightarrow> response" where "rejectWebhook status code = writeErr status code"

definition webhook_body :: "request \<Rightarrow> bytes" where "webhook_body r = take maxBodyBytes (rq_body r)"

lemma webhook_body_code [code]:
  "webhook_body r = (if int (length (rq_body r)) \<le> 1048576 then rq_body r else take maxBodyBytes (rq_body r))"
  by (simp add: webhook_body_def maxBodyBytes_def)

definition handleWebhook ::
  "('s, 'b) svc \<Rightarrow> ('s, 'b) processor \<Rightarrow> readings \<Rightarrow> request \<Rightarrow> ('s, 'b) auth_state \<Rightarrow> response option \<times> ('s, 'b) auth_state" where
  "handleWebhook v p rd r st =
     (if \<not> a_billingEnabled (v_cfg v) then (Some (rejectWebhook 503 ''billing_disabled''), st)
      else case Verify_webhook p (webhook_body r) (rq_stripeSignature r) of
        None \<Rightarrow> (Some (rejectWebhook 400 ''bad_signature''), st)
      | Some ev \<Rightarrow>
          (case Record p (r_now rd 4) ev (webhook_body r) (au_store st) of
             (Inl e, s) \<Rightarrow> (Some (rejectWebhook 500 ''record_error''), st\<lparr>au_store := s\<rparr>)
           | (Inr False, s) \<Rightarrow> (Some (200, FlagResp ''duplicate''), st\<lparr>au_store := s\<rparr>)
           | (Inr True, s) \<Rightarrow>
               (case Process p rd ev (st\<lparr>au_store := s\<rparr>) of
                  (Panics, st) \<Rightarrow> (None, st)
                | (Failed e, st) \<Rightarrow> (Some (200, FlagResp ''queued''), st)
                | (Fine, st) \<Rightarrow> (Some (200, FlagResp ''ok''), st))))"

subsection \<open>The operations that billing uses\<close>

fun billing_op :: "store_op \<Rightarrow> bool" where
  "billing_op (UpsertAccount a) = True"
| "billing_op (UpsertSubscription u) = True"
| "billing_op (CreateLicense l) = True"
| "billing_op (SetLicenseStatus k v) = True"
| "billing_op (SetPairingStatus k v) = (v = PairingRevoked)"
| "billing_op (MarkCheckoutClaimReady k a l u x) = True"
| "billing_op _ = False"

lemma billing_step:
  "st_UpsertAccount ops a s = (e, s') \<Longrightarrow> steps ops billing_op s s'"
  "st_UpsertSubscription ops u s = (e, s') \<Longrightarrow> steps ops billing_op s s'"
  "st_CreateLicense ops l s = (e, s') \<Longrightarrow> steps ops billing_op s s'"
  "st_SetLicenseStatus ops k v s = (e, s') \<Longrightarrow> steps ops billing_op s s'"
  "st_SetPairingStatus ops k PairingRevoked s = (e, s') \<Longrightarrow> steps ops billing_op s s'"
  "st_MarkCheckoutClaimReady ops k m q y z s = (e, s') \<Longrightarrow> steps ops billing_op s s'"
  by (rule step_eqs; simp)+

lemma each_steps:
  assumes "\<And>x st. steps ops P (g st) (g (snd (f x st)))"
  shows "steps ops P (g st) (g (snd (each f xs st)))"
proof (induction xs arbitrary: st)
  case (Cons x xs)
  obtain e st1 where f: "f x st = (e, st1)" by fastforce
  then have "steps ops P (g st) (g st1)" using assms [of st x] by simp
  then show ?case using Cons.IH [of st1] f by (cases e) (auto intro: steps_trans)
qed (simp add: steps_refl)

lemma resolveAccount_steps: "steps (p_ops p) billing_op s (snd (resolveAccount p now rnd c s))"
  by (auto simp: resolveAccount_def Let_def steps_refl split: sum.splits prod.splits option.splits dest: billing_step)

lemma provision_steps: "steps (p_ops p) billing_op s (snd (provision p rd mirror k i n s))"
proof (induction n arbitrary: i s)
  case (Suc n)
  then show ?case by (auto split: prod.splits option.splits dest!: billing_step intro: steps_trans)
qed (simp add: steps_refl)

lemma ensureLicenses_steps: "steps (p_ops p) billing_op s (snd (ensureLicenses p rd mirror sub s))"
  by (auto simp: ensureLicenses_def steps_refl provision_steps split: sum.splits)

lemma cut_pairing_steps: "steps (p_ops p) billing_op (au_store st) (au_store (snd (cut_pairing p b pr st)))"
  by (auto simp: cut_pairing_def Let_def steps_refl split: prod.splits sum.splits option.splits dest!: billing_step)

lemma cut_license_steps: "steps (p_ops p) billing_op (au_store st) (au_store (snd (cut_license p b l st)))"
proof -
  obtain e s where x: "(if b = Revoked then st_SetLicenseStatus (p_ops p) (lic_ID l) LicenseRevoked (au_store st) else (None, au_store st)) = (e, s)"
    by fastforce
  then have "steps (p_ops p) billing_op (au_store st) s" by (auto simp: steps_refl split: if_splits dest!: billing_step)
  moreover have "steps (p_ops p) billing_op s (au_store (snd (each (cut_pairing p b) ps (st\<lparr>au_store := s\<rparr>))))" for ps
    using each_steps [where g = au_store and st = "st\<lparr>au_store := s\<rparr>" and xs = ps, OF cut_pairing_steps [of p _ b]] by simp
  ultimately show ?thesis using x
    by (auto simp: cut_license_def split: option.splits sum.splits intro: steps_trans)
qed

lemma enforce_steps: "steps (p_ops p) billing_op (au_store st) (au_store (snd (enforce p k b st)))"
  using each_steps [where g = au_store and st = st, OF cut_license_steps [of p _ b]]
  by (auto simp: enforce_def steps_refl split: sum.splits)

lemma reactivate_steps: "steps (p_ops p) billing_op s (snd (reactivate p k s))"
proof -
  have "steps (p_ops p) billing_op s (snd (reactivate_one p l s))" for l s
    by (auto simp: reactivate_one_def from_store_def steps_refl split: prod.splits dest!: billing_step)
  then have "steps (p_ops p) billing_op s (snd (each (reactivate_one p) ls s))" for ls
    using each_steps [where g = id and f = "reactivate_one p" and P = billing_op and ops = "p_ops p"] by simp
  then show ?thesis by (auto simp: reactivate_def steps_refl split: sum.splits)
qed

lemma syncSubscription_steps: "steps (p_ops p) billing_op (au_store st) (au_store (snd (syncSubscription p rd sub a st)))"
proof -
  let ?m = "mirror_of p (r_now rd 2) sub a (au_store st)"
  obtain e1 s1 where 1: "st_UpsertSubscription (p_ops p) ?m (au_store st) = (e1, s1)" by fastforce
  obtain e2 s2 where 2: "ensureLicenses p rd ?m sub s1 = (e2, s2)" by fastforce
  have a: "steps (p_ops p) billing_op (au_store st) s1" using 1 by (rule billing_step)
  also have "steps (p_ops p) billing_op s1 s2" using ensureLicenses_steps [of p s1 rd ?m sub] 2 by simp
  finally have b: "steps (p_ops p) billing_op (au_store st) s2" .
  have "steps (p_ops p) billing_op s2 (au_store (snd (enforce p (ss_ID sub) x (st\<lparr>au_store := s2\<rparr>))))" for x
    using enforce_steps [of p "st\<lparr>au_store := s2\<rparr>"] by simp
  then show ?thesis using 1 2 a b reactivate_steps [of p s2 "ss_ID sub"]
    by (auto simp: syncSubscription_def Let_def split: option.splits prod.splits intro: steps_trans)
qed

lemma checkout_account_steps: "steps (p_ops p) billing_op s (snd (checkout_account p rd cs c s))"
  by (simp add: checkout_account_def resolveAccount_steps steps_refl)

lemma bind_claim_steps: "steps (p_ops p) billing_op s (snd (bind_claim p cs a k s))"
  by (auto simp: bind_claim_def from_store_def Let_def steps_refl split: prod.splits dest!: billing_step)

lemma ended_snd [simp]: "snd (ended r) = snd r"
  by (simp add: ended_def split: prod.splits option.splits)

lemma handleCheckoutCompleted_steps:
  "steps (p_ops p) billing_op (au_store st) (au_store (snd (handleCheckoutCompleted p rd ev st)))"
proof (cases "Option.bind (ev_Raw ev) (p_session p)")
  case (Some cs)
  then obtain raw where raw: "ev_Raw ev = Some raw" "p_session p raw = Some cs" by (auto simp: bind_eq_Some_conv)
  let ?c = "customerIDOf (cs_Customer cs)" and ?k = "subscriptionIDOf (cs_Subscription cs)"
  obtain a s1 where 1: "checkout_account p rd cs ?c (au_store st) = (a, s1)" by fastforce
  have s1: "steps (p_ops p) billing_op (au_store st) s1" using checkout_account_steps [of p "au_store st"] 1 by (metis snd_conv)
  show ?thesis
  proof (cases "?c = '''' \<or> (\<exists>e. a = Inl e)")
    case True
    then show ?thesis using raw 1 s1 by (auto simp: handleCheckoutCompleted_def Let_def steps_refl)
  next
    case False
    then obtain acct where a: "a = Inr acct" by (cases a) auto
    obtain e s2 where 2: "st_UpsertAccount (p_ops p) \<lparr>acc_ID = acct, acc_StripeCustomerID = ?c, acc_SecretHash = '''',
        acc_CreatedAt = r_now rd 1\<rparr> s1 = (e, s2)" by fastforce
    have s2: "steps (p_ops p) billing_op (au_store st) s2" using s1 billing_step(1) [OF 2] by (rule steps_trans)
    have "steps (p_ops p) billing_op (au_store st) (au_store (snd (syncSubscription p rd sub acct (st\<lparr>au_store := s2\<rparr>))))" for sub
      using steps_trans [OF s2, of "au_store (snd (syncSubscription p rd sub acct (st\<lparr>au_store := s2\<rparr>)))"]
        syncSubscription_steps [of p "st\<lparr>au_store := s2\<rparr>"] by simp
    then have s3: "steps (p_ops p) billing_op (au_store st) (au_store st3)"
      if "syncSubscription p rd sub acct (st\<lparr>au_store := s2\<rparr>) = (x, st3)" for sub x st3 using that by (metis snd_conv)
    have s4: "steps (p_ops p) billing_op (au_store st) s4"
      if "syncSubscription p rd sub acct (st\<lparr>au_store := s2\<rparr>) = (x, st3)" "bind_claim p cs acct ?k (au_store st3) = (y, s4)" for sub x st3 y s4
      using steps_trans [OF s3 [OF that(1)]] bind_claim_steps [of p "au_store st3" cs acct ?k] that(2) by simp
    show ?thesis using False raw 1 2 a s2 s3 s4
      by (auto simp: handleCheckoutCompleted_def Let_def split: option.splits prod.splits)
  qed
qed (auto simp: handleCheckoutCompleted_def steps_refl split: option.splits)

lemma resolved_steps:
  "resolveAccount p now rnd c s = (r, s') \<Longrightarrow> steps (p_ops p) billing_op s s'"
  using resolveAccount_steps [of p s now rnd c] by simp

lemma handleSubscriptionUpsert_steps:
  "steps (p_ops p) billing_op (au_store st) (au_store (snd (handleSubscriptionUpsert p rd ev st)))"
proof (cases "Option.bind (ev_Raw ev) (p_subscription p)")
  case (Some sub)
  then obtain raw where raw: "ev_Raw ev = Some raw" "p_subscription p raw = Some sub" by (auto simp: bind_eq_Some_conv)
  obtain r s where r: "resolveAccount p (r_now rd 0) (r_rand rd 0) (customerIDOf (ss_Customer sub)) (au_store st) = (r, s)" by fastforce
  then have "steps (p_ops p) billing_op (au_store st) s" by (rule resolved_steps)
  moreover have "steps (p_ops p) billing_op s (au_store (snd (syncSubscription p rd sub a (st\<lparr>au_store := s\<rparr>))))" for a
    using syncSubscription_steps [of p "st\<lparr>au_store := s\<rparr>"] by simp
  ultimately show ?thesis using raw r
    by (auto simp: handleSubscriptionUpsert_def split: sum.splits intro: steps_trans)
qed (auto simp: handleSubscriptionUpsert_def steps_refl split: option.splits)

lemma handleSubscriptionDeleted_steps:
  "steps (p_ops p) billing_op (au_store st) (au_store (snd (handleSubscriptionDeleted p rd ev st)))"
proof (cases "Option.bind (ev_Raw ev) (p_subscription p)")
  case (Some sub)
  then obtain raw where raw: "ev_Raw ev = Some raw" "p_subscription p raw = Some sub" by (auto simp: bind_eq_Some_conv)
  obtain r s where r: "resolveAccount p (r_now rd 0) (r_rand rd 0) (customerIDOf (ss_Customer sub)) (au_store st) = (r, s)" by fastforce
  then have "steps (p_ops p) billing_op (au_store st) s" by (rule resolved_steps)
  moreover have "steps (p_ops p) billing_op s2 (au_store (snd (enforce p k b (st\<lparr>au_store := s2\<rparr>))))" for s2 k b
    using enforce_steps [of p "st\<lparr>au_store := s2\<rparr>"] by simp
  ultimately show ?thesis using raw r
    by (auto simp: handleSubscriptionDeleted_def split: sum.splits option.splits prod.splits dest!: billing_step intro: steps_trans)
qed (auto simp: handleSubscriptionDeleted_def steps_refl split: option.splits)

lemma invoice_steps:
  "steps (p_ops p) billing_op s (snd (handleInvoicePaymentFailed p rd ev s))"
  "steps (p_ops p) billing_op s (snd (handleInvoicePaid p rd ev s))"
proof -
  show "steps (p_ops p) billing_op s (snd (handleInvoicePaymentFailed p rd ev s))"
    by (auto simp: handleInvoicePaymentFailed_def from_store_def steps_refl split: option.splits sum.splits prod.splits dest!: billing_step)
  show "steps (p_ops p) billing_op s (snd (handleInvoicePaid p rd ev s))"
    by (auto simp: handleInvoicePaid_def steps_refl reactivate_steps split: sum.splits prod.splits option.splits
        dest!: billing_step intro: steps_trans)
qed

lemma dispatch_steps: "steps (p_ops p) billing_op (au_store st) (au_store (snd (dispatch p rd ev st)))"
  using handleCheckoutCompleted_steps [of p st rd ev] handleSubscriptionUpsert_steps [of p st rd ev]
    handleSubscriptionDeleted_steps [of p st rd ev] invoice_steps [of p "au_store st" rd ev]
  by (auto simp: dispatch_def Let_def steps_refl split: prod.splits)

fun hook_op :: "store_op \<Rightarrow> bool" where
  "hook_op (InsertWebhookEventIfAbsent e) = True"
| "hook_op (SetWebhookStatus k v n t) = True"
| "hook_op x = billing_op x"

lemma hook_op_billing: "billing_op x \<Longrightarrow> hook_op x"
  by (cases x) simp_all

lemma Process_steps: "steps (p_ops p) hook_op (au_store st) (au_store (snd (Process p rd ev st)))"
proof -
  obtain o1 st1 where d: "dispatch p rd ev st = (o1, st1)" by fastforce
  then have "steps (p_ops p) billing_op (au_store st) (au_store st1)" using dispatch_steps [of p st rd ev] by simp
  then have "steps (p_ops p) hook_op (au_store st) (au_store st1)" by (rule steps_mono) (rule hook_op_billing)
  moreover have "steps (p_ops p) hook_op (au_store st1) (snd (st_SetWebhookStatus (p_ops p) k v n t (au_store st1)))" for k v n t
    by (rule step_rules) simp
  ultimately have "steps (p_ops p) hook_op (au_store st) (snd (st_SetWebhookStatus (p_ops p) k v n t (au_store st1)))"
    and "steps (p_ops p) hook_op (au_store st) (au_store st1)" for k v n t
    by (auto intro: steps_trans)
  then show ?thesis using d
    by (cases o1) (simp_all add: Process_def case_prod_beta ended_snd)
qed

subsection \<open>Recording\<close>

lemma from_store_None: "from_store r = (None, s') \<longleftrightarrow> r = (None, s')"
  by (cases r) (auto simp: from_store_def)

lemma ended_Fine: "ended r = (Fine, st) \<longleftrightarrow> r = (None, st)"
  by (auto simp: ended_def split: prod.splits option.splits)

context auth_store
begin

lemma record_effect:
  assumes "p_ops p = ops" and "inv s" and "Record p now ev payload s = (Inr b, s')"
  shows "inv s' \<and> recorded_event (ev_ID ev) (view s') \<and> (\<not> b \<longrightarrow> view s' = view s)"
proof -
  let ?e = "\<lparr>we_ID = ev_ID ev, we_Type = ev_Type ev, we_Status = WebhookPending,
       we_Attempts = 0, we_Payload = payload, we_ReceivedAt = now, we_ProcessedAt = 0\<rparr>"
  have "exec ops (InsertWebhookEventIfAbsent ?e) s = (if b then Done else Skipped, s')"
    using assms(1,3) by (auto simp: Record_def)
  from exec_spec [OF assms(2) this] show ?thesis
    by (auto simp: recorded_event_def split: if_splits option.splits)
qed

lemma recorded_steps:
  assumes "inv s" and "recorded_event k (view s)" and "steps ops P s t"
  shows "inv t \<and> recorded_event k (view t)"
  using steps_keep [OF assms(3,1), of "recorded_event k"] assms(2) recorded_event_stays by blast

lemma webhook_records:
  assumes "v_ops v = ops" and "p_ops p = ops" and "inv (au_store st)" and "a_billingEnabled (v_cfg v)"
    and "Verify_webhook p (webhook_body r) (rq_stripeSignature r) = Some ev"
    and "handleWebhook v p rd r st = (resp, st')" and "resp \<noteq> Some (rejectWebhook 500 ''record_error'')"
  shows "inv (au_store st') \<and> recorded_event (ev_ID ev) (view (au_store st'))"
proof -
  obtain x s where x: "Record p (r_now rd 4) ev (webhook_body r) (au_store st) = (x, s)" by fastforce
  have h: "handleWebhook v p rd r st =
    (case x of Inl e \<Rightarrow> (Some (rejectWebhook 500 ''record_error''), st\<lparr>au_store := s\<rparr>)
     | Inr b \<Rightarrow> if b then
         (case Process p rd ev (st\<lparr>au_store := s\<rparr>) of
            (Panics, st) \<Rightarrow> (None, st)
          | (Failed e, st) \<Rightarrow> (Some (200, FlagResp ''queued''), st)
          | (Fine, st) \<Rightarrow> (Some (200, FlagResp ''ok''), st))
       else (Some (200, FlagResp ''duplicate''), st\<lparr>au_store := s\<rparr>))"
    using assms(4,5) x by (simp add: handleWebhook_def split: sum.splits bool.splits)
  with assms(6,7) obtain b where b: "x = Inr b" by (cases x) auto
  note rec = record_effect [OF assms(2,3) x [unfolded b]]
  show ?thesis
  proof (cases b)
    case True
    then have "st' = snd (Process p rd ev (st\<lparr>au_store := s\<rparr>))"
      using h b assms(6) by (auto split: prod.splits outcome.splits)
    then have "steps ops hook_op s (au_store st')" using Process_steps [of p "st\<lparr>au_store := s\<rparr>" rd ev] assms(2) by simp
    then show ?thesis using recorded_steps rec by blast
  next
    case False
    then show ?thesis using h b assms(6) rec by auto
  qed
qed

end


end
