(* ===== verification/Url.thy ===== *)
theory Url
  imports Json Httpsec Encoding
begin

section \<open>URLs and IP addresses of the standard library\<close>

text \<open>
  What the services use of \<^verbatim>\<open>net/url\<close> and \<^verbatim>\<open>net\<close> (Go 1.26, the version of \<^verbatim>\<open>go.mod\<close>): parsing and printing of
  URLs, query strings, and the textual form of IP addresses. Errors are \<open>None\<close>; their messages are not
  modelled. The limit that recent releases put on the number of query parameters is left out.
\<close>

subsection \<open>Percent encoding\<close>

datatype encoding = encodePath | encodeHost | encodeZone | encodeUserPassword | encodeQueryComponent | encodeFragment

definition alnum :: "char \<Rightarrow> bool" where
  "alnum c \<longleftrightarrow> byte_in 48 57 c \<or> byte_in 65 90 c \<or> byte_in 97 122 c"

definition shouldEscape :: "encoding \<Rightarrow> char \<Rightarrow> bool" where
  "shouldEscape mode c =
     (if alnum c then False
      else if mode \<in> {encodeHost, encodeZone} \<and> c \<in> set ''!$&()*+,;=:[]<>'' \<union> {CHR 0x27, CHR 0x22} then False
      else if c \<in> set ''-_.~'' then False
      else if c \<in> set ''$&+,/:;=?@'' \<and> mode \<noteq> encodeHost \<and> mode \<noteq> encodeZone then
        (case mode of
           encodePath \<Rightarrow> c = CHR ''?''
         | encodeUserPassword \<Rightarrow> c \<in> set ''@/?:''
         | encodeQueryComponent \<Rightarrow> True
         | _ \<Rightarrow> False)
      else \<not> (mode = encodeFragment \<and> c \<in> set ''!()*''))"

definition upper_hex :: string where "upper_hex = ''0123456789ABCDEF''"

definition percent :: "char \<Rightarrow> string" where
  "percent c = [CHR ''%'', upper_hex ! (of_char c div 16), upper_hex ! (of_char c mod 16)]"

definition escape :: "encoding \<Rightarrow> string \<Rightarrow> string" where
  "escape mode s =
     concat (map (\<lambda>c. if c = CHR '' '' \<and> mode = encodeQueryComponent then ''+''
       else if shouldEscape mode c then percent c else [c]) s)"

text \<open>A percent sign must be followed by two hexadecimal digits; in a host only some of them are allowed.\<close>

fun unescape :: "encoding \<Rightarrow> string \<Rightarrow> string option" where
  "unescape mode [] = Some []"
| "unescape mode (c # s) =
     (if c = CHR ''%'' then
        (case s of
           a # b # r \<Rightarrow>
             (case (hex_digit a, hex_digit b) of
                (Some x, Some y) \<Rightarrow>
                  (let d = char_of (16 * x + y); pct25 = (a = CHR ''2'' \<and> b = CHR ''5'')
                   in if mode = encodeHost \<and> x < 8 \<and> \<not> pct25 then None
                      else if mode = encodeZone \<and> \<not> pct25 \<and> d \<noteq> CHR '' '' \<and> shouldEscape encodeHost d then None
                      else map_option (Cons d) (unescape mode r))
              | _ \<Rightarrow> None)
         | _ \<Rightarrow> None)
      else if mode \<in> {encodeHost, encodeZone} \<and> (of_char c :: nat) < 0x80 \<and> shouldEscape mode c then None
      else map_option (Cons (if c = CHR ''+'' \<and> mode = encodeQueryComponent then CHR '' '' else c)) (unescape mode s))"

definition validEncoded :: "encoding \<Rightarrow> string \<Rightarrow> bool" where
  "validEncoded mode s \<longleftrightarrow>
     (\<forall>c \<in> set s. c \<in> set ''!$&()*+,;=:@[]%'' \<union> {CHR 0x27} \<or> \<not> shouldEscape mode c)"

subsection \<open>IP addresses\<close>

fun split_on :: "char \<Rightarrow> string \<Rightarrow> string list" where
  "split_on d [] = [[]]"
| "split_on d (c # s) =
     (if c = d then [] # split_on d s
      else case split_on d s of [] \<Rightarrow> [[c]] | w # ws \<Rightarrow> (c # w) # ws)"

definition is_digit :: "char \<Rightarrow> bool" where "is_digit c \<longleftrightarrow> byte_in 48 57 c"

definition decimal :: "string \<Rightarrow> nat" where
  "decimal s = foldl (\<lambda>n c. 10 * n + (of_char c - 48)) 0 s"

text \<open>A field of a dotted address: decimal digits without a leading zero, at most 255.\<close>

definition ipv4_field :: "string \<Rightarrow> nat option" where
  "ipv4_field s =
     (if s \<noteq> [] \<and> list_all is_digit s \<and> (hd s = CHR ''0'' \<longrightarrow> length s = 1) \<and> decimal s \<le> 255 then Some (decimal s) else None)"

definition parseIPv4 :: "string \<Rightarrow> nat list option" where
  "parseIPv4 s =
     (let fs = map ipv4_field (split_on CHR ''.'' s)
      in if length fs = 4 \<and> None \<notin> set fs then Some (map the fs) else None)"

definition hex_group :: "string \<Rightarrow> string" where
  "hex_group s = takeWhile (\<lambda>c. hex_digit c \<noteq> None) s"

definition group_value :: "string \<Rightarrow> nat" where
  "group_value g = foldl (\<lambda>n c. 16 * n + the (hex_digit c)) 0 g"

text \<open>
  The loop of \<^verbatim>\<open>parseIPv6\<close>: the bytes read so far, the position of the ellipsis, and what is left of the text. A
  turn reads one group, or an IPv4 address at the end; the loop is over when the text is, and reads at most
  sixteen bytes.
\<close>

definition ipv6_turn :: "nat list \<Rightarrow> nat option \<Rightarrow> string \<Rightarrow> (nat list \<times> nat option \<times> string) option" where
  "ipv6_turn ip ell s =
     (let g = hex_group s; r = drop (length g) s; ip' = ip @ [group_value g div 256, group_value g mod 256]
      in if g = [] \<or> length g > 4 then None
         else if take 1 r = ''.'' then
           (if ell = None \<and> length ip \<noteq> 12 \<or> length ip + 4 > 16 then None
            else map_option (\<lambda>q. (ip @ q, ell, '''')) (parseIPv4 s))
         else if r = [] then Some (ip', ell, '''')
         else if hd r \<noteq> CHR '':'' \<or> length r = 1 then None
         else if take 2 r = ''::'' then (if ell \<noteq> None then None else Some (ip', Some (length ip'), drop 2 r))
         else Some (ip', ell, drop 1 r))"

lemma parseIPv4_length: "parseIPv4 s = Some q \<Longrightarrow> length q = 4"
  by (auto simp: parseIPv4_def Let_def split: if_splits)

lemma ipv6_turn_longer: "ipv6_turn ip ell s = Some (ip', ell', s') \<Longrightarrow> length ip < length ip'"
  by (auto simp: ipv6_turn_def Let_def dest!: parseIPv4_length split: if_splits)

function ipv6_loop :: "nat list \<Rightarrow> nat option \<Rightarrow> string \<Rightarrow> (nat list \<times> nat option) option" where
  "ipv6_loop ip ell s =
     (case ipv6_turn ip ell s of
        None \<Rightarrow> None
      | Some (ip', ell', s') \<Rightarrow>
          (if s' = [] then Some (ip', ell') else if length ip' \<ge> 16 then None else ipv6_loop ip' ell' s'))"
  by pat_completeness auto
termination
  by (relation "measure (\<lambda>(ip, _, _). 16 - length ip)") (auto dest: ipv6_turn_longer)

declare ipv6_loop.simps [simp del]

definition expand_ellipsis :: "nat list \<times> nat option \<Rightarrow> nat list option" where
  "expand_ellipsis x =
     (case x of
        (ip, None) \<Rightarrow> (if length ip = 16 then Some ip else None)
      | (ip, Some e) \<Rightarrow>
          (if length ip \<ge> 16 then None else Some (take e ip @ replicate (16 - length ip) 0 @ drop e ip)))"

definition parseIPv6 :: "string \<Rightarrow> nat list option" where
  "parseIPv6 s =
     (if s = ''::'' then Some (replicate 16 0)
      else Option.bind (if take 2 s = ''::'' then ipv6_loop [] (Some 0) (drop 2 s) else ipv6_loop [] None s) expand_ellipsis)"

text \<open>
  \<^verbatim>\<open>netip.ParseAddr\<close>: the first of the three characters decides. The result is the sixteen bytes of the address,
  whether it is an IPv4 address, and the zone; an IPv4 address is mapped as \<^verbatim>\<open>As16\<close> does.
\<close>

definition mapped :: "nat list \<Rightarrow> nat list" where "mapped q = replicate 10 0 @ [255, 255] @ q"

definition ParseAddr :: "string \<Rightarrow> (nat list \<times> bool \<times> string) option" where
  "ParseAddr s =
     (case find (\<lambda>c. c \<in> set ''.:%'') s of
        Some c \<Rightarrow>
          (if c = CHR ''.'' then map_option (\<lambda>q. (mapped q, True, '''')) (parseIPv4 s)
           else if c = CHR '':'' then
             (case Cut CHR ''%'' s of (addr, zone, found) \<Rightarrow>
                if found \<and> zone = '''' then None else map_option (\<lambda>q. (q, False, zone)) (parseIPv6 addr))
           else None)
      | None \<Rightarrow> None)"

definition ParseIP :: "string \<Rightarrow> nat list option" where
  "ParseIP s = (case ParseAddr s of Some (ip, _, zone) \<Rightarrow> (if zone = '''' then Some ip else None) | None \<Rightarrow> None)"

definition IsLoopback :: "nat list \<Rightarrow> bool" where
  "IsLoopback ip =
     (if take 12 ip = mapped [] then ip ! 12 = 127 else ip = replicate 15 0 @ [1])"

subsection \<open>Parsing\<close>

record url =
  u_Scheme :: string
  u_Opaque :: string
  u_User :: "(string \<times> string option) option"
  u_Host :: string
  u_Path :: string
  u_RawPath :: string
  u_OmitHost :: bool
  u_ForceQuery :: bool
  u_RawQuery :: string
  u_Fragment :: string
  u_RawFragment :: string

definition no_url :: url where
  "no_url = \<lparr>u_Scheme = '''', u_Opaque = '''', u_User = None, u_Host = '''', u_Path = '''', u_RawPath = '''',
     u_OmitHost = False, u_ForceQuery = False, u_RawQuery = '''', u_Fragment = '''', u_RawFragment = ''''\<rparr>"

text \<open>The scheme and what follows it: no scheme at all is the empty one, a missing scheme an error.\<close>

definition letter :: "char \<Rightarrow> bool" where "letter c \<longleftrightarrow> byte_in 65 90 c \<or> byte_in 97 122 c"

definition getScheme :: "string \<Rightarrow> (string \<times> string) option" where
  "getScheme s =
     (let w = takeWhile (\<lambda>c. alnum c \<or> c \<in> set ''+-.'') s; r = drop (length w) s
      in if r \<noteq> [] \<and> hd r = CHR '':'' then
           (if w = [] then None else if \<not> letter (hd w) then Some ('''', s) else Some (w, tl r))
         else Some ('''', s))"

definition validOptionalPort :: "string \<Rightarrow> bool" where
  "validOptionalPort s \<longleftrightarrow> s = [] \<or> hd s = CHR '':'' \<and> list_all is_digit (tl s)"

definition infix_index :: "string \<Rightarrow> string \<Rightarrow> nat option" where
  "infix_index p s = find (\<lambda>i. prefix p (drop i s)) [0..<length s + 1]"

text \<open>A host in brackets is an IPv6 address with an optional zone; any other host has at most one colon.\<close>

definition parseHost :: "string \<Rightarrow> string option" where
  "parseHost host =
     (case last_index CHR ''['' host of
        Some (Suc n) \<Rightarrow> None
      | Some 0 \<Rightarrow>
          (case last_index CHR '']'' host of
             None \<Rightarrow> None
           | Some e \<Rightarrow>
               (let colonPort = drop (e + 1) host; name = take (e - 1) (drop 1 host)
                in if \<not> validOptionalPort colonPort then None
                   else Option.bind (unescape encodeHost colonPort) (\<lambda>port.
                     Option.bind (case infix_index ''%25'' name of
                         Some i \<Rightarrow> Option.bind (unescape encodeHost (take i name)) (\<lambda>a.
                           map_option (append a) (unescape encodeZone (drop i name)))
                       | None \<Rightarrow> unescape encodeHost name) (\<lambda>addr.
                     case ParseAddr addr of
                       Some (_, False, _) \<Rightarrow> Some (''['' @ addr @ '']'' @ port)
                     | _ \<Rightarrow> None))))
      | None \<Rightarrow>
          (case index CHR '':'' host of
             Some i \<Rightarrow> (if last_index CHR '':'' host \<noteq> Some i \<or> \<not> validOptionalPort (drop i host) then None
                         else unescape encodeHost host)
           | None \<Rightarrow> unescape encodeHost host))"

definition validUserinfo :: "string \<Rightarrow> bool" where
  "validUserinfo s \<longleftrightarrow> (\<forall>c \<in> set s. alnum c \<or> c \<in> set ''-._:~!$&()*+,;=%@'' \<or> c = CHR 0x27)"

definition parseAuthority :: "string \<Rightarrow> ((string \<times> string option) option \<times> string) option" where
  "parseAuthority authority =
     (case last_index CHR ''@'' authority of
        None \<Rightarrow> map_option (Pair None) (parseHost authority)
      | Some i \<Rightarrow>
          Option.bind (parseHost (drop (i + 1) authority)) (\<lambda>host.
            let info = take i authority
            in if \<not> validUserinfo info then None
               else case Cut CHR '':'' info of
                 (name, password, True) \<Rightarrow>
                   Option.bind (unescape encodeUserPassword name) (\<lambda>name.
                     map_option (\<lambda>password. (Some (name, Some password), host)) (unescape encodeUserPassword password))
               | (name, _, False) \<Rightarrow> map_option (\<lambda>name. (Some (name, None), host)) (unescape encodeUserPassword name)))"

definition setPath :: "string \<Rightarrow> url \<Rightarrow> url option" where
  "setPath p u =
     map_option (\<lambda>path. u\<lparr>u_Path := path, u_RawPath := (if p = escape encodePath path then '''' else p)\<rparr>) (unescape encodePath p)"

definition setFragment :: "string \<Rightarrow> url \<Rightarrow> url option" where
  "setFragment f u =
     map_option (\<lambda>frag. u\<lparr>u_Fragment := frag, u_RawFragment := (if f = escape encodeFragment frag then '''' else f)\<rparr>)
       (unescape encodeFragment f)"

definition ctl_byte :: "char \<Rightarrow> bool" where "ctl_byte c \<longleftrightarrow> (of_char c :: nat) < 0x20 \<or> c = CHR 0x7F"

text \<open>The query: a question mark at the end that is the only one is remembered, not cut.\<close>

definition cut_query :: "string \<Rightarrow> string \<times> string \<times> bool" where
  "cut_query s =
     (if s \<noteq> [] \<and> last s = CHR ''?'' \<and> CHR ''?'' \<notin> set (butlast s) then (butlast s, '''', True)
      else case Cut CHR ''?'' s of (rest, query, _) \<Rightarrow> (rest, query, False))"

definition parse_rest :: "url \<Rightarrow> string \<Rightarrow> url option" where
  "parse_rest u rest =
     (if take 1 rest \<noteq> ''/'' \<and> u_Scheme u \<noteq> '''' then Some (u\<lparr>u_Opaque := rest\<rparr>)
      else if take 1 rest \<noteq> ''/'' \<and> CHR '':'' \<in> set (fst (Cut CHR ''/'' rest)) then None
      else if (u_Scheme u \<noteq> '''' \<or> take 3 rest \<noteq> ''///'') \<and> take 2 rest = ''//'' then
        (let authority = takeWhile (\<lambda>c. c \<noteq> CHR ''/'') (drop 2 rest); path = dropWhile (\<lambda>c. c \<noteq> CHR ''/'') (drop 2 rest)
         in Option.bind (parseAuthority authority) (\<lambda>(user, host). setPath path (u\<lparr>u_User := user, u_Host := host\<rparr>)))
      else setPath rest (if u_Scheme u \<noteq> '''' \<and> take 1 rest = ''/'' then u\<lparr>u_OmitHost := True\<rparr> else u))"

definition parse_url :: "string \<Rightarrow> url option" where
  "parse_url s =
     (if list_ex ctl_byte s then None
      else if s = ''*'' then Some (no_url\<lparr>u_Path := ''*''\<rparr>)
      else Option.bind (getScheme s) (\<lambda>(scheme, rest).
        case cut_query rest of (rest, query, force) \<Rightarrow>
          parse_rest (no_url\<lparr>u_Scheme := map ascii_lower scheme, u_RawQuery := query, u_ForceQuery := force\<rparr>) rest))"

definition url_Parse :: "string \<Rightarrow> url option" where
  "url_Parse s =
     (case Cut CHR ''#'' s of (u, frag, _) \<Rightarrow>
        Option.bind (parse_url u) (\<lambda>u. if frag = '''' then Some u else setFragment frag u))"

definition Hostname :: "url \<Rightarrow> string" where
  "Hostname u =
     (let h = u_Host u;
          h = (case last_index CHR '':'' h of Some i \<Rightarrow> (if validOptionalPort (drop i h) then take i h else h) | None \<Rightarrow> h)
      in if h \<noteq> [] \<and> hd h = CHR ''['' \<and> last h = CHR '']'' then take (length h - 2) (drop 1 h) else h)"

subsection \<open>Queries and printing\<close>

text \<open>A pair with a semicolon or a bad escape is skipped. The parameters are kept in their order.\<close>

definition query_pair :: "string \<Rightarrow> (string \<times> string) option" where
  "query_pair p =
     (if p = '''' \<or> CHR '';'' \<in> set p then None
      else case Cut CHR ''='' p of (k, v, _) \<Rightarrow>
        Option.bind (unescape encodeQueryComponent k) (\<lambda>k.
          map_option (Pair k) (unescape encodeQueryComponent v)))"

definition ParseQuery :: "string \<Rightarrow> (string \<times> string) list" where
  "ParseQuery q = List.map_filter query_pair (split_on CHR ''&'' q)"

definition values_Set :: "string \<Rightarrow> string \<Rightarrow> (string \<times> string) list \<Rightarrow> (string \<times> string) list" where
  "values_Set k v vs = filter (\<lambda>(k', _). k' \<noteq> k) vs @ [(k, v)]"

text \<open>Encoding groups the values by key, in the order of the keys; the sort is stable.\<close>

fun join_amp :: "string list \<Rightarrow> string" where
  "join_amp [] = ''''"
| "join_amp [x] = x"
| "join_amp (x # xs) = x @ ''&'' @ join_amp xs"

definition values_Encode :: "(string \<times> string) list \<Rightarrow> string" where
  "values_Encode vs =
     join_amp (map (\<lambda>(k, v). escape encodeQueryComponent k @ ''='' @ escape encodeQueryComponent v) (sort_key fst vs))"

definition EscapedPath :: "url \<Rightarrow> string" where
  "EscapedPath u =
     (if u_RawPath u \<noteq> '''' \<and> validEncoded encodePath (u_RawPath u) \<and> unescape encodePath (u_RawPath u) = Some (u_Path u)
      then u_RawPath u
      else if u_Path u = ''*'' then ''*'' else escape encodePath (u_Path u))"

definition EscapedFragment :: "url \<Rightarrow> string" where
  "EscapedFragment u =
     (if u_RawFragment u \<noteq> '''' \<and> validEncoded encodeFragment (u_RawFragment u) \<and>
         unescape encodeFragment (u_RawFragment u) = Some (u_Fragment u)
      then u_RawFragment u else escape encodeFragment (u_Fragment u))"

definition userinfo_String :: "string \<times> string option \<Rightarrow> string" where
  "userinfo_String x =
     (case x of (name, password) \<Rightarrow>
        escape encodeUserPassword name @ (case password of None \<Rightarrow> '''' | Some p \<Rightarrow> '':'' @ escape encodeUserPassword p))"

definition url_String :: "url \<Rightarrow> string" where
  "url_String u =
     (let scheme = (if u_Scheme u = '''' then '''' else u_Scheme u @ '':'');
          authority =
            (if u_Scheme u \<noteq> '''' \<or> u_Host u \<noteq> '''' \<or> u_User u \<noteq> None then
               (if u_OmitHost u \<and> u_Host u = '''' \<and> u_User u = None then ''''
                else (if u_Host u \<noteq> '''' \<or> u_Path u \<noteq> '''' \<or> u_User u \<noteq> None then ''//'' else '''') @
                  (case u_User u of None \<Rightarrow> '''' | Some x \<Rightarrow> userinfo_String x @ ''@'') @
                  escape encodeHost (u_Host u))
             else '''');
          path = EscapedPath u;
          slash = (if path \<noteq> '''' \<and> hd path \<noteq> CHR ''/'' \<and> u_Host u \<noteq> '''' then ''/'' else '''');
          dot = (if scheme @ authority @ slash = '''' \<and> CHR '':'' \<in> set (fst (Cut CHR ''/'' path)) then ''./'' else '''')
      in scheme @ (if u_Opaque u \<noteq> '''' then u_Opaque u else authority @ slash @ dot @ path) @
         (if u_ForceQuery u \<or> u_RawQuery u \<noteq> '''' then ''?'' @ u_RawQuery u else '''') @
         (if u_Fragment u \<noteq> '''' then ''#'' @ EscapedFragment u else ''''))"

text \<open>What \<^verbatim>\<open>http.Redirect\<close> puts into the header for a URL with a scheme.\<close>

definition lower_percent :: "char \<Rightarrow> string" where
  "lower_percent c = [CHR ''%'', hex_alphabet ! (of_char c div 16), hex_alphabet ! (of_char c mod 16)]"

definition hexEscapeNonASCII :: "string \<Rightarrow> string" where
  "hexEscapeNonASCII s = concat (map (\<lambda>c. if (of_char c :: nat) \<ge> 0x80 then lower_percent c else [c]) s)"


subsection \<open>Loopback hosts\<close>

definition loopback_name :: "string \<Rightarrow> bool" where
  "loopback_name h \<longleftrightarrow> h = ''localhost'' \<or> (case ParseIP h of Some ip \<Rightarrow> IsLoopback ip | None \<Rightarrow> False)"

definition host_char :: "char \<Rightarrow> bool" where
  "host_char c \<longleftrightarrow> alnum c \<or> c \<in> set '':.[]''"

lemma split_on_chars: "c \<in> set s \<Longrightarrow> c = d \<or> (\<exists>w \<in> set (split_on d s). c \<in> set w)"
proof (induction s)
  case (Cons a s)
  then show ?case by (cases "split_on d s") auto
qed simp

lemma digit_host_char: "is_digit c \<Longrightarrow> host_char c"
  by (simp add: is_digit_def host_char_def alnum_def)

lemma hex_host_char: "hex_digit c \<noteq> None \<Longrightarrow> host_char c"
  by (auto simp: hex_digit_def host_char_def alnum_def byte_in_def split: if_splits)

lemma parseIPv4_chars:
  assumes "parseIPv4 s = Some q"
  shows "list_all host_char s"
proof -
  have "None \<notin> ipv4_field ` set (split_on CHR ''.'' s)"
    using assms by (simp add: parseIPv4_def Let_def split: if_splits)
  then have "\<forall>w \<in> set (split_on CHR ''.'' s). ipv4_field w \<noteq> None" by (metis image_eqI)
  then have "\<forall>w \<in> set (split_on CHR ''.'' s). \<forall>c \<in> set w. host_char c"
    using digit_host_char by (fastforce simp: ipv4_field_def list_all_iff split: if_splits)
  then show ?thesis using split_on_chars [where s = s and d = "CHR ''.''"] by (auto simp: list_all_iff host_char_def)
qed

lemma hex_group_split: "s = hex_group s @ drop (length (hex_group s)) s"
  by (metis hex_group_def takeWhile_dropWhile_id append_eq_conv_conj)

lemma hex_group_chars: "list_all host_char (hex_group s)"
  using hex_host_char by (auto simp: hex_group_def list_all_iff dest: set_takeWhileD)

lemma ipv6_turn_chars:
  assumes "ipv6_turn ip ell s = Some (ip', ell', s')"
  obtains p where "s = p @ s'" and "list_all host_char p"
proof -
  define g where "g = hex_group s"
  define r where "r = drop (length g) s"
  have s: "s = g @ r" "list_all host_char g"
    using hex_group_split [of s] hex_group_chars [of s] unfolding g_def r_def by simp_all
  consider "s' = []" "parseIPv4 s \<noteq> None" | "s' = []" "r = []"
    | "r = '':'' @ s'" | "r = ''::'' @ s'"
    using assms unfolding ipv6_turn_def Let_def g_def [symmetric] r_def [symmetric]
    by (cases r; cases "tl r") (auto split: if_splits)
  then show ?thesis
  proof cases
    case 1
    then show ?thesis using that [of s] parseIPv4_chars by auto
  next
    case 2
    then show ?thesis using that [of s] s by simp
  next
    case 3
    then show ?thesis using that [of "g @ '':''"] s by (simp add: host_char_def)
  next
    case 4
    then show ?thesis using that [of "g @ ''::''"] s by (simp add: host_char_def)
  qed
qed

lemma ipv6_loop_chars: "ipv6_loop ip ell s = Some x \<Longrightarrow> list_all host_char s"
proof (induction ip ell s rule: ipv6_loop.induct)
  case (1 ip ell s)
  obtain ip' ell' s' where t: "ipv6_turn ip ell s = Some (ip', ell', s')"
    using 1(2) by (subst (asm) ipv6_loop.simps) (auto split: option.splits)
  from ipv6_turn_chars [OF this] obtain p where p: "s = p @ s'" "list_all host_char p" .
  have "list_all host_char s'"
    using 1(1) [OF t refl] 1(2) t by (cases "s' = []") (subst (asm) (2) ipv6_loop.simps, auto split: if_splits)+
  then show ?case using p by simp
qed


lemma ParseIP_chars:
  assumes "ParseIP s = Some ip"
  shows "list_all host_char s"
proof -
  obtain v4 where a: "ParseAddr s = Some (ip, v4, '''')" using assms by (auto simp: ParseIP_def split: option.splits if_splits)
  then consider "parseIPv4 s \<noteq> None" | addr found where "Cut CHR ''%'' s = (addr, '''', found)" "\<not> found" "parseIPv6 addr \<noteq> None"
    by (auto simp: ParseAddr_def split: option.splits if_splits prod.splits)
  then show ?thesis
  proof cases
    case 1
    then show ?thesis using parseIPv4_chars by auto
  next
    case (2 addr)
    then have s: "addr = s" by (auto simp: Cut_def split: if_splits)
    have "ipv6_loop [] e r = Some x \<Longrightarrow> list_all host_char r" for e r x by (rule ipv6_loop_chars)
    moreover have "list_all host_char (drop 2 s) \<Longrightarrow> take 2 s = ''::'' \<Longrightarrow> list_all host_char s"
      using append_take_drop_id [of 2 s] list_all_append [of host_char "take 2 s" "drop 2 s"] by (simp add: host_char_def)
    ultimately show ?thesis using 2(3) unfolding s
      by (auto simp: parseIPv6_def host_char_def Option.bind_eq_Some_conv split: if_splits)
  qed
qed

lemma loopback_name_chars: "loopback_name h \<Longrightarrow> list_all host_char h"
proof -
  have "list_all host_char ''localhost''" by code_simp
  then show "loopback_name h \<Longrightarrow> list_all host_char h"
    using ParseIP_chars by (auto simp: loopback_name_def split: option.splits)
qed

lemma Hostname_chars:
  assumes "list_all host_char (Hostname u)"
  shows "list_all host_char (u_Host u)"
proof -
  define h where "h = (case last_index CHR '':'' (u_Host u) of
      Some i \<Rightarrow> (if validOptionalPort (drop i (u_Host u)) then take i (u_Host u) else u_Host u) | None \<Rightarrow> u_Host u)"
  have name: "Hostname u = (if h \<noteq> [] \<and> hd h = CHR ''['' \<and> last h = CHR '']'' then take (length h - 2) (drop 1 h) else h)"
    by (simp add: Hostname_def h_def Let_def)
  have "list_all host_char h"
  proof (cases "h \<noteq> [] \<and> hd h = CHR ''['' \<and> last h = CHR '']''")
    case True
    then obtain t where t: "h = CHR ''['' # t" "t \<noteq> []" "last t = CHR '']''"
      by (cases h) (auto split: if_splits)
    then have "h = CHR ''['' # butlast t @ [CHR '']'']" using append_butlast_last_id [of t] by simp
    moreover have "take (length h - 2) (drop 1 h) = butlast t" using t by (simp add: butlast_conv_take)
    ultimately show ?thesis using assms True unfolding name by (simp add: host_char_def)
  qed (use assms name in auto)
  moreover have "list_all host_char p" if "validOptionalPort p" for p
    using that digit_host_char by (cases p) (auto simp: validOptionalPort_def list_all_iff host_char_def)
  ultimately show ?thesis unfolding h_def
    by (auto split: option.splits if_splits) (metis append_take_drop_id list_all_append)
qed

lemma escape_host: "list_all host_char h \<Longrightarrow> escape encodeHost h = h"
proof -
  have "\<not> shouldEscape encodeHost c" if "host_char c" for c
    using that by (auto simp: host_char_def shouldEscape_def)
  then show "list_all host_char h \<Longrightarrow> escape encodeHost h = h"
    by (induction h) (simp_all add: escape_def)
qed

definition rooted :: "string \<Rightarrow> bool" where "rooted p \<longleftrightarrow> p = '''' \<or> hd p = CHR ''/''"

lemma rooted_simps [simp]: "rooted ''''" "rooted (c # s) \<longleftrightarrow> c = CHR ''/''"
  by (simp_all add: rooted_def)

lemma unescape_rooted:
  assumes "rooted p" and "unescape encodePath p = Some q"
  shows "rooted q \<and> (q = '''' \<longleftrightarrow> p = '''')"
  using assms by (cases p) (auto simp: rooted_def)

lemma escape_rooted: "rooted p \<Longrightarrow> rooted (escape encodePath p)"
  by (cases p) (auto simp: rooted_def escape_def shouldEscape_def)

lemma setPath_rooted:
  assumes "setPath p u = Some u'" and "rooted p"
  shows "rooted (u_Path u') \<and> rooted (u_RawPath u') \<and> u_Host u' = u_Host u \<and> u_Opaque u' = u_Opaque u"
proof -
  obtain q where q: "unescape encodePath p = Some q"
    and u': "u' = u\<lparr>u_Path := q, u_RawPath := (if p = escape encodePath q then '''' else p)\<rparr>"
    using assms(1) by (auto simp: setPath_def)
  show ?thesis using unescape_rooted [OF assms(2) q] assms(2) unfolding u' by simp
qed

lemma EscapedPath_rooted: "rooted (u_Path u) \<Longrightarrow> rooted (u_RawPath u) \<Longrightarrow> rooted (EscapedPath u)"
  using escape_rooted [of "u_Path u"] by (auto simp: EscapedPath_def)

lemma Escaped_query [simp]:
  "EscapedPath (u\<lparr>u_RawQuery := q\<rparr>) = EscapedPath u" "EscapedFragment (u\<lparr>u_RawQuery := q\<rparr>) = EscapedFragment u"
  by (simp_all add: EscapedPath_def EscapedFragment_def)

lemma parse_rest_host:
  assumes "parse_rest u0 rest = Some u" and "u_Host u \<noteq> ''''" and "u_Host u0 = ''''" and "u_Opaque u0 = ''''"
  shows "u_Opaque u = '''' \<and> rooted (u_Path u) \<and> rooted (u_RawPath u)"
proof -
  have "u_Host u \<noteq> u_Host u0" using assms(2,3) by simp
  moreover have "u_Host u' = u_Host u1" if "setPath r u1 = Some u'" for r u1 u'
    using that by (auto simp: setPath_def)
  ultimately obtain user host where
    p: "setPath (dropWhile (\<lambda>c. c \<noteq> CHR ''/'') (drop 2 rest)) (u0\<lparr>u_User := user, u_Host := host\<rparr>) = Some u"
    using assms(1,2,3) by (auto simp: parse_rest_def Let_def Option.bind_eq_Some_conv split: if_splits)
  have "rooted (dropWhile (\<lambda>c. c \<noteq> CHR ''/'') (drop 2 rest))"
    using hd_dropWhile [of "\<lambda>c. c \<noteq> CHR ''/''" "drop 2 rest"] by (auto simp: rooted_def)
  from setPath_rooted [OF p this] show ?thesis using assms(4) by simp
qed

lemma url_Parse_host:
  assumes "url_Parse s = Some u" and "u_Host u \<noteq> ''''"
  shows "u_Opaque u = '''' \<and> rooted (u_Path u) \<and> rooted (u_RawPath u)"
proof -
  obtain u1 where u1: "parse_url (fst (Cut CHR ''#'' s)) = Some u1"
    and u: "u_Host u = u_Host u1" "u_Opaque u = u_Opaque u1" "u_Path u = u_Path u1" "u_RawPath u = u_RawPath u1"
    using assms(1) by (auto simp: url_Parse_def setFragment_def Option.bind_eq_Some_conv split: prod.splits if_splits)
  then obtain u0 rest where "parse_rest u0 rest = Some u1" "u_Host u0 = ''''" "u_Opaque u0 = ''''"
    using assms(2) by (auto simp: parse_url_def no_url_def Option.bind_eq_Some_conv case_prod_beta split: if_splits)
  then show ?thesis using parse_rest_host [of u0 rest u1] assms(2) u by simp
qed

text \<open>
  Printing a URL that was parsed, with any query, yields its scheme and its authority first, and then the end of
  the text or a character that ends an authority.
\<close>

lemma url_String_authority:
  assumes "url_Parse s = Some u" and "u_User u = None" and "u_Scheme u \<noteq> ''''" and "u_Host u \<noteq> ''''"
    and "list_all host_char (u_Host u)"
  obtains rest where "url_String (u\<lparr>u_RawQuery := q\<rparr>) = u_Scheme u @ ''://'' @ u_Host u @ rest"
    and "rest = '''' \<or> hd rest \<in> set ''/?#''"
proof -
  note facts = url_Parse_host [OF assms(1,4)]
  let ?u = "u\<lparr>u_RawQuery := q\<rparr>"
  have path: "rooted (EscapedPath u)" using EscapedPath_rooted [of u] facts by simp
  let ?q = "(if u_ForceQuery u \<or> q \<noteq> '''' then ''?'' @ q else '''') @
         (if u_Fragment u \<noteq> '''' then ''#'' @ EscapedFragment u else '''')"
  have "url_String ?u = u_Scheme u @ ''://'' @ u_Host u @ EscapedPath u @ ?q"
    using assms(2-5) facts path by (simp add: url_String_def Let_def escape_host rooted_def)
  moreover have "EscapedPath u @ ?q = '''' \<or> hd (EscapedPath u @ ?q) \<in> set ''/?#''"
    using path by (cases "EscapedPath u") (auto simp: rooted_def)
  ultimately show ?thesis by (rule that)
qed

end
