(* ===== verification/Checkout.thy ===== *)
theory Checkout
  imports Billing Url
begin

section \<open>The checkout endpoints\<close>

text \<open>
  Models \<^verbatim>\<open>internal/authservice/checkout.go\<close>: a desktop without an account starts a checkout with a nonce and a
  loopback address, Stripe sends the browser back, and the desktop exchanges the claim for its account secret,
  once. The pages for the browser are texts named here by what they say.
\<close>

subsection \<open>Redirects\<close>

definition minNonceLen :: int where "minNonceLen = 22"

definition validateLoopbackRedirect :: "string \<Rightarrow> bool" where
  "validateLoopbackRedirect raw =
     (case url_Parse raw of
        None \<Rightarrow> False
      | Some u \<Rightarrow>
          (if u_Scheme u \<noteq> ''http'' \<or> u_User u \<noteq> None \<or> u_Host u = '''' then False
           else if Hostname u = ''localhost'' then True
           else case ParseIP (Hostname u) of None \<Rightarrow> False | Some ip \<Rightarrow> IsLoopback ip))"

definition appendQuery :: "string \<Rightarrow> string \<Rightarrow> string \<Rightarrow> string" where
  "appendQuery raw key val =
     (case url_Parse raw of
        None \<Rightarrow> raw
      | Some u \<Rightarrow> url_String (u\<lparr>u_RawQuery := values_Encode (values_Set key val (ParseQuery (u_RawQuery u)))\<rparr>))"

definition trim_slashes :: "string \<Rightarrow> string" where
  "trim_slashes s = rev (dropWhile (\<lambda>c. c = CHR ''/'') (rev s))"

subsection \<open>Starting a checkout\<close>

definition startCheckoutReq :: "string list" where
  "startCheckoutReq = [''nonce'', ''redirect_uri'', ''desktop_label'']"

text \<open>The checks that both variants make first: the request, its nonce and its redirect.\<close>

definition bad_nonce :: "string \<Rightarrow> bool" where
  "bad_nonce nonce \<longleftrightarrow> int (length nonce) < minNonceLen \<or>
     list_ex (\<lambda>c. c \<in> set '' /?#'' \<union> {CHR 9, CHR 13, CHR 10}) nonce"

definition checkout_request :: "request \<Rightarrow> response + string \<times> string" where
  "checkout_request r =
     (case decodeJSON startCheckoutReq r of
        None \<Rightarrow> Inl (writeErr 400 ''bad_request'')
      | Some req \<Rightarrow>
          (if bad_nonce (field req ''nonce'') then Inl (writeErr 400 ''bad_nonce'')
           else if \<not> validateLoopbackRedirect (field req ''redirect_uri'') then Inl (writeErr 400 ''bad_redirect'')
           else Inr (field req ''nonce'', field req ''redirect_uri'')))"

definition pending_claim :: "('s, 'b) svc \<Rightarrow> time \<Rightarrow> string \<Rightarrow> string \<Rightarrow> string \<Rightarrow> checkout_claim" where
  "pending_claim v now nonce sessionID uri =
     \<lparr>cc_Nonce = nonce, cc_StripeSessionID = sessionID, cc_RedirectURI = uri, cc_ClaimCodeHash = '''',
      cc_AccountID = '''', cc_LicenseID = '''', cc_SubscriptionID = '''', cc_Status = ClaimPending, cc_CreatedAt = now,
      cc_ExpiresAt = now + a_claimTTL (v_cfg v), cc_ConsumedAt = 0\<rparr>"

definition create_claim :: "('s, 'b) svc \<Rightarrow> checkout_claim \<Rightarrow> 's \<Rightarrow> response option \<times> 's" where
  "create_claim v c s =
     (case st_CreateCheckoutClaim (v_ops v) c s of
        (None, s) \<Rightarrow> (None, s)
      | (Some e, s) \<Rightarrow> (Some (if e = ErrConflict then writeErr 409 ''nonce_in_use'' else writeErr 500 ''store_error''), s))"

definition claim_seconds :: "('s, 'b) svc \<Rightarrow> int" where
  "claim_seconds v = trunc_div (a_claimTTL (v_cfg v)) second"

text \<open>Billing is off: an account with an open licence, a claim that is ready at once, and its code.\<close>

definition startCheckoutOpen :: "('s, 'b) svc \<Rightarrow> readings \<Rightarrow> request \<Rightarrow> 's \<Rightarrow> response \<times> 's" where
  "startCheckoutOpen v rd r s =
     (case checkout_request r of
        Inl resp \<Rightarrow> (resp, s)
      | Inr (nonce, uri) \<Rightarrow>
          (let now = r_now rd 0; accountID = NewID ''acct'' (r_rand rd 0)
           in case st_UpsertAccount (v_ops v) \<lparr>acc_ID = accountID, acc_StripeCustomerID = '''', acc_SecretHash = '''',
                  acc_CreatedAt = now\<rparr> s of
                (Some e, s) \<Rightarrow> (writeErr 500 ''store_error'', s)
              | (None, s) \<Rightarrow>
                  (case provisionOpenLicense v (r_now rd 1) (r_rand rd 1) (r_rand rd 2) accountID s of
                     (Inl e, s) \<Rightarrow> (writeErr 500 ''store_error'', s)
                   | (Inr (licID, subID), s) \<Rightarrow>
                       (case create_claim v (pending_claim v now nonce '''' uri) s of
                          (Some resp, s) \<Rightarrow> (resp, s)
                        | (None, s) \<Rightarrow>
                            (case st_MarkCheckoutClaimReady (v_ops v) nonce accountID licID subID '''' s of
                               (Some e, s) \<Rightarrow> (writeErr 500 ''store_error'', s)
                             | (None, s) \<Rightarrow>
                                 (let claimCode = NewID ''clm'' (r_rand rd 3)
                                  in case st_SetCheckoutClaimCode (v_ops v) nonce (hashSecret (v_sha256 v) claimCode) s of
                                       (Some e, s) \<Rightarrow> (writeErr 500 ''store_error'', s)
                                     | (None, s) \<Rightarrow>
                                         ((200, StartCheckoutResp (appendQuery uri ''claim_code'' claimCode) (claim_seconds v)), s)))))))"

definition checkout_params_for :: "('s, 'b) svc \<Rightarrow> string \<Rightarrow> string \<Rightarrow> checkout_params" where
  "checkout_params_for v nonce uri =
     \<lparr>cp_PriceID = a_checkoutPriceID (v_cfg v),
      cp_SuccessURL = trim_slashes (a_authURL (v_cfg v)) @ ''/v1/checkout/return?nonce='' @ escape encodeQueryComponent nonce @
        ''&session_id={CHECKOUT_SESSION_ID}'',
      cp_CancelURL = appendQuery uri ''status'' ''canceled'',
      cp_Metadata = [(''nonce'', nonce)]\<rparr>"

definition handleStartCheckout ::
  "('s, 'b) svc \<Rightarrow> ('s, 'b) processor \<Rightarrow> readings \<Rightarrow> request \<Rightarrow> 's \<Rightarrow> response \<times> 's" where
  "handleStartCheckout v p rd r s =
     (if \<not> a_billingEnabled (v_cfg v) then startCheckoutOpen v rd r s
      else if a_checkoutPriceID (v_cfg v) = '''' then (writeErr 503 ''checkout_unavailable'', s)
      else case checkout_request r of
        Inl resp \<Rightarrow> (resp, s)
      | Inr (nonce, uri) \<Rightarrow>
          (case CreateCheckoutSession p (checkout_params_for v nonce uri) of
             Inl NotConfigured \<Rightarrow> (writeErr 503 ''checkout_unavailable'', s)
           | Inl CallFailed \<Rightarrow> (writeErr 502 ''stripe_error'', s)
           | Inr (checkoutURL, sessionID) \<Rightarrow>
               (case create_claim v (pending_claim v (r_now rd 0) nonce sessionID uri) s of
                  (Some resp, s) \<Rightarrow> (resp, s)
                | (None, s) \<Rightarrow> ((200, StartCheckoutResp checkoutURL (claim_seconds v)), s))))"

subsection \<open>The browser comes back\<close>

definition query_Get :: "request \<Rightarrow> string \<Rightarrow> string" where
  "query_Get r k = (case map_of (rq_query r) k of None \<Rightarrow> '''' | Some x \<Rightarrow> x)"

definition pendingPage :: string where "pendingPage = ''Activating your subscription''"
definition successHTML :: string where "successHTML = ''Subscription activated. You can return to the Mobile Agent app.''"

definition handleCheckoutReturn :: "('s, 'b) svc \<Rightarrow> readings \<Rightarrow> request \<Rightarrow> 's \<Rightarrow> response \<times> 's" where
  "handleCheckoutReturn v rd r s =
     (let nonce = query_Get r ''nonce''; sessionID = query_Get r ''session_id''
      in case st_GetCheckoutClaim (v_ops v) s nonce of
           Inl e \<Rightarrow> ((404, Text ''unknown or expired checkout''), s)
         | Inr claim \<Rightarrow>
             (if sessionID \<noteq> '''' \<and> cc_StripeSessionID claim \<noteq> '''' \<and> sessionID \<noteq> cc_StripeSessionID claim
              then ((400, Text ''session mismatch''), s)
              else if cc_Status claim = ClaimConsumed then ((200, Text successHTML), s)
              else if cc_ExpiresAt claim < r_now rd 0 then ((410, Text ''checkout expired''), s)
              else if cc_Status claim = ClaimPending then ((200, Text pendingPage), s)
              else
                let claimCode = NewID ''clm'' (r_rand rd 0)
                in case st_SetCheckoutClaimCode (v_ops v) nonce (hashSecret (v_sha256 v) claimCode) s of
                     (Some e, s) \<Rightarrow> ((500, Text ''could not finalize checkout''), s)
                   | (None, s) \<Rightarrow>
                       ((302, RedirectTo (hexEscapeNonASCII (appendQuery (cc_RedirectURI claim) ''claim_code'' claimCode))), s)))"

subsection \<open>Claiming the account\<close>

definition claimReq :: "string list" where "claimReq = [''claim_code'', ''nonce'']"

definition find_claim :: "('s, 'b) svc \<Rightarrow> string \<Rightarrow> string \<Rightarrow> 's \<Rightarrow> store_error + checkout_claim" where
  "find_claim v code nonce s =
     (if code \<noteq> '''' then st_GetCheckoutClaimByCode (v_ops v) s (hashSecret (v_sha256 v) code)
      else st_GetCheckoutClaim (v_ops v) s nonce)"

definition hand_out :: "('s, 'b) svc \<Rightarrow> bytes \<Rightarrow> checkout_claim \<Rightarrow> 's \<Rightarrow> response \<times> 's" where
  "hand_out v rnd c s =
     (let secret = newAccountSecret (cc_AccountID c) rnd
      in case st_UpsertAccount (v_ops v) \<lparr>acc_ID = cc_AccountID c, acc_StripeCustomerID = '''',
             acc_SecretHash = hashSecret (v_sha256 v) secret, acc_CreatedAt = 0\<rparr> s of
           (Some e, s) \<Rightarrow> (writeErr 500 ''store_error'', s)
         | (None, s) \<Rightarrow> ((200, ClaimResp (cc_AccountID c) secret (cc_LicenseID c) (cc_SubscriptionID c)), s))"

definition handleClaimAccount :: "('s, 'b) svc \<Rightarrow> readings \<Rightarrow> request \<Rightarrow> 's \<Rightarrow> response \<times> 's" where
  "handleClaimAccount v rd r s =
     (case decodeJSON claimReq r of
        None \<Rightarrow> (writeErr 400 ''bad_request'', s)
      | Some req \<Rightarrow>
          (let code = field req ''claim_code''; nonce = field req ''nonce''
           in if code = '''' \<and> nonce = '''' then (writeErr 400 ''bad_request'', s)
              else case find_claim v code nonce s of
                Inl e \<Rightarrow> (writeErr 404 ''claim_not_found'', s)
              | Inr claim \<Rightarrow>
                  (if cc_Status claim = ClaimConsumed then (writeErr 409 ''claim_consumed'', s)
                   else if cc_ExpiresAt claim < r_now rd 0 then (writeErr 410 ''claim_expired'', s)
                   else if cc_Status claim = ClaimPending then ((202, StatusResp ''pending''), s)
                   else case st_ConsumeCheckoutClaim (v_ops v) (cc_Nonce claim) (r_now rd 1) s of
                     (Inl e, s) \<Rightarrow> (if e = ErrConflict then writeErr 409 ''claim_consumed'' else writeErr 500 ''store_error'', s)
                   | (Inr consumed, s) \<Rightarrow> hand_out v (r_rand rd 0) consumed s)))"

subsection \<open>Managing the subscription\<close>

definition handleBillingPortal :: "('s, 'b) svc \<Rightarrow> ('s, 'b) processor \<Rightarrow> request \<Rightarrow> 's \<Rightarrow> response" where
  "handleBillingPortal v p r s =
     (case authenticateAccount v r s of
        None \<Rightarrow> writeErr 401 ''unauthorized''
      | Some accountID \<Rightarrow>
          (case st_GetAccount (v_ops v) s accountID of
             Inl e \<Rightarrow> writeErr 409 ''no_customer''
           | Inr acct \<Rightarrow>
               (if acc_StripeCustomerID acct = '''' then writeErr 409 ''no_customer''
                else case CreateBillingPortalSession p (acc_StripeCustomerID acct) (trim_slashes (a_authURL (v_cfg v))) of
                  Inl NotConfigured \<Rightarrow> writeErr 503 ''portal_unavailable''
                | Inl CallFailed \<Rightarrow> writeErr 502 ''stripe_error''
                | Inr url \<Rightarrow> (200, BillingPortalResp url))))"

text \<open>The first licence whose subscription is known answers.\<close>

fun first_subscription :: "('s, 'b) svc \<Rightarrow> 's \<Rightarrow> license list \<Rightarrow> (license \<times> subscription) option" where
  "first_subscription v s [] = None"
| "first_subscription v s (lic # lics) =
     (case st_GetSubscription (v_ops v) s (lic_SubscriptionID lic) of
        Inl e \<Rightarrow> first_subscription v s lics
      | Inr sub \<Rightarrow> Some (lic, sub))"

definition handleGetSubscription :: "('s, 'b) svc \<Rightarrow> readings \<Rightarrow> request \<Rightarrow> 's \<Rightarrow> response" where
  "handleGetSubscription v rd r s =
     (case authenticateAccount v r s of
        None \<Rightarrow> writeErr 401 ''unauthorized''
      | Some accountID \<Rightarrow>
          (case st_ListLicensesByAccount (v_ops v) s accountID of
             Inl e \<Rightarrow> writeErr 500 ''store_error''
           | Inr lics \<Rightarrow>
               (case first_subscription v s lics of
                  None \<Rightarrow> writeErr 404 ''no_subscription''
                | Some (lic, sub) \<Rightarrow>
                    (200, SubscriptionResp (behavior_String (Evaluate sub (r_now rd 0))) (sub_ID sub)
                       (Unix (sub_CurrentPeriodEnd sub)) (sub_MaxPairs sub) (lic_ID lic)))))"


subsection \<open>Redirects stay on the machine\<close>

text \<open>An authority whose host is a loopback name, in characters that every reader of URLs takes literally.\<close>

definition loopback_authority :: "string \<Rightarrow> bool" where
  "loopback_authority h \<longleftrightarrow> list_all host_char h \<and> loopback_name (Hostname (no_url\<lparr>u_Host := h\<rparr>))"

definition leads_to_loopback :: "string \<Rightarrow> bool" where
  "leads_to_loopback s \<longleftrightarrow>
     (\<exists>h rest. s = ''http://'' @ h @ rest \<and> loopback_authority h \<and> (rest = '''' \<or> hd rest \<in> set ''/?#''))"

lemma Hostname_host: "u_Host u = u_Host u' \<Longrightarrow> Hostname u = Hostname u'"
  by (simp add: Hostname_def)

lemma validated:
  assumes "validateLoopbackRedirect raw"
  obtains u where "url_Parse raw = Some u" and "u_Scheme u = ''http''" and "u_User u = None" and "u_Host u \<noteq> ''''"
    and "loopback_authority (u_Host u)"
proof -
  obtain u where u: "url_Parse raw = Some u" "u_Scheme u = ''http''" "u_User u = None" "u_Host u \<noteq> ''''" "loopback_name (Hostname u)"
    using assms by (cases "url_Parse raw"; cases "u_User (the (url_Parse raw))")
      (auto simp: validateLoopbackRedirect_def loopback_name_def split: option.splits if_splits)
  moreover have "Hostname (no_url\<lparr>u_Host := u_Host u\<rparr>) = Hostname u" by (rule Hostname_host) simp
  ultimately show ?thesis using that loopback_name_chars Hostname_chars by (simp add: loopback_authority_def)
qed

lemma appendQuery_loopback:
  assumes "validateLoopbackRedirect raw"
  shows "leads_to_loopback (appendQuery raw k x)"
proof -
  obtain u where u: "url_Parse raw = Some u" "u_Scheme u = ''http''" "u_User u = None" "u_Host u \<noteq> ''''"
    "loopback_authority (u_Host u)" using validated [OF assms] .
  then obtain rest where "appendQuery raw k x = u_Scheme u @ ''://'' @ u_Host u @ rest" "rest = '''' \<or> hd rest \<in> set ''/?#''"
    using url_String_authority [OF u(1,3) _ u(4)] u by (auto simp: appendQuery_def loopback_authority_def)
  then show ?thesis unfolding leads_to_loopback_def using u(2,5) by (intro exI [of _ "u_Host u"] exI [of _ rest]) simp
qed

lemma hexEscape_append: "hexEscapeNonASCII (s @ t) = hexEscapeNonASCII s @ hexEscapeNonASCII t"
  by (simp add: hexEscapeNonASCII_def)

lemma host_char_ascii: "host_char c \<Longrightarrow> (of_char c :: nat) < 0x80"
  using of_nat_of_char [of c, where 'a = int] by (auto simp: host_char_def alnum_def byte_in_def)

lemma hexEscape_ascii: "list_all (\<lambda>c. (of_char c :: nat) < 0x80) s \<Longrightarrow> hexEscapeNonASCII s = s"
  by (induction s) (simp_all add: hexEscapeNonASCII_def)

lemma hexEscape_loopback:
  assumes "leads_to_loopback s"
  shows "leads_to_loopback (hexEscapeNonASCII s)"
proof -
  obtain h rest where s: "s = ''http://'' @ h @ rest" "loopback_authority h" "rest = '''' \<or> hd rest \<in> set ''/?#''"
    using assms by (auto simp: leads_to_loopback_def)
  have "hexEscapeNonASCII ''http://'' = ''http://''" by code_simp
  moreover have "hexEscapeNonASCII h = h"
    using s(2) host_char_ascii by (intro hexEscape_ascii) (auto simp: loopback_authority_def list_all_iff)
  ultimately have "hexEscapeNonASCII s = ''http://'' @ h @ hexEscapeNonASCII rest"
    unfolding s(1) hexEscape_append by simp
  moreover have "hexEscapeNonASCII rest = '''' \<or> hd (hexEscapeNonASCII rest) \<in> set ''/?#''"
    using s(3) by (cases rest) (auto simp: hexEscapeNonASCII_def)
  ultimately show ?thesis unfolding leads_to_loopback_def using s(2) by blast
qed

end
