(* ===== verification/Auth_Server.thy ===== *)
theory Auth_Server
  imports Pairing Checkout RateLimit
begin

section \<open>The auth server: routes, rate limits and workers\<close>

text \<open>
  Models \<^verbatim>\<open>internal/authservice/server.go\<close> and \<^verbatim>\<open>ratelimit.go\<close>, and the background work of \<^verbatim>\<open>cmd/auth/main.go\<close>. A
  request goes through the routes and, for most endpoints, the rate limits, to its handler. The answer is nothing
  when the handler panics. The transport security header and the time-outs of the listener are left out.
\<close>

subsection \<open>Rate limits\<close>

record server_config =
  sc_ListenAddr :: string
  sc_MetricsAddr :: string
  sc_TLSCertFile :: string
  sc_TLSKeyFile :: string
  sc_TLSMinVersion :: string
  sc_ShutdownDrain :: duration
  sc_TrustProxy :: bool
  sc_RateLimitEnabled :: bool
  sc_RateLimitIPPerMin :: int
  sc_RateLimitIPBurst :: int
  sc_RateLimitAccountPerMin :: int
  sc_RateLimitAccountBurst :: int

record 'l rateLimiters =
  rl_ip :: "'l keyed_limiter option"
  rl_account :: "'l keyed_limiter option"
  rl_trustProxy :: bool

definition newRateLimiters :: "server_config \<Rightarrow> 'l rateLimiters" where
  "newRateLimiters cfg =
     (if \<not> sc_RateLimitEnabled cfg then \<lparr>rl_ip = None, rl_account = None, rl_trustProxy = sc_TrustProxy cfg\<rparr>
      else \<lparr>rl_ip = Some (NewKeyedLimiter (sc_RateLimitIPPerMin cfg) (sc_RateLimitIPBurst cfg)),
            rl_account = Some (NewKeyedLimiter (sc_RateLimitAccountPerMin cfg) (sc_RateLimitAccountBurst cfg)),
            rl_trustProxy = sc_TrustProxy cfg\<rparr>)"

definition rl_sweep :: "time \<Rightarrow> 'l rateLimiters \<Rightarrow> 'l rateLimiters" where
  "rl_sweep now rl =
     rl\<lparr>rl_ip := map_option (limiter_Sweep now (10 * minute)) (rl_ip rl),
        rl_account := map_option (limiter_Sweep now (10 * minute)) (rl_account rl)\<rparr>"

definition accountFromBearer :: "request \<Rightarrow> string" where
  "accountFromBearer r =
     (let secret = bearer r
      in if secret = '''' then '''' else case Cut CHR ''.'' secret of (acct, _, ok) \<Rightarrow> if \<not> ok then '''' else acct)"

definition tooManyRequests :: response where "tooManyRequests = writeErr 429 ''rate_limited''"

text \<open>Whether the request may go on: first by its address, then by the account its bearer names.\<close>

definition limit :: "'l bucket_ops \<Rightarrow> time \<Rightarrow> request \<Rightarrow> 'l rateLimiters \<Rightarrow> bool \<times> 'l rateLimiters" where
  "limit lops now r rl =
     (case rl_ip rl of
        None \<Rightarrow> (True, rl)
      | Some k \<Rightarrow>
          (case Allow lops now (ClientIP r (rl_trustProxy rl)) k of
             (False, k) \<Rightarrow> (False, rl\<lparr>rl_ip := Some k\<rparr>)
           | (True, k) \<Rightarrow>
               (let rl = rl\<lparr>rl_ip := Some k\<rparr>; acct = accountFromBearer r
                in if acct = '''' then (True, rl)
                   else case rl_account rl of
                     None \<Rightarrow> (True, rl)
                   | Some a \<Rightarrow> (case Allow lops now acct a of (ok, a) \<Rightarrow> (ok, rl\<lparr>rl_account := Some a\<rparr>)))))"

subsection \<open>Routes\<close>

datatype endpoint =
  E_health | E_metrics | E_jwks | E_webhook | E_accounts | E_checkout_start | E_checkout_return | E_claim
| E_subscription | E_portal | E_devices | E_pairing_tokens | E_poll | E_pairings | E_unpair | E_token | E_refresh

text \<open>The patterns that \<^verbatim>\<open>NewServer\<close> registers, and which of them it wraps in the rate limit.\<close>

definition routes :: "server_config \<Rightarrow> ((string \<times> string) \<times> endpoint) list" where
  "routes cfg =
     [((''GET'', ''/healthz''), E_health)] @
     (if sc_MetricsAddr cfg = '''' then [((''GET'', ''/metrics''), E_metrics)] else []) @
     [((''GET'', ''/.well-known/jwks.json''), E_jwks),
      ((''POST'', ''/v1/webhooks/stripe''), E_webhook),
      ((''POST'', ''/v1/accounts''), E_accounts),
      ((''POST'', ''/v1/checkout/start''), E_checkout_start),
      ((''GET'', ''/v1/checkout/return''), E_checkout_return),
      ((''POST'', ''/v1/accounts/claim''), E_claim),
      ((''GET'', ''/v1/subscription''), E_subscription),
      ((''POST'', ''/v1/billing-portal''), E_portal),
      ((''POST'', ''/v1/devices''), E_devices),
      ((''POST'', ''/v1/pairing-tokens''), E_pairing_tokens),
      ((''POST'', ''/v1/pairing-tokens/poll''), E_poll),
      ((''POST'', ''/v1/pairings''), E_pairings),
      ((''POST'', ''/v1/pairings/unpair''), E_unpair),
      ((''POST'', ''/v1/token''), E_token),
      ((''POST'', ''/v1/token/refresh''), E_refresh)]"

definition limited :: "endpoint \<Rightarrow> bool" where
  "limited ep \<longleftrightarrow> ep \<in> {E_checkout_start, E_claim, E_subscription, E_portal, E_devices, E_pairing_tokens, E_pairings, E_token, E_refresh}"

definition metrics_routes :: "((string \<times> string) \<times> endpoint) list" where
  "metrics_routes = [((''GET'', ''/healthz''), E_health), ((''GET'', ''/metrics''), E_metrics)]"

text \<open>
  A pattern for \<^verbatim>\<open>GET\<close> also matches \<^verbatim>\<open>HEAD\<close>. A path that is registered for other methods is answered with 405 and
  any other with 404 (or with a redirect to its cleaned form, which reaches no handler either).
\<close>

definition route :: "((string \<times> string) \<times> endpoint) list \<Rightarrow> string \<Rightarrow> string \<Rightarrow> response + endpoint" where
  "route table meth path =
     (case map_of table (if meth = ''HEAD'' then ''GET'' else meth, path) of
        Some ep \<Rightarrow> Inr ep
      | None \<Rightarrow>
          (if path \<in> snd ` fst ` set table then Inl (405, Text ''Method Not Allowed'')
           else Inl (404, Text ''404 page not found'')))"

subsection \<open>Serving a request\<close>

text \<open>
  What does not change while the server runs: the service, the billing processor, the token bucket of the
  library, the key document and the page of the metrics library.
\<close>

record ('s, 'b, 'l) auth_env =
  e_svc :: "('s, 'b) svc"
  e_proc :: "('s, 'b) processor"
  e_cfg :: server_config
  e_buckets :: "'l bucket_ops"
  e_jwks :: "bytes option"
  e_metricsPage :: string

record ('s, 'b, 'l) auth_srv =
  as_state :: "('s, 'b) auth_state"
  as_rl :: "'l rateLimiters"

definition on_store :: "('s \<Rightarrow> response \<times> 's) \<Rightarrow> ('s, 'b) auth_state \<Rightarrow> response option \<times> ('s, 'b) auth_state" where
  "on_store f st = (case f (au_store st) of (resp, s) \<Rightarrow> (Some resp, st\<lparr>au_store := s\<rparr>))"

definition on_state :: "(('s, 'b) auth_state \<Rightarrow> response \<times> ('s, 'b) auth_state) \<Rightarrow>
  ('s, 'b) auth_state \<Rightarrow> response option \<times> ('s, 'b) auth_state" where
  "on_state f st = (case f st of (resp, st) \<Rightarrow> (Some resp, st))"

fun handle :: "('s, 'b, 'l) auth_env \<Rightarrow> endpoint \<Rightarrow> readings \<Rightarrow> request \<Rightarrow> ('s, 'b) auth_state \<Rightarrow>
  response option \<times> ('s, 'b) auth_state" where
  "handle e E_health rd r st = (Some (handleHealth (e_svc e) (au_store st)), st)"
| "handle e E_metrics rd r st = (Some (200, Text (e_metricsPage e)), st)"
| "handle e E_jwks rd r st = (Some (handleJWKS (e_jwks e)), st)"
| "handle e E_webhook rd r st = handleWebhook (e_svc e) (e_proc e) rd r st"
| "handle e E_accounts rd r st = on_store (handleCreateAccount (e_svc e) rd r) st"
| "handle e E_checkout_start rd r st = on_store (handleStartCheckout (e_svc e) (e_proc e) rd r) st"
| "handle e E_checkout_return rd r st = on_store (handleCheckoutReturn (e_svc e) rd r) st"
| "handle e E_claim rd r st = on_store (handleClaimAccount (e_svc e) rd r) st"
| "handle e E_subscription rd r st = (Some (handleGetSubscription (e_svc e) rd r (au_store st)), st)"
| "handle e E_portal rd r st = (Some (handleBillingPortal (e_svc e) (e_proc e) r (au_store st)), st)"
| "handle e E_devices rd r st = on_store (handleRegisterDevice (e_svc e) rd r) st"
| "handle e E_pairing_tokens rd r st = on_store (handleCreatePairingToken (e_svc e) rd r) st"
| "handle e E_poll rd r st = (Some (handlePollPairingToken (e_svc e) rd r (au_store st)), st)"
| "handle e E_pairings rd r st = on_state (handleCompletePairing (e_svc e) rd r) st"
| "handle e E_unpair rd r st = on_state (handleUnpair (e_svc e) rd r) st"
| "handle e E_token rd r st = on_store (handleIssueToken (e_svc e) rd r) st"
| "handle e E_refresh rd r st = on_state (handleRefreshToken (e_svc e) rd r) st"

definition NewServer :: "server_config \<Rightarrow> ('s, 'b) auth_state \<Rightarrow> ('s, 'b, 'l) auth_srv" where
  "NewServer cfg st = \<lparr>as_state = st, as_rl = newRateLimiters cfg\<rparr>"

definition serve :: "('s, 'b, 'l) auth_env \<Rightarrow> string \<Rightarrow> string \<Rightarrow> readings \<Rightarrow> request \<Rightarrow> ('s, 'b, 'l) auth_srv \<Rightarrow>
  response option \<times> ('s, 'b, 'l) auth_srv" where
  "serve e meth path rd r srv =
     (case route (routes (e_cfg e)) meth path of
        Inl resp \<Rightarrow> (Some resp, srv)
      | Inr ep \<Rightarrow>
          (case (if limited ep then limit (e_buckets e) (r_wall rd) r (as_rl srv) else (True, as_rl srv)) of
             (False, rl) \<Rightarrow> (Some tooManyRequests, srv\<lparr>as_rl := rl\<rparr>)
           | (True, rl) \<Rightarrow>
               (case handle e ep rd r (as_state srv) of
                  (resp, st) \<Rightarrow> (resp, \<lparr>as_state = st, as_rl = rl\<rparr>))))"

subsection \<open>Background work\<close>

text \<open>
  The collector samples the queue of events and deletes expired claims; it stops early when the store does not
  answer. Reconciliation needs the Stripe API. A panic in a worker ends the process: nothing is returned.
\<close>

definition collect :: "'s store_ops \<Rightarrow> time \<Rightarrow> 's \<Rightarrow> 's" where
  "collect ops now s =
     (case (st_ListWebhookEventsByStatus ops s WebhookPending 5000, st_ListWebhookEventsByStatus ops s WebhookFailed 5000) of
        (Inr _, Inr _) \<Rightarrow> snd (st_DeleteExpiredCheckoutClaims ops now s)
      | _ \<Rightarrow> s)"

datatype worker_turn = Retry "nat \<Rightarrow> readings" | Heal "nat \<Rightarrow> readings"

fun runWorkers_turn :: "('s, 'b) processor \<Rightarrow> worker_turn \<Rightarrow> ('s, 'b) auth_state \<Rightarrow> ('s, 'b) auth_state option" where
  "runWorkers_turn p (Retry rds) st =
     (case RetryFailed p rds 100 st of (Inr None, st) \<Rightarrow> None | (_, st) \<Rightarrow> Some st)"
| "runWorkers_turn p (Heal rds) st =
     (if p_api p = None then Some st
      else case Reconcile p rds st of (Panics, st) \<Rightarrow> None | (_, st) \<Rightarrow> Some st)"


subsection \<open>The operations the server performs on its store\<close>

text \<open>
  \<open>service_op N\<close>: no pairing is ever set active, no pairing is created past the capacity check, a claim is created
  only for a loopback redirect, and the identifiers of new refresh tokens are in \<open>N\<close>. Claims are deleted by the
  collector alone.
\<close>

fun service_op :: "string set \<Rightarrow> store_op \<Rightarrow> bool" where
  "service_op N (CreatePairing p) = False"
| "service_op N (SetPairingStatus k v) = (v = PairingRevoked)"
| "service_op N (PutRefreshToken rt) = (rt_ID rt \<in> N)"
| "service_op N (CreateCheckoutClaim c) = validateLoopbackRedirect (cc_RedirectURI c)"
| "service_op N (DeleteExpiredCheckoutClaims t) = False"
| "service_op N x = True"

lemma svc_step:
  "steps ops (service_op N) s (snd (st_UpsertAccount ops a s))"
  "steps ops (service_op N) s (snd (st_UpsertSubscription ops u s))"
  "steps ops (service_op N) s (snd (st_CreateLicense ops l s))"
  "steps ops (service_op N) s (snd (st_UpsertDevice ops d s))"
  "steps ops (service_op N) s (snd (st_CreatePairingWithinCapacity ops p n s))"
  "steps ops (service_op N) s (snd (st_SetPairingStatus ops k PairingRevoked s))"
  "steps ops (service_op N) s (snd (st_UpdatePairingDevices ops k m q s))"
  "steps ops (service_op N) s (snd (st_ConsumeRefreshToken ops k t s))"
  "steps ops (service_op N) s (snd (st_PutPairCredential ops c s))"
  "steps ops (service_op N) s (snd (st_CreatePairingToken ops pt s))"
  "steps ops (service_op N) s (snd (st_ConsumePairingToken ops k q t s))"
  "steps ops (service_op N) s (snd (st_MarkCheckoutClaimReady ops k m q y z s))"
  "steps ops (service_op N) s (snd (st_SetCheckoutClaimCode ops k q s))"
  "steps ops (service_op N) s (snd (st_ConsumeCheckoutClaim ops k t s))"
  "steps ops (service_op N) s (snd (st_InsertWebhookEventIfAbsent ops ev s))"
  "steps ops (service_op N) s (snd (st_RevokeRefreshToken ops t k s))"
  "steps ops (service_op N) s (snd (st_RevokeRefreshTokensByDevice ops k t s))"
  "steps ops (service_op N) s (snd (st_RevokePairCredential ops k t s))"
  "steps ops (service_op N) s (snd (st_SetWebhookStatus ops k v i t s))"
  by (rule step_rules; simp)+

text \<open>A handler calls an operation and goes on with its result; the footprint goes along.\<close>

lemma steps_case:
  assumes "steps ops P s (snd x)" and "\<And>e t. steps ops P t (snd (F e t))" and "\<And>t. steps ops P t (snd (G t))"
  shows "steps ops P s (snd (case x of (Some e, t) \<Rightarrow> F e t | (None, t) \<Rightarrow> G t))"
  using assms by (cases x; cases "fst x") (auto intro: steps_trans)

lemma steps_case_sum:
  assumes "steps ops P s (snd x)" and "\<And>e t. steps ops P t (snd (F e t))" and "\<And>v t. steps ops P t (snd (G v t))"
  shows "steps ops P s (snd (case x of (Inl e, t) \<Rightarrow> F e t | (Inr v, t) \<Rightarrow> G v t))"
  using assms by (cases x; cases "fst x") (auto intro: steps_trans)

lemma steps_case_st:
  assumes "steps ops P s (snd x)" and "\<And>e t. steps ops P t (au_store (snd (F e t)))" and "\<And>t. steps ops P t (au_store (snd (G t)))"
  shows "steps ops P s (au_store (snd (case x of (Some e, t) \<Rightarrow> F e t | (None, t) \<Rightarrow> G t)))"
  using assms by (cases x; cases "fst x") (auto intro: steps_trans)

lemma steps_case_sum_st:
  assumes "steps ops P s (snd x)" and "\<And>e t. steps ops P t (au_store (snd (F e t)))" and "\<And>v t. steps ops P t (au_store (snd (G v t)))"
  shows "steps ops P s (au_store (snd (case x of (Inl e, t) \<Rightarrow> F e t | (Inr v, t) \<Rightarrow> G v t)))"
  using assms by (cases x; cases "fst x") (auto intro: steps_trans)

lemma steps_pair_st:
  assumes "steps ops P s (snd x)" and "\<And>e t. steps ops P t (au_store (snd (F e t)))"
  shows "steps ops P s (au_store (snd (case x of (e, t) \<Rightarrow> F e t)))"
  using assms by (cases x) (auto intro: steps_trans)

lemmas step_intros = steps_case steps_case_sum steps_case_st steps_case_sum_st

lemma billing_service: "billing_op x \<Longrightarrow> service_op N x" and hook_service: "hook_op x \<Longrightarrow> service_op N x"
  by (cases x; simp)+

lemma provisionOpenLicense_steps: "steps (v_ops v) (service_op N) s (snd (provisionOpenLicense v now r1 r2 a s))"
  by (auto simp: provisionOpenLicense_def Let_def steps_refl svc_step split: sum.split option.split intro!: step_intros)

lemma handleCreateAccount_steps: "steps (v_ops v) (service_op N) s (snd (handleCreateAccount v rd r s))"
  by (auto simp: handleCreateAccount_def Let_def steps_refl svc_step provisionOpenLicense_steps split: option.split
    intro!: step_intros)


lemma registerOrFindDevice_steps: "steps (v_ops v) (service_op N) s (snd (registerOrFindDevice v now rnd a rl pub s))"
  by (auto simp: registerOrFindDevice_def Let_def steps_refl svc_step split: sum.split intro!: step_intros)

lemma steps_device:
  assumes "steps ops P s (snd x)" and "\<And>t. steps ops P t (snd (F t))" and "\<And>e t. steps ops P t (snd (G e t))"
    and "\<And>v t. steps ops P t (snd (H v t))"
  shows "steps ops P s (snd (case x of (Inl DeviceLimit, t) \<Rightarrow> F t | (Inl (DeviceStoreError e), t) \<Rightarrow> G e t | (Inr v, t) \<Rightarrow> H v t))"
  using assms by (cases x) (auto split: sum.split device_error.split intro: steps_trans)

lemma handleRegisterDevice_steps: "steps (v_ops v) (service_op N) s (snd (handleRegisterDevice v rd r s))"
  by (auto simp: handleRegisterDevice_def Let_def steps_refl registerOrFindDevice_steps split: option.split
    intro!: steps_device)

lemma desktop_key_steps: "steps (v_ops v) (service_op N) s (snd (desktop_key v dev k s))"
  by (auto simp: desktop_key_def Let_def steps_refl svc_step split: option.split intro!: step_intros)

lemma mint_pairing_token_steps: "steps (v_ops v) (service_op N) s (snd (mint_pairing_token v now rnd a lic dev s))"
  by (auto simp: mint_pairing_token_def Let_def steps_refl svc_step intro!: step_intros)

lemma handleCreatePairingToken_steps: "steps (v_ops v) (service_op N) s (snd (handleCreatePairingToken v rd r s))"
  by (auto simp: handleCreatePairingToken_def Let_def steps_refl desktop_key_steps mint_pairing_token_steps
    split: option.split sum.split intro!: step_intros)

lemma resolve_mobile_steps: "steps (v_ops v) (service_op N) s (snd (resolve_mobile v now rnd a mid pub s))"
  by (auto simp: resolve_mobile_def steps_refl registerOrFindDevice_steps split: option.split intro!: steps_device)

lemma steps_case_both:
  assumes "steps ops P s (au_store (snd x))" and "\<And>e t. steps ops P (au_store t) (au_store (snd (F e t)))"
    and "\<And>t. steps ops P (au_store t) (au_store (snd (G t)))"
  shows "steps ops P s (au_store (snd (case x of (Some e, t) \<Rightarrow> F e t | (None, t) \<Rightarrow> G t)))"
  using assms by (cases x; cases "fst x") (auto intro: steps_trans)

lemma replace_pairing_steps: "steps (v_ops v) (service_op N) (au_store st) (au_store (snd (replace_pairing v now ex m d st)))"
  by (auto simp: replace_pairing_def Let_def steps_refl svc_step intro!: step_intros)

lemma create_pairing_steps: "steps (v_ops v) (service_op N) (au_store st) (au_store (snd (create_pairing v p n st)))"
  by (auto simp: create_pairing_def steps_refl svc_step intro!: step_intros)

lemma issue_credential_steps: "steps (v_ops v) (service_op N) s (snd (issue_credential v now rnd k pt lic m d s))"
  by (auto simp: issue_credential_def Let_def steps_refl svc_step intro!: step_intros)

lemma finish_pairing_steps:
  "steps (v_ops v) (service_op N) (au_store st) (au_store (snd (finish_pairing v rd pt lic ex n k m d pub st)))"
proof -
  have one: "steps (v_ops v) (service_op N) t (au_store (snd (case ex of
      Some ex \<Rightarrow> replace_pairing v now ex m d (st\<lparr>au_store := t\<rparr>)
    | None \<Rightarrow> create_pairing v p n (st\<lparr>au_store := t\<rparr>))))" for t now m d p
    using replace_pairing_steps [of v N "st\<lparr>au_store := t\<rparr>"] create_pairing_steps [of v N "st\<lparr>au_store := t\<rparr>"]
    by (simp split: option.split)
  show ?thesis unfolding finish_pairing_def Let_def
    by (intro steps_case_st steps_case_both steps_pair_st svc_step one issue_credential_steps) (simp_all add: steps_refl)
qed

lemma consume_and_finish_steps:
  "steps (v_ops v) (service_op N) (au_store st) (au_store (snd (consume_and_finish v rd pt lic m d pub st)))"
proof -
  have "steps (v_ops v) (service_op N) t (au_store (snd (finish_pairing v rd pt lic ex n k m d pub (st\<lparr>au_store := t\<rparr>))))" for t ex n k
    using finish_pairing_steps [of v N "st\<lparr>au_store := t\<rparr>"] by simp
  then show ?thesis
    by (auto simp: consume_and_finish_def Let_def steps_refl svc_step split: sum.split intro!: step_intros)
qed

lemma handleCompletePairing_steps:
  "steps (v_ops v) (service_op N) (au_store st) (au_store (snd (handleCompletePairing v rd r st)))"
proof -
  have "steps (v_ops v) (service_op N) t (au_store (snd (consume_and_finish v rd pt lic m d pub (st\<lparr>au_store := t\<rparr>))))" for t pt lic m d pub
    using consume_and_finish_steps [of v N "st\<lparr>au_store := t\<rparr>"] by simp
  then show ?thesis
    by (auto simp: handleCompletePairing_def Let_def steps_refl resolve_mobile_steps split: option.split sum.split intro!: step_intros)
qed

lemma handleUnpair_steps: "steps (v_ops v) (service_op N) (au_store st) (au_store (snd (handleUnpair v rd r st)))"
  by (auto simp: handleUnpair_def Let_def steps_refl svc_step split: option.split sum.split intro!: step_intros)


text \<open>The identifier under which a request stores the refresh token it issues, if it issues one.\<close>

definition drawn :: "('s, 'b) svc \<Rightarrow> readings \<Rightarrow> string" where
  "drawn v rd = hashSecret (v_sha256 v) (NewID ''rt'' (r_rand rd 0))"

lemma issueTokenPair_steps:
  assumes "drawn v rd \<in> N"
  shows "steps (v_ops v) (service_op N) s (snd (issueTokenPair v rd now (r_rand rd 0) a p dev lic s))"
proof -
  have "steps (v_ops v) (service_op N) s (snd (st_PutRefreshToken (v_ops v) rt s))" if "rt_ID rt = drawn v rd" for rt
    by (rule step_rules) (simp add: that assms)
  then show ?thesis
    by (auto simp: issueTokenPair_def Let_def steps_refl drawn_def split: option.split intro!: step_intros)
qed

lemma handleIssueToken_steps:
  "drawn v rd \<in> N \<Longrightarrow> steps (v_ops v) (service_op N) s (snd (handleIssueToken v rd r s))"
  by (auto simp: handleIssueToken_def Let_def steps_refl issueTokenPair_steps split: option.split sum.split)

lemma handleRefreshToken_steps:
  "drawn v rd \<in> N \<Longrightarrow> steps (v_ops v) (service_op N) (au_store st) (au_store (snd (handleRefreshToken v rd r st)))"
  by (auto simp: handleRefreshToken_def Let_def steps_refl svc_step issueTokenPair_steps split: option.split sum.split
    intro!: step_intros steps_pair_st)

lemma create_claim_steps:
  assumes "validateLoopbackRedirect (cc_RedirectURI c)"
  shows "steps (v_ops v) (service_op N) s (snd (create_claim v c s))"
proof -
  have "steps (v_ops v) (service_op N) s (snd (st_CreateCheckoutClaim (v_ops v) c s))"
    by (rule step_rules) (simp add: assms)
  then show ?thesis by (auto simp: create_claim_def steps_refl intro!: step_intros)
qed

lemma checkout_request_redirect: "checkout_request r = Inr (nonce, uri) \<Longrightarrow> validateLoopbackRedirect uri"
  by (auto simp: checkout_request_def split: option.splits if_splits)

lemma pending_claim_URI [simp]: "cc_RedirectURI (pending_claim v now nonce x uri) = uri"
  by (simp add: pending_claim_def)

lemma startCheckoutOpen_steps: "steps (v_ops v) (service_op N) s (snd (startCheckoutOpen v rd r s))"
  by (auto simp: startCheckoutOpen_def Let_def steps_refl svc_step provisionOpenLicense_steps create_claim_steps
    split: sum.split dest: checkout_request_redirect intro!: step_intros)

lemma handleStartCheckout_steps: "steps (v_ops v) (service_op N) s (snd (handleStartCheckout v p rd r s))"
  by (auto simp: handleStartCheckout_def steps_refl startCheckoutOpen_steps create_claim_steps
    split: sum.split api_error.split dest: checkout_request_redirect intro!: step_intros)

lemma handleCheckoutReturn_steps: "steps (v_ops v) (service_op N) s (snd (handleCheckoutReturn v rd r s))"
  by (auto simp: handleCheckoutReturn_def Let_def steps_refl svc_step split: sum.split intro!: step_intros)

lemma hand_out_steps: "steps (v_ops v) (service_op N) s (snd (hand_out v rnd c s))"
  by (auto simp: hand_out_def Let_def steps_refl svc_step intro!: step_intros)

lemma handleClaimAccount_steps: "steps (v_ops v) (service_op N) s (snd (handleClaimAccount v rd r s))"
  by (auto simp: handleClaimAccount_def Let_def steps_refl svc_step hand_out_steps split: option.split sum.split intro!: step_intros)

lemma Record_steps: "steps (p_ops p) (service_op N) s (snd (Record p now ev payload s))"
  by (simp add: Record_def svc_step)

lemma dispatch_service: "steps (p_ops p) (service_op N) (au_store st) (au_store (snd (dispatch p rd ev st)))"
  using dispatch_steps by (rule steps_mono) (rule billing_service)

lemma Process_service: "steps (p_ops p) (service_op N) (au_store st) (au_store (snd (Process p rd ev st)))"
  using Process_steps by (rule steps_mono) (rule hook_service)

lemma handleWebhook_steps:
  assumes "p_ops p = v_ops v"
  shows "steps (v_ops v) (service_op N) (au_store st) (au_store (snd (handleWebhook v p rd r st)))"
proof -
  have same: "snd (case x of (Panics, st) \<Rightarrow> (None, st) | (Failed e, st) \<Rightarrow> (F e, st) | (Fine, st) \<Rightarrow> (G, st)) = snd x"
    for x :: "outcome \<times> ('a, 'b) auth_state" and F and G :: "response option"
    by (cases x; cases "fst x") auto
  show ?thesis
  proof (cases "Verify_webhook p (webhook_body r) (rq_stripeSignature r)")
    case (Some ev)
    obtain x t where x: "Record p (r_now rd 4) ev (webhook_body r) (au_store st) = (x, t)" by fastforce
    then have "steps (v_ops v) (service_op N) (au_store st) t"
      using Record_steps [of p N "au_store st" "r_now rd 4" ev "webhook_body r"] assms by simp
    moreover have "steps (v_ops v) (service_op N) t (au_store (snd (Process p rd ev (st\<lparr>au_store := t\<rparr>))))"
      using Process_service [of p N "st\<lparr>au_store := t\<rparr>" rd ev] assms by simp
    ultimately have "steps (v_ops v) (service_op N) (au_store st) t"
      "steps (v_ops v) (service_op N) (au_store st) (au_store (snd (Process p rd ev (st\<lparr>au_store := t\<rparr>))))"
      by (auto intro: steps_trans)
    then show ?thesis using Some x
      by (auto simp: handleWebhook_def steps_refl same split: sum.split bool.split)
  qed (simp add: handleWebhook_def steps_refl)
qed

lemma on_store_snd: "snd (on_store f st) = st\<lparr>au_store := snd (f (au_store st))\<rparr>"
  by (simp add: on_store_def case_prod_beta)

lemma on_state_snd: "snd (on_state f st) = snd (f st)"
  by (simp add: on_state_def case_prod_beta)

lemma handle_steps:
  assumes "p_ops (e_proc e) = v_ops (e_svc e)" and "drawn (e_svc e) rd \<in> N"
  shows "steps (v_ops (e_svc e)) (service_op N) (au_store st) (au_store (snd (handle e ep rd r st)))"
  using assms
  by (cases ep) (simp_all add: on_store_snd on_state_snd steps_refl handleWebhook_steps handleCreateAccount_steps
    handleStartCheckout_steps handleCheckoutReturn_steps handleClaimAccount_steps handleRegisterDevice_steps
    handleCreatePairingToken_steps handleCompletePairing_steps handleUnpair_steps handleIssueToken_steps handleRefreshToken_steps)

lemma serve_steps:
  assumes "p_ops (e_proc e) = v_ops (e_svc e)" and "drawn (e_svc e) rd \<in> N" and "serve e meth path rd r srv = (resp, srv')"
  shows "steps (v_ops (e_svc e)) (service_op N) (au_store (as_state srv)) (au_store (as_state srv'))"
  using assms handle_steps [OF assms(1,2), of "as_state srv" _ r]
  by (auto simp: serve_def steps_refl split: sum.splits prod.splits bool.splits if_splits) (metis snd_conv)+

end
