(* ===== verification/Billing_Laws.thy ===== *)
theory Billing_Laws
  imports Pairing Billing
begin

section \<open>What billing guarantees\<close>

text \<open>
  Over any store that keeps the contract: a delivered event is recorded once and never applied twice, a failing
  event is retried a bounded number of times, a cancelled subscription loses its licences and its pairings, and a
  failed payment opens one period of grace. The properties are stated for the in-memory store.
\<close>

subsection \<open>Deliveries\<close>

context auth_store
begin

lemma webhook_duplicate:
  assumes "p_ops p = ops" and "inv (au_store st)" and "recorded_event (ev_ID ev) (view (au_store st))"
    and "a_billingEnabled (v_cfg v)" and "Verify_webhook p (webhook_body r) (rq_stripeSignature r) = Some ev"
    and "handleWebhook v p rd r st = (resp, st')"
  shows "(resp = Some (200, FlagResp ''duplicate'') \<or> resp = Some (rejectWebhook 500 ''record_error'')) \<and>
    view (au_store st') = view (au_store st) \<and> au_bp st' = au_bp st"
proof -
  obtain x s where x: "Record p (r_now rd 4) ev (webhook_body r) (au_store st) = (x, s)" by fastforce
  let ?e = "\<lparr>we_ID = ev_ID ev, we_Type = ev_Type ev, we_Status = WebhookPending,
       we_Attempts = 0, we_Payload = webhook_body r, we_ReceivedAt = r_now rd 4, we_ProcessedAt = 0\<rparr>"
  have "exec ops (InsertWebhookEventIfAbsent ?e) (au_store st)
      = (case x of Inl e \<Rightarrow> Refused e | Inr b \<Rightarrow> if b then Done else Skipped, s)"
    using x assms(1) by (auto simp: Record_def split: sum.splits)
  from exec_spec [OF assms(2) this] have "x \<noteq> Inr True \<and> view s = view (au_store st)"
    using assms(3) by (auto simp: recorded_event_def split: sum.splits if_splits)
  then show ?thesis using assms(4-6) x
    by (auto simp: handleWebhook_def split: sum.splits bool.splits)
qed

end

lemma ms_Record_same:
  assumes "p_ops p = ms_ops" and "map_of (m_webhookEvents s) (ev_ID ev) = Some e"
  shows "Record p now ev payload s = (Inr False, s)"
  using assms by (simp add: Record_def ms_InsertWebhookEventIfAbsent_def)

subsection \<open>An example processor\<close>

text \<open>
  Signatures are accepted when they spell the secret; an event's payload names its type, and its object is the
  subscription or the invoice of the example account.
\<close>

definition ex_sub :: stripe_sub where
  "ex_sub = \<lparr>ss_ID = ''sub1'', ss_Customer = Some ''cus'', ss_Status = SubActive,
     ss_Items = Some [Some \<lparr>it_ID = ''si'', it_CurrentPeriodEnd = 0, it_Price = Some (Some [(''max_pairs'', ''2'')])\<rparr>],
     ss_Metadata = []\<rparr>"

definition ex_proc :: "(mem_store, mem_bp) processor" where
  "ex_proc = \<lparr>p_ops = ms_ops, p_bps = mem_ops, p_api = None, p_grace = 100, p_webhookSecret = ''whsec'',
     p_construct = (\<lambda>payload h secret. if h = secret then Some \<lparr>ev_ID = ''evt1'', ev_Type = payload, ev_Raw = Some []\<rparr> else None),
     p_event = (\<lambda>payload. if payload = [] then None else Some \<lparr>ev_ID = ''evt1'', ev_Type = payload, ev_Raw = Some []\<rparr>),
     p_session = (\<lambda>_. None), p_subscription = (\<lambda>_. Some ex_sub),
     p_invoice = (\<lambda>_. Some \<lparr>inv_ID = ''in'', inv_Parent = Some (Some (Some ''sub1''))\<rparr>)\<rparr>"

lemma ex_proc_ops [simp]: "p_ops ex_proc = ms_ops" "p_bps ex_proc = mem_ops"
  by (simp_all add: ex_proc_def)

definition ex_delivery :: "string \<Rightarrow> request" where
  "ex_delivery t = \<lparr>rq_remoteAddr = ''10.0.0.1:5000'', rq_forwardedFor = '''', rq_authorization = '''', rq_query = [],
     rq_stripeSignature = ''whsec'', rq_body = t\<rparr>"

text \<open>
  C34. A delivery is applied at most once. After a delivery of a signed event to the webhook endpoint, whatever
  its outcome and whatever the store goes through afterwards, another delivery of an event with the same id is
  answered as a duplicate and changes neither the store nor the backplane; a request whose signature does not
  verify changes nothing at any time.
\<close>

theorem webhook_once:
  assumes "v_ops v = ms_ops" and "p_ops p = ms_ops" and "ms_ok (au_store st)" and "a_billingEnabled (v_cfg v)"
    and "Verify_webhook p (webhook_body r) (rq_stripeSignature r) = Some ev"
    and "handleWebhook v p rd r st = (resp, st1)"
    and "Verify_webhook p (webhook_body r') (rq_stripeSignature r') = Some ev'" and "ev_ID ev' = ev_ID ev"
    and "au_store st2 = run ms_ops xs (au_store st1)"
  shows "handleWebhook v p rd' r' st2 = (Some (200, FlagResp ''duplicate''), st2) \<and>
    (Verify_webhook p (webhook_body r'') (rq_stripeSignature r'') = None \<longrightarrow>
      handleWebhook v p rd' r'' st = (Some (400, ErrorBody ''bad_signature''), st))"
proof -
  have "resp \<noteq> Some (rejectWebhook 500 ''record_error'')"
    using assms(2,4-6) by (auto simp: handleWebhook_def Record_def ms_InsertWebhookEventIfAbsent_def rejectWebhook_def
      writeErr_def split: option.splits prod.splits outcome.splits)
  from ms.webhook_records [OF assms(1-6) this]
  have "ms_ok (au_store st1)" "recorded_event (ev_ID ev) (ms_view (au_store st1))" by simp_all
  then have "recorded_event (ev_ID ev) (ms_view (au_store st2))"
    unfolding assms(9) using ms.run_keeps [of _ "recorded_event (ev_ID ev)" xs] recorded_event_stays by blast
  then obtain e where "map_of (m_webhookEvents (au_store st2)) (ev_ID ev') = Some e"
    using assms(8) by (auto simp: recorded_event_def ms_view_def)
  from ms_Record_same [OF assms(2) this] have "handleWebhook v p rd' r' st2 = (Some (200, FlagResp ''duplicate''), st2)"
    using assms(4,7) by (simp add: handleWebhook_def)
  moreover have "handleWebhook v p rd' r'' st = (Some (400, ErrorBody ''bad_signature''), st)"
    if "Verify_webhook p (webhook_body r'') (rq_stripeSignature r'') = None"
    using that assms(4) by (simp add: handleWebhook_def rejectWebhook_def writeErr_def)
  ultimately show ?thesis by blast
qed

theorem webhook_once_witness:
  "\<exists>st1. handleWebhook ex_svc ex_proc ex_rd (ex_delivery ''invoice.payment_failed'') ex_state = (Some (200, FlagResp ''ok''), st1) \<and>
    handleWebhook ex_svc ex_proc ex_rd (ex_delivery ''invoice.paid'') st1 = (Some (200, FlagResp ''duplicate''), st1)"
proof -
  obtain st1 where r: "handleWebhook ex_svc ex_proc ex_rd (ex_delivery ''invoice.payment_failed'') ex_state
      = (fst (handleWebhook ex_svc ex_proc ex_rd (ex_delivery ''invoice.payment_failed'') ex_state), st1)"
    by (metis prod.collapse)
  have x: "fst (handleWebhook ex_svc ex_proc ex_rd (ex_delivery ''invoice.payment_failed'') ex_state) = Some (200, FlagResp ''ok'')"
    by code_simp
  have "a_billingEnabled ex_cfg" by code_simp
  moreover have "Verify_webhook ex_proc (webhook_body (ex_delivery t)) (rq_stripeSignature (ex_delivery t))
      = Some \<lparr>ev_ID = ''evt1'', ev_Type = webhook_body (ex_delivery t), ev_Raw = Some []\<rparr>" for t
    by (simp add: Verify_webhook_def ex_proc_def ex_delivery_def)
  ultimately have "handleWebhook ex_svc ex_proc ex_rd (ex_delivery ''invoice.paid'') st1 = (Some (200, FlagResp ''duplicate''), st1)"
    using webhook_once [of ex_svc ex_proc ex_state "ex_delivery ''invoice.payment_failed''" _ ex_rd _ st1
        "ex_delivery ''invoice.paid''" _ st1 "[]"] r ex_store_ok
    by (simp add: ex_state_def run_def)
  then show ?thesis using r x by auto
qed

subsection \<open>Retries\<close>

text \<open>A store none of whose operations fails for reasons of its own, as the in-memory one.\<close>

locale reliable_store = auth_store +
  assumes exec_total: "inv s \<Longrightarrow> (fst (exec ops x s), view (snd (exec ops x s))) = spec x (view s)"
begin

lemma exec_view_total: "inv s \<Longrightarrow> view (snd (exec ops x s)) = snd (spec x (view s))"
  using exec_total [of s x] by (metis snd_conv)

end

interpretation mt: reliable_store ms_ops ms_ok ms_view
  by unfold_locales (simp add: ms_exec_spec ms_ok_def)

lemma spec_keeps_events: "billing_op x \<Longrightarrow> db_webhookEvents (snd (spec x d)) = db_webhookEvents d"
  by (cases x) (auto simp: row_defs Let_def split: option.splits if_splits sum.splits)

text \<open>What a pass of the retry worker makes of a failed event.\<close>

definition retried :: "webhook_event \<Rightarrow> webhook_event \<Rightarrow> bool" where
  "retried e e' \<longleftrightarrow> we_Payload e' = we_Payload e \<and>
     (we_Status e' = WebhookProcessed \<and> we_Attempts e' = 0 \<or> we_Status e' = WebhookDead \<or>
      we_Status e' = WebhookFailed \<and> we_Attempts e' = we_Attempts e + 1 \<and> we_Attempts e' < maxAttempts)"

text \<open>No handler panics when there is an API to ask and the event has data.\<close>

lemma ended_runs [simp]: "fst (ended r) \<noteq> Panics"
  by (simp add: ended_def split: prod.splits option.splits)

lemma handlers_run:
  assumes "ev_Raw ev \<noteq> None"
  shows "p_api p \<noteq> None \<Longrightarrow> fst (handleCheckoutCompleted p rd ev st) \<noteq> Panics"
    and "fst (handleSubscriptionUpsert p rd ev st) \<noteq> Panics" and "fst (handleSubscriptionDeleted p rd ev st) \<noteq> Panics"
    and "fst (handleInvoicePaymentFailed p rd ev s) \<noteq> Panics" and "fst (handleInvoicePaid p rd ev s) \<noteq> Panics"
proof -
  obtain raw where raw: "ev_Raw ev = Some raw" using assms by blast
  show "fst (handleCheckoutCompleted p rd ev st) \<noteq> Panics" if "p_api p \<noteq> None"
  proof -
    obtain api where "p_api p = Some api" using \<open>p_api p \<noteq> None\<close> by blast
    then show ?thesis using raw by (simp add: handleCheckoutCompleted_def Let_def split: option.split prod.split sum.split)
  qed
  show "fst (handleSubscriptionUpsert p rd ev st) \<noteq> Panics"
    using assms by (simp add: handleSubscriptionUpsert_def split: option.split prod.split sum.split)
  show "fst (handleSubscriptionDeleted p rd ev st) \<noteq> Panics"
    using assms by (simp add: handleSubscriptionDeleted_def split: option.split prod.split sum.split)
  show "fst (handleInvoicePaymentFailed p rd ev s) \<noteq> Panics"
    using assms by (simp add: handleInvoicePaymentFailed_def invoiceSubscriptionID_def split: option.split prod.split sum.split)
  show "fst (handleInvoicePaid p rd ev s) \<noteq> Panics"
    using assms by (simp add: handleInvoicePaid_def invoiceSubscriptionID_def split: option.split prod.split sum.split)
qed

lemma dispatch_runs: "ev_Raw ev \<noteq> None \<Longrightarrow> p_api p \<noteq> None \<Longrightarrow> fst (dispatch p rd ev st) \<noteq> Panics"
  using handlers_run(1-3) [of ev p rd st] handlers_run(4,5) [of ev p rd "au_store st"]
  by (simp add: dispatch_def Let_def case_prod_beta del: not_None_eq)

lemma retry_one_runs:
  assumes "p_api p \<noteq> None" and "\<And>ev. p_event p (we_Payload e) = Some ev \<Longrightarrow> ev_Raw ev \<noteq> None"
  shows "fst (retry_one p rd e st) \<noteq> None"
proof (cases "p_event p (we_Payload e)")
  case (Some ev)
  then have "fst (dispatch p rd ev st) \<noteq> Panics" using dispatch_runs assms by blast
  then show ?thesis using Some by (cases "dispatch p rd ev st"; cases "fst (dispatch p rd ev st)") (auto simp: retry_one_def Let_def)
qed (simp add: retry_one_def)

lemma retry_all_runs:
  assumes "p_api p \<noteq> None" and "\<And>e ev. e \<in> set es \<Longrightarrow> p_event p (we_Payload e) = Some ev \<Longrightarrow> ev_Raw ev \<noteq> None"
  shows "fst (retry_all p rds i es c st) \<noteq> None"
  using assms(2)
proof (induction es arbitrary: i c st)
  case (Cons e es)
  have "fst (retry_one p (rds i) e st) \<noteq> None" by (rule retry_one_runs [OF assms(1) Cons.prems]) simp_all
  then obtain a st1 where "retry_one p (rds i) e st = (Some a, st1)" by (cases "retry_one p (rds i) e st") auto
  moreover have "fst (retry_all p rds (Suc i) es c' st1) \<noteq> None" for c'
    by (rule Cons.IH) (use Cons.prems in \<open>meson list.set_intros(2)\<close>)
  ultimately show ?case by (cases a) (simp del: not_None_eq)
qed simp

context reliable_store
begin

lemma dispatch_events:
  assumes "p_ops p = ops" and "inv (au_store st)" and "dispatch p rd ev st = (x, st')"
  shows "inv (au_store st') \<and> db_webhookEvents (view (au_store st')) = db_webhookEvents (view (au_store st))"
proof -
  have "steps ops billing_op (au_store st) (au_store st')"
    using dispatch_steps [of p st rd ev] assms(1,3) by simp
  from steps_keep [OF this assms(2), of "\<lambda>d. db_webhookEvents d = db_webhookEvents (view (au_store st))"]
  show ?thesis using spec_keeps_events by simp
qed

lemma mark_effect:
  assumes "inv s" and "db_webhookEvents (view s) k = Some e"
  shows "inv (snd (st_SetWebhookStatus ops k v n t s)) \<and>
    db_webhookEvents (view (snd (st_SetWebhookStatus ops k v n t s)))
      = (db_webhookEvents (view s))(k \<mapsto> e\<lparr>we_Status := v, we_Attempts := n, we_ProcessedAt := t\<rparr>)"
  using exec_view_total [OF assms(1), of "SetWebhookStatus k v n t"] exec_inv [OF assms(1), of "SetWebhookStatus k v n t"] assms(2)
  by (simp add: row_defs)

lemma retry_one_effect:
  assumes "p_ops p = ops" and "inv (au_store st)" and "db_webhookEvents (view (au_store st)) (we_ID e) = Some e0"
    and "retry_one p rd e st = (Some c, st')" and "we_Payload e0 = we_Payload e"
  obtains e' where "inv (au_store st')" and "retried e e'"
    and "db_webhookEvents (view (au_store st')) = (db_webhookEvents (view (au_store st)))(we_ID e \<mapsto> e')"
proof (cases "p_event p (we_Payload e)")
  case None
  then show ?thesis
    using assms mark_effect [OF assms(2,3)] that [of "e0\<lparr>we_Status := WebhookDead, we_Attempts := we_Attempts e, we_ProcessedAt := r_now rd 3\<rparr>"]
    by (auto simp: retry_one_def retried_def)
next
  case (Some ev)
  obtain x st1 where d: "dispatch p rd ev st = (x, st1)" by fastforce
  note keep = dispatch_events [OF assms(1,2) d]
  then have "db_webhookEvents (view (au_store st1)) (we_ID e) = Some e0" using assms(3) by simp
  note mark = mark_effect [OF conjunct1 [OF keep] this]
  show ?thesis
  proof (cases x)
    case Fine
    then show ?thesis using assms(1,4,5) Some d mark keep
        that [of "e0\<lparr>we_Status := WebhookProcessed, we_Attempts := 0, we_ProcessedAt := r_now rd 3\<rparr>"]
      by (auto simp: retry_one_def retried_def)
  next
    case (Failed f)
    let ?a = "we_Attempts e + 1"
    let ?v = "if ?a \<ge> maxAttempts then WebhookDead else WebhookFailed"
    show ?thesis using Failed assms(1,4,5) Some d mark keep
        that [of "e0\<lparr>we_Status := ?v, we_Attempts := ?a, we_ProcessedAt := 0\<rparr>"]
      by (auto simp: retry_one_def retried_def Let_def split: if_splits)
  next
    case Panics
    then show ?thesis using assms(4) Some d by (simp add: retry_one_def)
  qed
qed

end

context reliable_store
begin

lemma retry_all_effect:
  assumes "p_ops p = ops" and "inv (au_store st)"
    and "\<forall>e \<in> set es. \<exists>e0. db_webhookEvents (view (au_store st)) (we_ID e) = Some e0 \<and> we_Payload e0 = we_Payload e"
    and "retry_all p rds i es c st = (Some c', st')"
  shows "inv (au_store st') \<and>
    (\<forall>k. if k \<in> we_ID ` set es
      then \<exists>e \<in> set es. we_ID e = k \<and> (\<exists>e'. db_webhookEvents (view (au_store st')) k = Some e' \<and> retried e e')
      else db_webhookEvents (view (au_store st')) k = db_webhookEvents (view (au_store st)) k)"
  using assms(2-)
proof (induction es arbitrary: i c st)
  case (Cons e es)
  obtain c1 st1 where r: "retry_one p (rds i) e st = (Some c1, st1)" and
    more: "retry_all p rds (Suc i) es (fst c + fst c1, snd c + snd c1) st1 = (Some c', st')"
    using Cons.prems(3) by (auto split: prod.splits option.splits)
  obtain e0 where e0: "db_webhookEvents (view (au_store st)) (we_ID e) = Some e0" "we_Payload e0 = we_Payload e"
    using Cons.prems(2) by auto
  from retry_one_effect [OF assms(1) Cons.prems(1) e0(1) r e0(2)] obtain e' where
    st1: "inv (au_store st1)" "retried e e'"
      "db_webhookEvents (view (au_store st1)) = (db_webhookEvents (view (au_store st)))(we_ID e \<mapsto> e')" by blast
  have "\<forall>x \<in> set es. \<exists>e0. db_webhookEvents (view (au_store st1)) (we_ID x) = Some e0 \<and> we_Payload e0 = we_Payload x"
    using Cons.prems(2) st1(2,3) e0 by (auto simp: retried_def)
  note ih = Cons.IH [OF st1(1) this more]
  show ?case using ih st1 by (auto split: if_splits)
qed simp

end

subsection \<open>The retry worker\<close>

text \<open>
  Passes of the worker, as the ticker of \<^verbatim>\<open>runWorkers\<close> makes them, with no delivery in between; nothing when a
  handler panics. An error of the listing is logged and the pass is over.
\<close>

fun retry_passes ::
  "('s, 'b) processor \<Rightarrow> (nat \<Rightarrow> nat \<Rightarrow> readings) \<Rightarrow> nat \<Rightarrow> ('s, 'b) auth_state \<Rightarrow> ('s, 'b) auth_state option" where
  "retry_passes p rds 0 st = Some st"
| "retry_passes p rds (Suc n) st =
     (case RetryFailed p (rds n) 100 st of
        (Inr None, st) \<Rightarrow> None
      | (_, st) \<Rightarrow> retry_passes p rds n st)"

lemma webhook_statuses [simp]:
  "WebhookFailed \<noteq> WebhookProcessed" "WebhookFailed \<noteq> WebhookDead" "WebhookFailed \<noteq> WebhookPending"
  by (simp_all add: WebhookFailed_def WebhookProcessed_def WebhookDead_def WebhookPending_def)

definition failed_keys :: "mem_store \<Rightarrow> string set" where
  "failed_keys s = {k. \<exists>e. map_of (m_webhookEvents s) k = Some e \<and> we_Status e = WebhookFailed}"

text \<open>
  \<open>attempts_left s k\<close>: how many passes can still find the event failed. A pass takes it down by one at least for every
  event it lists, and it lists one at least while there is any, all of them while there are at most a hundred.
\<close>

definition attempts_left :: "mem_store \<Rightarrow> string \<Rightarrow> nat" where
  "attempts_left s k =
     (case map_of (m_webhookEvents s) k of
        None \<Rightarrow> 0
      | Some e \<Rightarrow> (if we_Status e = WebhookFailed then max 1 (nat (maxAttempts - we_Attempts e)) else 0))"

definition has_data :: "('s, 'b) processor \<Rightarrow> mem_store \<Rightarrow> bool" where
  "has_data p s \<longleftrightarrow> (\<forall>k e ev. map_of (m_webhookEvents s) k = Some e \<longrightarrow> we_Status e = WebhookFailed \<longrightarrow>
     p_event p (we_Payload e) = Some ev \<longrightarrow> ev_Raw ev \<noteq> None)"

lemma finite_failed: "finite (failed_keys s)"
  unfolding failed_keys_def by (rule finite_subset [OF _ finite_dom_map_of [of "m_webhookEvents s"]]) auto

lemma attempts_left_0: "attempts_left s k = 0 \<longleftrightarrow> k \<notin> failed_keys s"
  by (auto simp: attempts_left_def failed_keys_def split: option.splits)

lemma failed_listed:
  assumes "ms_ok s"
  obtains es where "st_ListWebhookEventsByStatus ms_ops s WebhookFailed 100 = Inr es"
    and "\<And>e. e \<in> set es \<Longrightarrow> we_Status e = WebhookFailed \<and> map_of (m_webhookEvents s) (we_ID e) = Some e"
    and "failed_keys s \<noteq> {} \<Longrightarrow> es \<noteq> []" and "card (failed_keys s) \<le> 100 \<Longrightarrow> we_ID ` set es = failed_keys s"
proof -
  have wf: "wf_map (m_webhookEvents s)" using assms by (simp add: ms_ok_def ms_wf_def)
  have id: "we_ID e = k" if "map_of (m_webhookEvents s) k = Some e" for e k
    using ms.view_ok [OF assms] that by (auto simp: db_ok_def ms_view_def)
  let ?fs = "sort_key we_ReceivedAt (filter (\<lambda>e. we_Status e = WebhookFailed) (mvals (m_webhookEvents s)))"
  let ?es = "if 100 < int (length ?fs) then take 100 ?fs else ?fs"
  have len: "length ?fs = card (failed_keys s)" using mcount_card [OF wf] unfolding mcount_def failed_keys_def by simp
  have rows: "e \<in> set ?fs \<longleftrightarrow> we_Status e = WebhookFailed \<and> (\<exists>k. map_of (m_webhookEvents s) k = Some e)" for e
    using mvals_iff [OF wf] by (auto simp del: set_map)
  have "st_ListWebhookEventsByStatus ms_ops s WebhookFailed 100 = Inr ?es"
    by (simp add: ms_ListWebhookEventsByStatus_def Let_def)
  moreover have "we_Status e = WebhookFailed \<and> map_of (m_webhookEvents s) (we_ID e) = Some e" if "e \<in> set ?es" for e
    using that rows [of e] id set_take_subset [of 100 ?fs] by (auto split: if_splits)
  moreover have "?es \<noteq> []" if "failed_keys s \<noteq> {}"
  proof -
    have "length ?fs > 0" unfolding len using that finite_failed [of s] by (simp add: card_gt_0_iff)
    then show ?thesis by (simp only: length_greater_0_conv split: if_split) simp
  qed
  moreover have "we_ID ` set ?es = failed_keys s" if "card (failed_keys s) \<le> 100"
    using that len rows id by (force simp: failed_keys_def)
  ultimately show ?thesis by (rule that)
qed

lemma pass_effect:
  assumes "p_ops p = ms_ops" and "p_api p \<noteq> None" and "ms_ok (au_store st)" and "has_data p (au_store st)"
  obtains r st' L where "RetryFailed p rds 100 st = (r, st')" and "r \<noteq> Inr None" and "ms_ok (au_store st')"
    and "L \<subseteq> failed_keys (au_store st)" and "failed_keys (au_store st) \<noteq> {} \<Longrightarrow> L \<noteq> {}"
    and "card (failed_keys (au_store st)) \<le> 100 \<Longrightarrow> L = failed_keys (au_store st)"
    and "\<And>k. k \<in> L \<Longrightarrow> \<exists>e e'. map_of (m_webhookEvents (au_store st)) k = Some e \<and>
      map_of (m_webhookEvents (au_store st')) k = Some e' \<and> retried e e'"
    and "\<And>k. k \<notin> L \<Longrightarrow> map_of (m_webhookEvents (au_store st')) k = map_of (m_webhookEvents (au_store st)) k"
proof -
  obtain es where es: "st_ListWebhookEventsByStatus ms_ops (au_store st) WebhookFailed 100 = Inr es"
    and row: "\<And>e. e \<in> set es \<Longrightarrow> we_Status e = WebhookFailed \<and> map_of (m_webhookEvents (au_store st)) (we_ID e) = Some e"
    and ne: "failed_keys (au_store st) \<noteq> {} \<Longrightarrow> es \<noteq> []"
    and all: "card (failed_keys (au_store st)) \<le> 100 \<Longrightarrow> we_ID ` set es = failed_keys (au_store st)"
    using failed_listed [OF assms(3)] by blast
  have "fst (retry_all p rds 0 es (0, 0) st) \<noteq> None"
    by (rule retry_all_runs [OF assms(2)]) (use row assms(4) [unfolded has_data_def] in blast)
  then obtain c st' where c: "retry_all p rds 0 es (0, 0) st = (Some c, st')"
    by (cases "retry_all p rds 0 es (0, 0) st") auto
  have "\<forall>e \<in> set es. \<exists>e0. db_webhookEvents (ms_view (au_store st)) (we_ID e) = Some e0 \<and> we_Payload e0 = we_Payload e"
    using row by (auto simp: ms_view_def)
  note eff = mt.retry_all_effect [OF assms(1,3) this c]
  show ?thesis
  proof (rule that [of "Inr (Some c)" st' "we_ID ` set es"])
    show "RetryFailed p rds 100 st = (Inr (Some c), st')" using es c assms(1) by (simp add: RetryFailed_def)
    show "ms_ok (au_store st')" using eff by simp
    show "we_ID ` set es \<subseteq> failed_keys (au_store st)" using row by (auto simp: failed_keys_def)
    show "\<exists>e e'. map_of (m_webhookEvents (au_store st)) k = Some e \<and>
        map_of (m_webhookEvents (au_store st')) k = Some e' \<and> retried e e'" if "k \<in> we_ID ` set es" for k
    proof -
      obtain e e' where "e \<in> set es" "we_ID e = k" "map_of (m_webhookEvents (au_store st')) k = Some e'" "retried e e'"
        using eff [THEN conjunct2, THEN spec, of k] \<open>k \<in> we_ID ` set es\<close> by (auto simp: ms_view_def)
      then show ?thesis using row by blast
    qed
    show "map_of (m_webhookEvents (au_store st')) k = map_of (m_webhookEvents (au_store st)) k" if "k \<notin> we_ID ` set es" for k
      using eff [THEN conjunct2, THEN spec, of k] that by (simp add: ms_view_def)
  qed (use ne all in auto)
qed

text \<open>\<open>drained_in n s\<close>: the attempts left in all are at most \<open>n\<close>, or, while one pass lists every event, those left for each event.\<close>

definition drained_in :: "nat \<Rightarrow> mem_store \<Rightarrow> bool" where
  "drained_in n s \<longleftrightarrow> sum (attempts_left s) (failed_keys s) \<le> n \<or>
     card (failed_keys s) \<le> 100 \<and> (\<forall>k. attempts_left s k \<le> n)"

lemma drained_in_0: "drained_in 0 s \<Longrightarrow> failed_keys s = {}"
  using finite_failed [of s] attempts_left_0 [of s] by (auto simp: drained_in_def)

lemma retried_left:
  assumes "map_of (m_webhookEvents s) k = Some e" and "we_Status e = WebhookFailed"
    and "map_of (m_webhookEvents s') k = Some e'" and "retried e e'"
  shows "attempts_left s' k < attempts_left s k"
  using assms by (auto simp: attempts_left_def retried_def)

lemma pass_drains:
  assumes L: "L \<subseteq> failed_keys s" "failed_keys s \<noteq> {} \<Longrightarrow> L \<noteq> {}" "card (failed_keys s) \<le> 100 \<Longrightarrow> L = failed_keys s"
    and less: "\<And>k. k \<in> L \<Longrightarrow> attempts_left s' k < attempts_left s k"
    and same: "\<And>k. k \<notin> L \<Longrightarrow> attempts_left s' k = attempts_left s k" and "drained_in (Suc n) s"
  shows "drained_in n s'"
proof -
  have le: "attempts_left s' k \<le> attempts_left s k" for k using less same [of k] by (cases "k \<in> L") (auto intro: less_imp_le)
  have sub: "failed_keys s' \<subseteq> failed_keys s"
  proof
    fix k assume "k \<in> failed_keys s'"
    then show "k \<in> failed_keys s" using le [of k] attempts_left_0 [of s k] attempts_left_0 [of s' k] by auto
  qed
  have card: "card (failed_keys s') \<le> card (failed_keys s)" by (rule card_mono [OF finite_failed sub])
  have sum: "sum (attempts_left s') (failed_keys s') = sum (attempts_left s') (failed_keys s)"
    by (rule sum.mono_neutral_left [OF finite_failed sub]) (simp add: attempts_left_0)
  from assms(6) consider "sum (attempts_left s) (failed_keys s) \<le> Suc n"
    | "card (failed_keys s) \<le> 100" "\<forall>k. attempts_left s k \<le> Suc n" by (auto simp: drained_in_def)
  then show ?thesis
  proof cases
    case 1
    have "sum (attempts_left s') (failed_keys s) \<le> n"
    proof (cases "failed_keys s = {}")
      case False
      then obtain k where "k \<in> L" using L(2) by blast
      then have "sum (attempts_left s') (failed_keys s) < sum (attempts_left s) (failed_keys s)"
        using L(1) less le by (intro sum_strict_mono_ex1 finite_failed) auto
      then show ?thesis using 1 by simp
    qed simp
    then show ?thesis using sum by (simp add: drained_in_def)
  next
    case 2
    have "attempts_left s' k \<le> n" for k
    proof (cases "k \<in> L")
      case True
      then show ?thesis using less [OF True] 2(2) by (metis less_le_trans less_Suc_eq_le)
    next
      case False
      then have "attempts_left s k = 0" using L(3) 2(1) attempts_left_0 by blast
      then show ?thesis using same [OF False] by simp
    qed
    then show ?thesis using card 2(1) by (simp add: drained_in_def)
  qed
qed

lemma passes_drain:
  assumes "p_ops p = ms_ops" and "p_api p \<noteq> None" and "ms_ok (au_store st)" and "has_data p (au_store st)"
    and "drained_in n (au_store st)"
  shows "\<exists>st'. retry_passes p rds n st = Some st' \<and> failed_keys (au_store st') = {} \<and>
    (\<forall>k. if k \<in> failed_keys (au_store st)
      then \<exists>e. map_of (m_webhookEvents (au_store st')) k = Some e \<and> we_Status e \<in> {WebhookProcessed, WebhookDead}
      else map_of (m_webhookEvents (au_store st')) k = map_of (m_webhookEvents (au_store st)) k)"
  using assms(3-)
proof (induction n arbitrary: st)
  case 0
  then show ?case using drained_in_0 [of "au_store st"] by simp
next
  case (Suc n)
  obtain r st1 L where r: "RetryFailed p (rds n) 100 st = (r, st1)" "r \<noteq> Inr None" and ok: "ms_ok (au_store st1)"
    and L: "L \<subseteq> failed_keys (au_store st)" "failed_keys (au_store st) \<noteq> {} \<Longrightarrow> L \<noteq> {}"
      "card (failed_keys (au_store st)) \<le> 100 \<Longrightarrow> L = failed_keys (au_store st)"
    and hit: "\<And>k. k \<in> L \<Longrightarrow> \<exists>e e'. map_of (m_webhookEvents (au_store st)) k = Some e \<and>
      map_of (m_webhookEvents (au_store st1)) k = Some e' \<and> retried e e'"
    and miss: "\<And>k. k \<notin> L \<Longrightarrow> map_of (m_webhookEvents (au_store st1)) k = map_of (m_webhookEvents (au_store st)) k"
    using pass_effect [OF assms(1,2) Suc.prems(1,2), of "rds n"] by blast
  have less: "attempts_left (au_store st1) k < attempts_left (au_store st) k" if "k \<in> L" for k
    using hit [OF that] L(1) that retried_left by (fastforce simp: failed_keys_def)
  have same: "attempts_left (au_store st1) k = attempts_left (au_store st) k" if "k \<notin> L" for k
    using miss [OF that] by (simp add: attempts_left_def)
  have data: "has_data p (au_store st1)" unfolding has_data_def
  proof (intro allI impI)
    fix k e1 ev assume e1: "map_of (m_webhookEvents (au_store st1)) k = Some e1" "we_Status e1 = WebhookFailed"
      "p_event p (we_Payload e1) = Some ev"
    show "ev_Raw ev \<noteq> None"
    proof (cases "k \<in> L")
      case True
      then obtain e where "map_of (m_webhookEvents (au_store st)) k = Some e" "we_Status e = WebhookFailed" "we_Payload e1 = we_Payload e"
        using hit [OF True] L(1) e1(1) by (auto simp: failed_keys_def retried_def)
      then show ?thesis using Suc.prems(2) e1(3) by (auto simp: has_data_def)
    qed (use miss Suc.prems(2) e1 in \<open>auto simp: has_data_def\<close>)
  qed
  obtain st' where st': "retry_passes p rds n st1 = Some st'" "failed_keys (au_store st') = {}"
    and rows: "\<forall>k. if k \<in> failed_keys (au_store st1)
      then \<exists>e. map_of (m_webhookEvents (au_store st')) k = Some e \<and> we_Status e \<in> {WebhookProcessed, WebhookDead}
      else map_of (m_webhookEvents (au_store st')) k = map_of (m_webhookEvents (au_store st1)) k"
    using Suc.IH [OF ok data pass_drains [OF L less same Suc.prems(3)]] by blast
  have "if k \<in> failed_keys (au_store st)
      then \<exists>e. map_of (m_webhookEvents (au_store st')) k = Some e \<and> we_Status e \<in> {WebhookProcessed, WebhookDead}
      else map_of (m_webhookEvents (au_store st')) k = map_of (m_webhookEvents (au_store st)) k" for k
    using rows [THEN spec, of k] hit [of k] miss [of k] L(1)
    by (cases "k \<in> L") (auto simp: failed_keys_def retried_def split: if_splits)
  moreover have "retry_passes p rds (Suc n) st = Some st'"
    using r st'(1) by (auto split: sum.split option.split)
  ultimately show ?case using st'(2) by blast
qed

text \<open>
  C39. The retry worker drains its queue, whatever the handlers answer: with an API to ask, and failed events that
  carry data, no pass panics, and after enough passes no event is failed. Five passes are enough while there are no
  more failed events than a pass takes, five for each failed event are enough for any number. Every event that was
  failed is then processed or dead, and no other event was touched.
\<close>

theorem retry_drains:
  assumes "p_ops p = ms_ops" and "ms_ok (au_store st)" and "p_api p \<noteq> None"
    and "\<forall>k e. map_of (m_webhookEvents (au_store st)) k = Some e \<longrightarrow> we_Status e = WebhookFailed \<longrightarrow>
      0 \<le> we_Attempts e \<and> (\<forall>ev. p_event p (we_Payload e) = Some ev \<longrightarrow> ev_Raw ev \<noteq> None)"
    and "(if card (failed_keys (au_store st)) \<le> 100 then 5 else 5 * card (failed_keys (au_store st))) \<le> n"
  shows "\<exists>st'. retry_passes p rds n st = Some st' \<and> failed_keys (au_store st') = {} \<and>
    (\<forall>k. if k \<in> failed_keys (au_store st)
      then \<exists>e. map_of (m_webhookEvents (au_store st')) k = Some e \<and> we_Status e \<in> {WebhookProcessed, WebhookDead}
      else map_of (m_webhookEvents (au_store st')) k = map_of (m_webhookEvents (au_store st)) k)"
proof -
  have "0 \<le> we_Attempts e" if "map_of (m_webhookEvents (au_store st)) k = Some e" "we_Status e = WebhookFailed" for k e
    using assms(4) that by blast
  then have left: "attempts_left (au_store st) k \<le> 5" for k
    by (auto simp: attempts_left_def maxAttempts_def nat_le_iff split: option.split)
  have "has_data p (au_store st)" using assms(4) by (auto simp: has_data_def)
  moreover have "drained_in n (au_store st)"
  proof (cases "card (failed_keys (au_store st)) \<le> 100")
    case True
    then show ?thesis using assms(5) left by (auto simp: drained_in_def intro: le_trans)
  next
    case False
    then show ?thesis using assms(5) sum_bounded_above [of "failed_keys (au_store st)" "attempts_left (au_store st)" 5] left
      by (simp add: drained_in_def)
  qed
  ultimately show ?thesis using passes_drain [OF assms(1,3,2)] by blast
qed

definition ex_api :: stripe_api where
  "ex_api = \<lparr>sa_GetSubscription = (\<lambda>_. None), sa_ListSubscriptions = None, sa_CreateCheckoutSession = (\<lambda>_. None),
     sa_CreateBillingPortalSession = (\<lambda>_ _. None)\<rparr>"

definition ex_failed_state :: "(mem_store, mem_bp) auth_state" where
  "ex_failed_state = \<lparr>au_store = run ms_ops [InsertWebhookEventIfAbsent \<lparr>we_ID = ''evt1'', we_Type = ''checkout.session.completed'',
     we_Status = WebhookFailed, we_Attempts = 1, we_Payload = ''checkout.session.completed'', we_ReceivedAt = 5, we_ProcessedAt = 0\<rparr>]
     ex_store, au_bp = mem_New 60 4\<rparr>"

lemma ex_failed_rows:
  "m_webhookEvents (au_store ex_failed_state) = [(''evt1'', \<lparr>we_ID = ''evt1'', we_Type = ''checkout.session.completed'',
     we_Status = WebhookFailed, we_Attempts = 1, we_Payload = ''checkout.session.completed'', we_ReceivedAt = 5, we_ProcessedAt = 0\<rparr>)]"
  by code_simp

theorem retry_drains_witness:
  "\<exists>st'. retry_passes (ex_proc\<lparr>p_api := Some ex_api\<rparr>) (\<lambda>_ _. ex_rd) 5 ex_failed_state = Some st' \<and>
    ''evt1'' \<in> failed_keys (au_store ex_failed_state) \<and> failed_keys (au_store st') = {}"
proof -
  have ok: "ms_ok (au_store ex_failed_state)" unfolding ex_failed_state_def using ms.run_inv ex_store_ok by simp
  have keys: "failed_keys (au_store ex_failed_state) = {''evt1''}"
    by (auto simp: failed_keys_def ex_failed_rows split: if_splits)
  let ?p = "ex_proc\<lparr>p_api := Some ex_api\<rparr>"
  have "p_ops ?p = ms_ops" "p_api ?p \<noteq> None" by (simp_all add: ex_proc_def)
  moreover have "\<forall>k e. map_of (m_webhookEvents (au_store ex_failed_state)) k = Some e \<longrightarrow> we_Status e = WebhookFailed \<longrightarrow>
      0 \<le> we_Attempts e \<and> (\<forall>ev. p_event ?p (we_Payload e) = Some ev \<longrightarrow> ev_Raw ev \<noteq> None)"
    by (auto simp: ex_failed_rows ex_proc_def split: if_splits)
  moreover have "(if card (failed_keys (au_store ex_failed_state)) \<le> 100 then 5 else 5 * card (failed_keys (au_store ex_failed_state))) \<le> (5 :: nat)"
    by (simp add: keys)
  ultimately show ?thesis using retry_drains [of ?p ex_failed_state 5 "\<lambda>_ _. ex_rd"] ok keys by blast
qed

text \<open>
  Without an API the worker dies on a failed checkout that reaches the subscription: the pass panics, with the
  account already written.
\<close>

lemma retry_panics:
  assumes "p_api p = None" and "p_event p (we_Payload e) = Some ev" and "ev_Type ev = ''checkout.session.completed''"
    and "ev_Raw ev = Some raw" and "p_session p raw = Some cs" and "cs_Customer cs = Some cust" "cust \<noteq> ''''"
    and "cs_ClientReferenceID cs = acct" "acct \<noteq> ''''" and "cs_Subscription cs = Some sub" "sub \<noteq> ''''"
    and "st_UpsertAccount (p_ops p) \<lparr>acc_ID = acct, acc_StripeCustomerID = cust, acc_SecretHash = '''',
      acc_CreatedAt = r_now (rds i) 1\<rparr> (au_store st) = (None, s)"
  shows "retry_all p rds i (e # es) c st = (None, st\<lparr>au_store := s\<rparr>)"
  using assms by (simp add: retry_one_def dispatch_def handleCheckoutCompleted_def checkout_account_def customerIDOf_def
      subscriptionIDOf_def Let_def)

subsection \<open>Cancellation\<close>

definition subscription_licenses :: "db \<Rightarrow> string \<Rightarrow> string set" where
  "subscription_licenses d k = {i. \<exists>l. db_licenses d i = Some l \<and> lic_SubscriptionID l = k}"

definition licensed_pairs :: "db \<Rightarrow> string set \<Rightarrow> string set" where
  "licensed_pairs d L = {k. \<exists>q. db_pairings d k = Some q \<and> pr_Status q = PairingActive \<and> pr_LicenseID q \<in> L}"

text \<open>Revoking the pairings \<open>K\<close>; cutting off the licences \<open>L\<close>; telling the relays about each of the pairings \<open>ks\<close>.\<close>

definition revoke_pairs :: "string set \<Rightarrow> db \<Rightarrow> db" where
  "revoke_pairs K d = d\<lparr>db_pairings := (\<lambda>k. if k \<in> K then map_option (pr_Status_update (\<lambda>_. PairingRevoked)) (db_pairings d k)
     else db_pairings d k)\<rparr>"

definition revoke_licenses :: "string set \<Rightarrow> db \<Rightarrow> db" where
  "revoke_licenses L d = d\<lparr>db_licenses := (\<lambda>k. if k \<in> L then map_option (lic_Status_update (\<lambda>_. LicenseRevoked)) (db_licenses d k)
     else db_licenses d k)\<rparr>"

definition cut_off :: "string set \<Rightarrow> db \<Rightarrow> db" where
  "cut_off L d = revoke_pairs (licensed_pairs d L) (revoke_licenses L d)"

definition notify :: "'b bp_ops \<Rightarrow> string list \<Rightarrow> 'b \<Rightarrow> 'b" where
  "notify bps ks = fold (\<lambda>k b. snd (PublishRevocation bps \<lparr>re_PairID = k, re_AccountID = ''''\<rparr> b)) ks"

lemmas cut_defs = revoke_pairs_def revoke_licenses_def cut_off_def licensed_pairs_def

lemma revoke_pairs_union: "revoke_pairs K (revoke_pairs K' d) = revoke_pairs (K' \<union> K) d"
  by (auto simp: revoke_pairs_def option.map_comp comp_def fun_eq_iff intro!: arg_cong [where f = "\<lambda>f. db_pairings_update f d"])

lemma pairing_statuses [simp]: "PairingRevoked \<noteq> PairingActive"
  by (simp add: PairingRevoked_def PairingActive_def)

lemma licensed_pairs_cut: "licensed_pairs (cut_off L d) M = licensed_pairs d M - licensed_pairs d L"
  by (auto simp: cut_defs split: if_splits)

lemma cut_off_union: "cut_off M (cut_off L d) = cut_off (L \<union> M) d"
proof -
  have "licensed_pairs d L \<union> licensed_pairs (cut_off L d) M = licensed_pairs d (L \<union> M)"
    unfolding licensed_pairs_cut by (auto simp: licensed_pairs_def)
  moreover have "revoke_licenses M (revoke_pairs K (revoke_licenses L d)) = revoke_pairs K (revoke_licenses (L \<union> M) d)" for K
    by (auto simp: revoke_licenses_def revoke_pairs_def option.map_comp comp_def fun_eq_iff
      intro!: arg_cong [where f = "\<lambda>f. db_licenses_update f (db_pairings_update _ d)"])
  ultimately show ?thesis unfolding cut_off_def [of "L \<union> M" d] cut_off_def [of M]
    by (simp add: cut_off_def [of L d] revoke_pairs_union)
qed

lemma cut_off_empty [simp]: "cut_off {} d = d"
  by (simp add: cut_defs)

lemma cut_off_fields:
  "db_licenses (cut_off L d) = (\<lambda>i. if i \<in> L then map_option (lic_Status_update (\<lambda>_. LicenseRevoked)) (db_licenses d i)
     else db_licenses d i)"
  "db_pairings (cut_off L d) = (\<lambda>k. if k \<in> licensed_pairs d L
     then map_option (pr_Status_update (\<lambda>_. PairingRevoked)) (db_pairings d k) else db_pairings d k)"
  "db_subscriptions (cut_off L d) = db_subscriptions d"
  by (simp_all add: cut_off_def revoke_pairs_def revoke_licenses_def cong: if_cong)

lemma cut_cong:
  "db_licenses d = db_licenses d' \<Longrightarrow> subscription_licenses d k = subscription_licenses d' k"
  "db_pairings d = db_pairings d' \<Longrightarrow> licensed_pairs d L = licensed_pairs d' L"
  by (simp_all add: subscription_licenses_def licensed_pairs_def)

lemma listing_keys:
  assumes "listing (Inr vs) m key P" and "\<And>k v. m k = Some v \<Longrightarrow> key v = k"
  shows "key ` set vs = {k. \<exists>v. m k = Some v \<and> P v}"
proof -
  have "set vs = {v. \<exists>k. m k = Some v \<and> P v}" using assms(1) by (auto simp: listing_def ran_def)
  then show ?thesis using assms(2) by (auto simp: image_def)
qed

lemma notify_append: "notify bps (ks @ ls) b = notify bps ls (notify bps ks b)"
  by (simp add: notify_def)

context auth_store
begin

lemma cut_pairing_effect:
  assumes "p_ops p = ops" and "inv (au_store st)" and "cut_pairing p Revoked q st = (None, st')"
  shows "inv (au_store st') \<and> view (au_store st') = revoke_pairs {pr_PairID q} (view (au_store st)) \<and>
    au_bp st' = notify (p_bps p) [pr_PairID q] (au_bp st)"
proof -
  obtain s where s: "st_SetPairingStatus ops (pr_PairID q) PairingRevoked (au_store st) = (None, s)"
    and bp: "st' = \<lparr>au_store = s, au_bp = notify (p_bps p) [pr_PairID q] (au_bp st)\<rparr>"
    using assms(1,3) by (auto simp: cut_pairing_def notify_def split: prod.splits option.splits sum.splits)
  then have "exec ops (SetPairingStatus (pr_PairID q) PairingRevoked) (au_store st) = (Done, s)" by simp
  from write_None [OF assms(2) this] show ?thesis unfolding bp
    by (auto simp: row_defs revoke_pairs_def fun_upd_def split: option.splits
      intro!: arg_cong [where f = "\<lambda>f. db_pairings_update f _"] ext)
qed

lemma each_cut_effect:
  assumes "p_ops p = ops" and "inv (au_store st)" and "each (cut_pairing p Revoked) qs st = (None, st')"
  shows "inv (au_store st') \<and> view (au_store st') = revoke_pairs (pr_PairID ` set qs) (view (au_store st)) \<and>
    au_bp st' = notify (p_bps p) (map pr_PairID qs) (au_bp st)"
  using assms(2,3)
proof (induction qs arbitrary: st)
  case Nil
  then show ?case by (simp add: revoke_pairs_def notify_def)
next
  case (Cons q qs)
  obtain st1 where "cut_pairing p Revoked q st = (None, st1)" and more: "each (cut_pairing p Revoked) qs st1 = (None, st')"
    using Cons.prems(2) by (auto split: prod.splits option.splits)
  note one = cut_pairing_effect [OF assms(1) Cons.prems(1) this(1)]
  note ih = Cons.IH [OF conjunct1 [OF one] more]
  show ?case using ih one by (simp add: revoke_pairs_union notify_def)
qed

lemma cut_license_effect:
  assumes "p_ops p = ops" and "inv (au_store st)" and "cut_license p Revoked l st = (None, st')"
  obtains ks where "inv (au_store st')" and "view (au_store st') = cut_off {lic_ID l} (view (au_store st))"
    and "set ks = licensed_pairs (view (au_store st)) {lic_ID l}" and "au_bp st' = notify (p_bps p) ks (au_bp st)"
proof -
  obtain s qs where s: "st_SetLicenseStatus ops (lic_ID l) LicenseRevoked (au_store st) = (None, s)"
    and qs: "st_ListActivePairingsByLicense ops s (lic_ID l) = Inr qs"
    and each: "each (cut_pairing p Revoked) qs (st\<lparr>au_store := s\<rparr>) = (None, st')"
    using assms(1,3) by (auto simp: cut_license_def split: prod.splits option.splits sum.splits)
  have "exec ops (SetLicenseStatus (lic_ID l) LicenseRevoked) (au_store st) = (Done, s)" using s by simp
  from write_None [OF assms(2) this]
  have s': "inv s" "view s = revoke_licenses {lic_ID l} (view (au_store st))"
    by (auto simp: row_defs revoke_licenses_def fun_upd_def split: option.splits
      intro!: arg_cong [where f = "\<lambda>f. db_licenses_update f _"] ext)
  have "pr_PairID ` set qs = {k. \<exists>q. db_pairings (view s) k = Some q \<and> pr_LicenseID q = lic_ID l \<and> pr_Status q = PairingActive}"
    using list_pairings_license [OF s'(1), of "lic_ID l"] view_ok [OF s'(1)] unfolding qs
    by (intro listing_keys) (simp_all add: db_ok_def)
  then have set: "pr_PairID ` set qs = licensed_pairs (view (au_store st)) {lic_ID l}"
    by (auto simp: s'(2) licensed_pairs_def revoke_licenses_def)
  have "inv (au_store (st\<lparr>au_store := s\<rparr>))" using s'(1) by simp
  from each_cut_effect [OF assms(1) this each] show ?thesis
    using that [of "map pr_PairID qs"] s'(2) by (simp add: set cut_off_def)
qed

lemma each_cut_license_effect:
  assumes "p_ops p = ops" and "inv (au_store st)" and "each (cut_license p Revoked) ls st = (None, st')"
  shows "\<exists>ks. inv (au_store st') \<and> view (au_store st') = cut_off (lic_ID ` set ls) (view (au_store st)) \<and>
    set ks = licensed_pairs (view (au_store st)) (lic_ID ` set ls) \<and> au_bp st' = notify (p_bps p) ks (au_bp st)"
  using assms(2,3)
proof (induction ls arbitrary: st)
  case Nil
  then show ?case by (intro exI [of _ "[]"]) (simp add: licensed_pairs_def notify_def)
next
  case (Cons l ls)
  obtain st1 where "cut_license p Revoked l st = (None, st1)" and more: "each (cut_license p Revoked) ls st1 = (None, st')"
    using Cons.prems(2) by (auto split: prod.splits option.splits)
  from cut_license_effect [OF assms(1) Cons.prems(1) this(1)] obtain ks where
    one: "inv (au_store st1)" "view (au_store st1) = cut_off {lic_ID l} (view (au_store st))"
      "set ks = licensed_pairs (view (au_store st)) {lic_ID l}" "au_bp st1 = notify (p_bps p) ks (au_bp st)" .
  from Cons.IH [OF one(1) more] obtain ks' where
    two: "inv (au_store st')" "view (au_store st') = cut_off (lic_ID ` set ls) (view (au_store st1))"
      "set ks' = licensed_pairs (view (au_store st1)) (lic_ID ` set ls)" "au_bp st' = notify (p_bps p) ks' (au_bp st1)" by blast
  have "set (ks @ ks') = licensed_pairs (view (au_store st)) (lic_ID ` set (l # ls))"
    using one(3) two(3) unfolding one(2) licensed_pairs_cut by (auto simp: licensed_pairs_def)
  moreover have "view (au_store st') = cut_off (lic_ID ` set (l # ls)) (view (au_store st))"
    using two(2) one(2) by (simp add: cut_off_union)
  ultimately show ?case using one(4) two(1,4) by (intro exI [of _ "ks @ ks'"]) (simp add: notify_append)
qed

lemma enforce_effect:
  assumes "p_ops p = ops" and "inv (au_store st)" and "enforce p k Revoked st = (None, st')"
  shows "\<exists>ks. inv (au_store st') \<and>
    view (au_store st') = cut_off (subscription_licenses (view (au_store st)) k) (view (au_store st)) \<and>
    set ks = licensed_pairs (view (au_store st)) (subscription_licenses (view (au_store st)) k) \<and>
    au_bp st' = notify (p_bps p) ks (au_bp st)"
proof -
  obtain ls where ls: "st_ListLicensesBySubscription ops (au_store st) k = Inr ls"
    and each: "each (cut_license p Revoked) ls st = (None, st')"
    using assms(1,3) by (auto simp: enforce_def split: sum.splits)
  have "lic_ID ` set ls = subscription_licenses (view (au_store st)) k"
    using list_licenses_subscription [OF assms(2), of k] view_ok [OF assms(2)] unfolding ls subscription_licenses_def
    by (intro listing_keys) (simp_all add: db_ok_def)
  then show ?thesis using each_cut_license_effect [OF assms(1,2) each] by simp
qed

end


lemma resolveAccount_effect:
  assumes "resolveAccount p now rnd c s = (Inr k, s')"
  shows "steps (p_ops p) (\<lambda>x. \<exists>a. x = UpsertAccount a) s s'"
proof -
  have "st_UpsertAccount (p_ops p) a s = (e, t) \<Longrightarrow> steps (p_ops p) (\<lambda>x. \<exists>a. x = UpsertAccount a) s t" for a e t
    by (rule step_eqs; simp)
  then show ?thesis using assms
    by (auto simp: resolveAccount_def Let_def intro: steps_refl split: if_splits sum.splits prod.splits option.splits)
qed

lemma account_step_keeps:
  assumes "\<exists>a. x = UpsertAccount a"
  shows "db_pairings (snd (spec x d)) = db_pairings d \<and> db_licenses (snd (spec x d)) = db_licenses d \<and>
    db_subscriptions (snd (spec x d)) = db_subscriptions d"
  using assms by (auto simp: Let_def)

context auth_store
begin

lemma resolve_keeps:
  assumes "p_ops p = ops" and "inv s" and "resolveAccount p now rnd c s = (Inr k, s')"
  shows "inv s' \<and> db_pairings (view s') = db_pairings (view s) \<and> db_licenses (view s') = db_licenses (view s) \<and>
    db_subscriptions (view s') = db_subscriptions (view s)"
  using steps_keep [OF resolveAccount_effect [OF assms(3), unfolded assms(1)] assms(2),
      of "\<lambda>d. db_pairings d = db_pairings (view s) \<and> db_licenses d = db_licenses (view s) \<and>
        db_subscriptions d = db_subscriptions (view s)"] account_step_keeps
  by simp

lemma deleted_effect:
  assumes "p_ops p = ops" and "inv (au_store st)" and "Option.bind (ev_Raw ev) (p_subscription p) = Some sub"
    and "handleSubscriptionDeleted p rd ev st = (Fine, st')"
  shows "\<exists>ks m. inv (au_store st') \<and>
    db_subscriptions (view (au_store st')) = (db_subscriptions (view (au_store st)))(ss_ID sub \<mapsto> m) \<and> sub_Status m = SubCanceled \<and>
    db_licenses (view (au_store st')) = db_licenses (cut_off (subscription_licenses (view (au_store st)) (ss_ID sub)) (view (au_store st))) \<and>
    db_pairings (view (au_store st')) = db_pairings (cut_off (subscription_licenses (view (au_store st)) (ss_ID sub)) (view (au_store st))) \<and>
    set ks = licensed_pairs (view (au_store st)) (subscription_licenses (view (au_store st)) (ss_ID sub)) \<and>
    au_bp st' = notify (p_bps p) ks (au_bp st)"
proof -
  obtain k s s1 m where r: "resolveAccount p (r_now rd 0) (r_rand rd 0) (customerIDOf (ss_Customer sub)) (au_store st) = (Inr k, s)"
    and u: "st_UpsertSubscription ops m s = (None, s1)" and m: "sub_ID m = ss_ID sub" "sub_Status m = SubCanceled"
    and e: "enforce p (ss_ID sub) Revoked (st\<lparr>au_store := s1\<rparr>) = (None, st')"
    using assms(1,3,4)
    by (auto simp: handleSubscriptionDeleted_def ended_Fine split: prod.splits sum.splits option.splits)
  note s = resolve_keeps [OF assms(1,2) r]
  have "exec ops (UpsertSubscription m) s = (Done, s1)" using u by simp
  from write_None [OF conjunct1 [OF s] this]
  have s1: "inv (au_store (st\<lparr>au_store := s1\<rparr>))" "view s1 = (view s)\<lparr>db_subscriptions := (db_subscriptions (view s))(ss_ID sub \<mapsto> m)\<rparr>"
    using m by simp_all
  have kept: "db_pairings (view s1) = db_pairings (view (au_store st))" "db_licenses (view s1) = db_licenses (view (au_store st))"
    "db_subscriptions (view s1) = (db_subscriptions (view (au_store st)))(ss_ID sub \<mapsto> m)"
    using s by (simp_all add: s1(2))
  obtain ks where "inv (au_store st')" "view (au_store st') = cut_off (subscription_licenses (view s1) (ss_ID sub)) (view s1)"
    "set ks = licensed_pairs (view s1) (subscription_licenses (view s1) (ss_ID sub))" "au_bp st' = notify (p_bps p) ks (au_bp st)"
    using enforce_effect [OF assms(1) s1(1) e] by auto
  then show ?thesis using kept m(2)
    unfolding cut_cong(1) [OF kept(2)] cut_cong(2) [OF kept(1)]
    by (intro exI [of _ ks] exI [of _ m]) (simp add: cut_off_fields cut_cong(2) [OF kept(1)] cong: if_cong)
qed

end

lemma ms_rows:
  "map_of (m_subscriptions s) = db_subscriptions (ms_view s)" "map_of (m_licenses s) = db_licenses (ms_view s)"
  "map_of (m_pairings s) = db_pairings (ms_view s)"
  by (simp_all add: ms_view_def)

text \<open>
  C35. Cancelling a subscription cuts everything it pays for. When the handler of the deletion event succeeds, the
  mirrored subscription is cancelled, every licence of the subscription is revoked and every other licence kept;
  every active pairing under such a licence is revoked and every other pairing kept; and a revocation notice is
  published for exactly the pairings that were cut.
\<close>

theorem cancellation_cuts:
  assumes "p_ops p = ms_ops" and "ms_ok (au_store st)" and "Option.bind (ev_Raw ev) (p_subscription p) = Some sub"
    and "handleSubscriptionDeleted p rd ev st = (Fine, st')"
    and lics: "lics = subscription_licenses (ms_view (au_store st)) (ss_ID sub)"
    and pairs: "pairs = licensed_pairs (ms_view (au_store st)) lics"
  shows "map_option sub_Status (map_of (m_subscriptions (au_store st')) (ss_ID sub)) = Some SubCanceled \<and>
    (\<forall>i. map_of (m_licenses (au_store st')) i =
      (if i \<in> lics then map_option (lic_Status_update (\<lambda>_. LicenseRevoked)) (map_of (m_licenses (au_store st)) i)
       else map_of (m_licenses (au_store st)) i)) \<and>
    (\<forall>k. map_of (m_pairings (au_store st')) k =
      (if k \<in> pairs then map_option (pr_Status_update (\<lambda>_. PairingRevoked)) (map_of (m_pairings (au_store st)) k)
       else map_of (m_pairings (au_store st)) k)) \<and>
    (\<exists>ks. set ks = pairs \<and> au_bp st' = notify (p_bps p) ks (au_bp st))"
proof -
  obtain ks m where "db_subscriptions (ms_view (au_store st')) = (db_subscriptions (ms_view (au_store st)))(ss_ID sub \<mapsto> m)"
    "sub_Status m = SubCanceled" "set ks = pairs" "au_bp st' = notify (p_bps p) ks (au_bp st)"
    "db_licenses (ms_view (au_store st')) = db_licenses (cut_off lics (ms_view (au_store st)))"
    "db_pairings (ms_view (au_store st')) = db_pairings (cut_off lics (ms_view (au_store st)))"
    using ms.deleted_effect [OF assms(1-4)] unfolding lics [symmetric] pairs [symmetric] by blast
  then show ?thesis unfolding ms_rows pairs by (intro conjI exI [of _ ks]) (simp_all add: cut_off_fields)
qed


definition ex_cancel :: stripe_event where
  "ex_cancel = \<lparr>ev_ID = ''evt2'', ev_Type = ''customer.subscription.deleted'', ev_Raw = Some []\<rparr>"

lemma ex_cancelled: "fst (handleSubscriptionDeleted ex_proc ex_rd ex_cancel ex_state) = Fine"
  by code_simp

theorem cancellation_cuts_witness:
  "map_option pr_Status (map_of (m_pairings ex_store) ''p1'') = Some PairingActive \<and>
   map_option pr_Status (map_of (m_pairings (au_store (snd (handleSubscriptionDeleted ex_proc ex_rd ex_cancel ex_state)))) ''p1'')
     = Some PairingRevoked"
proof -
  have p1: "map_option (\<lambda>q. (pr_Status q, pr_LicenseID q)) (map_of (m_pairings ex_store) ''p1'') = Some (PairingActive, ''l1'')"
    and l1: "map_option lic_SubscriptionID (map_of (m_licenses ex_store) ''l1'') = Some ''sub1''" by code_simp+
  have "''p1'' \<in> licensed_pairs (ms_view ex_store) (subscription_licenses (ms_view ex_store) (ss_ID ex_sub))"
    using p1 l1 by (auto simp: licensed_pairs_def subscription_licenses_def ms_view_def ex_sub_def)
  moreover have "Option.bind (ev_Raw ex_cancel) (p_subscription ex_proc) = Some ex_sub" by (simp add: ex_proc_def ex_cancel_def)
  moreover have "handleSubscriptionDeleted ex_proc ex_rd ex_cancel ex_state
      = (Fine, snd (handleSubscriptionDeleted ex_proc ex_rd ex_cancel ex_state))"
    using ex_cancelled by (metis prod.collapse)
  ultimately show ?thesis
    using cancellation_cuts [of ex_proc ex_state ex_cancel ex_sub ex_rd] p1 ex_store_ok by (auto simp: ex_state_def)
qed

end
