(* ===== verification/Auth_Runs.thy ===== *)
theory Auth_Runs
  imports Auth_Server Billing_Laws
begin

section \<open>Runs of the auth service\<close>

text \<open>
  The auth service as a whole: requests to any endpoint from anybody, passes of the workers, sweeps and
  collections in any order. What every operation of the footprint keeps holds along every run.
\<close>

subsection \<open>Footprints of the workers\<close>

lemma retry_one_steps: "steps (p_ops p) (service_op N) (au_store st) (au_store (snd (retry_one p rd e st)))"
proof -
  have "steps (p_ops p) (service_op N) (au_store st) (au_store (snd (dispatch p rd ev st)))" for ev
    by (rule dispatch_service)
  moreover have mark: "steps (p_ops p) (service_op N) s (snd (st_SetWebhookStatus (p_ops p) k v n t s))" for s k v n t
    by (rule svc_step)
  ultimately have both: "steps (p_ops p) (service_op N) (au_store st)
      (snd (st_SetWebhookStatus (p_ops p) k v n t (au_store (snd (dispatch p rd ev st)))))" for ev k v n t
    by (rule steps_trans)
  show ?thesis
  proof (cases "p_event p (we_Payload e)")
    case (Some ev)
    obtain x st1 where "dispatch p rd ev st = (x, st1)" by fastforce
    then show ?thesis using Some both [of _ _ _ _ ev] dispatch_service [of p N st rd ev]
      by (cases x) (simp_all add: retry_one_def Let_def)
  qed (simp add: retry_one_def mark)
qed

lemma retry_all_steps: "steps (p_ops p) (service_op N) (au_store st) (au_store (snd (retry_all p rds i es c st)))"
proof (induction es arbitrary: i c st)
  case (Cons e es)
  obtain x st1 where r: "retry_one p (rds i) e st = (x, st1)" by fastforce
  then have "steps (p_ops p) (service_op N) (au_store st) (au_store st1)" using retry_one_steps [of p N st "rds i" e] by simp
  then show ?case using Cons.IH [of st1] r by (auto split: option.split intro: steps_trans)
qed (simp add: steps_refl)

lemma RetryFailed_steps: "steps (p_ops p) (service_op N) (au_store st) (au_store (snd (RetryFailed p rds n st)))"
  using retry_all_steps [of p N st] by (auto simp: RetryFailed_def steps_refl case_prod_beta split: sum.split)

lemma reconcile_all_steps:
  "steps (p_ops p) (service_op N) (au_store st) (au_store (snd (reconcile_all p rds i subs err st)))"
proof (induction subs arbitrary: i err st)
  case (Cons sub subs)
  obtain x s where x: "resolveAccount p (r_now (rds i) 0) (r_rand (rds i) 0) (customerIDOf (ss_Customer sub)) (au_store st) = (x, s)"
    by fastforce
  have a: "steps (p_ops p) (service_op N) (au_store st) s"
    using steps_mono [OF resolved_steps [OF x], of "service_op N"] billing_service by blast
  have b: "steps (p_ops p) (service_op N) s (au_store (snd (syncSubscription p (rds i) sub acct (st\<lparr>au_store := s\<rparr>))))" for acct
    using steps_mono [OF syncSubscription_steps [of p "st\<lparr>au_store := s\<rparr>" "rds i" sub acct], of "service_op N"] billing_service
    by simp
  show ?case
  proof (cases x)
    case (Inl err')
    then show ?thesis using x steps_trans [OF a] Cons.IH [of "st\<lparr>au_store := s\<rparr>"] by (simp add: Let_def)
  next
    case (Inr acct)
    obtain y st1 where y: "syncSubscription p (rds i) sub acct (st\<lparr>au_store := s\<rparr>) = (y, st1)" by fastforce
    have "steps (p_ops p) (service_op N) (au_store st) (au_store st1)" using steps_trans [OF a b [of acct]] y by simp
    then show ?thesis using x y Inr Cons.IH [of st1] by (auto simp: Let_def split: option.split intro: steps_trans)
  qed
qed (simp add: steps_refl)

lemma Reconcile_steps: "steps (p_ops p) (service_op N) (au_store st) (au_store (snd (Reconcile p rds st)))"
  using reconcile_all_steps [of p N st] by (auto simp: Reconcile_def steps_refl ended_snd split: option.split)

lemma worker_steps:
  assumes "runWorkers_turn p w st = Some st'"
  shows "steps (p_ops p) (service_op N) (au_store st) (au_store st')"
proof (cases w)
  case (Retry rds)
  obtain x st1 where "RetryFailed p rds 100 st = (x, st1)" by fastforce
  then show ?thesis using assms Retry RetryFailed_steps [of p N st rds 100] by (auto split: sum.splits option.splits)
next
  case (Heal rds)
  obtain x st1 where "Reconcile p rds st = (x, st1)" by fastforce
  then show ?thesis using assms Heal Reconcile_steps [of p N st rds] by (auto simp: steps_refl split: if_splits outcome.splits)
qed

subsection \<open>Runs\<close>

text \<open>
  \<open>auth_run e N C srv srv'\<close>: the server goes from \<open>srv\<close> to \<open>srv'\<close>. The refresh tokens issued on the way are stored
  under identifiers in \<open>N\<close>, and expired claims are collected at instants in \<open>C\<close>.
\<close>

inductive auth_run :: "('s, 'b, 'l) auth_env \<Rightarrow> string set \<Rightarrow> time set \<Rightarrow> ('s, 'b, 'l) auth_srv \<Rightarrow> ('s, 'b, 'l) auth_srv \<Rightarrow> bool"
  for e N C where
  run_start: "auth_run e N C srv srv"
| run_request: "auth_run e N C srv srv1 \<Longrightarrow> drawn (e_svc e) rd \<in> N \<Longrightarrow>
    auth_run e N C srv (snd (serve e meth path rd r srv1))"
| run_worker: "auth_run e N C srv srv1 \<Longrightarrow> runWorkers_turn (e_proc e) w (as_state srv1) = Some st \<Longrightarrow>
    auth_run e N C srv (srv1\<lparr>as_state := st\<rparr>)"
| run_sweep: "auth_run e N C srv srv1 \<Longrightarrow> auth_run e N C srv (srv1\<lparr>as_rl := rl_sweep now (as_rl srv1)\<rparr>)"
| run_collect: "auth_run e N C srv srv1 \<Longrightarrow> now \<in> C \<Longrightarrow>
    auth_run e N C srv (srv1\<lparr>as_state := (as_state srv1)\<lparr>au_store := collect (v_ops (e_svc e)) now (au_store (as_state srv1))\<rparr>\<rparr>)"

definition run_op :: "string set \<Rightarrow> time set \<Rightarrow> store_op \<Rightarrow> bool" where
  "run_op N C x \<longleftrightarrow> service_op N x \<or> (\<exists>t \<in> C. x = DeleteExpiredCheckoutClaims t)"

lemma collect_steps: "now \<in> C \<Longrightarrow> steps ops (run_op N C) s (collect ops now s)"
  using step_of_results(2) [of "run_op N C" now ops s] by (auto simp: collect_def run_op_def steps_refl split: sum.splits)

lemma auth_run_steps:
  assumes "auth_run e N C srv srv'" and "p_ops (e_proc e) = v_ops (e_svc e)"
  shows "steps (v_ops (e_svc e)) (run_op N C) (au_store (as_state srv)) (au_store (as_state srv'))"
  using assms(1)
proof induction
  case (run_request srv srv1 rd meth path r)
  have "steps (v_ops (e_svc e)) (service_op N) (au_store (as_state srv1)) (au_store (as_state (snd (serve e meth path rd r srv1))))"
    using serve_steps [OF assms(2) run_request(2), of meth path r srv1] by (metis prod.collapse)
  then have "steps (v_ops (e_svc e)) (run_op N C) (au_store (as_state srv1)) (au_store (as_state (snd (serve e meth path rd r srv1))))"
    by (rule steps_mono) (simp add: run_op_def)
  then show ?case using run_request(3) by (blast intro: steps_trans)
next
  case (run_worker srv srv1 w st)
  have "steps (v_ops (e_svc e)) (run_op N C) (au_store (as_state srv1)) (au_store st)"
    using steps_mono [OF worker_steps [OF run_worker(2), of N], of "run_op N C"] assms(2) by (simp add: run_op_def)
  then show ?case using run_worker(3) steps_trans by fastforce
next
  case (run_collect srv srv1 now)
  then show ?case using collect_steps [OF run_collect(2)] steps_trans by fastforce
qed (simp_all add: steps_refl)


subsection \<open>What runs keep\<close>

definition claims_loopback :: "db \<Rightarrow> bool" where
  "claims_loopback d \<longleftrightarrow> (\<forall>k c. db_checkoutClaims d k = Some c \<longrightarrow> validateLoopbackRedirect (cc_RedirectURI c))"

definition consumed_until :: "string \<Rightarrow> time \<Rightarrow> db \<Rightarrow> bool" where
  "consumed_until k t d \<longleftrightarrow> (\<exists>c. db_checkoutClaims d k = Some c \<and> cc_Status c = ClaimConsumed \<and> cc_ExpiresAt c = t)"

lemma ready_claim_keeps [simp]:
  "cc_RedirectURI (ready_claim a l u x c) = cc_RedirectURI c" "cc_ExpiresAt (ready_claim a l u x c) = cc_ExpiresAt c"
  by (simp_all add: ready_claim_def)

lemma ready_claim_consumed: "cc_Status c = ClaimConsumed \<Longrightarrow> ready_claim a l u x c = c"
  by (simp add: ready_claim_def)

lemma claims_loopback_step: "run_op N C x \<Longrightarrow> claims_loopback d \<Longrightarrow> claims_loopback (snd (spec x d))"
  by (cases x) (auto simp: run_op_def claims_loopback_def row_defs Let_def split: option.splits if_splits)

lemma consumed_until_step:
  "run_op N C x \<Longrightarrow> \<forall>t' \<in> C. t' \<le> t \<Longrightarrow> consumed_until k t d \<Longrightarrow> consumed_until k t (snd (spec x d))"
  by (cases x) (auto simp: run_op_def consumed_until_def row_defs Let_def ready_claim_consumed split: option.splits if_splits)

lemma run_op_quiet: "run_op N C x \<Longrightarrow> \<not> activates k x" "run_op N C x \<Longrightarrow> k \<notin> N \<Longrightarrow> \<not> reissues k x"
  by (cases x; auto simp: run_op_def)+

context auth_store
begin

lemma auth_run_keeps:
  assumes "auth_run e N C srv srv'" and "v_ops (e_svc e) = ops" and "p_ops (e_proc e) = ops"
    and "inv (au_store (as_state srv))" and "J (view (au_store (as_state srv)))"
    and "\<And>x d. run_op N C x \<Longrightarrow> db_ok d \<Longrightarrow> J d \<Longrightarrow> J (snd (spec x d))"
  shows "inv (au_store (as_state srv')) \<and> J (view (au_store (as_state srv')))"
  using steps_keep [of "run_op N C" "au_store (as_state srv)" "au_store (as_state srv')" J]
    auth_run_steps [OF assms(1)] assms(2-6) by simp

end

text \<open>
  C36. What is spent stays spent, whatever the service does. Along every run of the auth service (requests to any
  endpoint, retries, reconciliation, sweeps, collections) over the in-memory store: a refresh token that was used
  or revoked stays so unless a later draw collides with it, a pairing token that was used stays used, a pairing
  that was revoked never becomes active again, a recorded event stays recorded, and a claim that was handed out
  stays consumed until it has expired and is collected.
\<close>

theorem spent_stays_spent:
  assumes "auth_run e N C srv srv'" and "v_ops (e_svc e) = ms_ops" and "p_ops (e_proc e) = ms_ops"
    and "ms_ok (au_store (as_state srv))"
    and "d = ms_view (au_store (as_state srv))" and "d' = ms_view (au_store (as_state srv'))"
  shows "ms_ok (au_store (as_state srv')) \<and>
    (spent_refresh k d \<and> k \<notin> N \<longrightarrow> spent_refresh k d') \<and>
    (spent_pairing_token k d \<longrightarrow> spent_pairing_token k d') \<and>
    (revoked_pairing k d \<longrightarrow> revoked_pairing k d') \<and>
    (recorded_event k d \<longrightarrow> recorded_event k d') \<and>
    (consumed_until k t d \<and> (\<forall>t' \<in> C. t' \<le> t) \<longrightarrow> consumed_until k t d')"
proof -
  note keep = ms.auth_run_keeps [OF assms(1-4)]
  have "ms_ok (au_store (as_state srv'))" using keep [of "\<lambda>_. True"] by simp
  moreover have "spent_refresh k d'" if "spent_refresh k d" "k \<notin> N"
    using keep [of "spent_refresh k"] that spent_refresh_stays run_op_quiet(2) unfolding assms(5,6) by blast
  moreover have "spent_pairing_token k d'" if "spent_pairing_token k d"
    using keep [of "spent_pairing_token k"] that spent_pairing_token_stays unfolding assms(5,6) by blast
  moreover have "revoked_pairing k d'" if "revoked_pairing k d"
    using keep [of "revoked_pairing k"] that revoked_pairing_stays run_op_quiet(1) unfolding assms(5,6) by blast
  moreover have "recorded_event k d'" if "recorded_event k d"
    using keep [of "recorded_event k"] that recorded_event_stays unfolding assms(5,6) by blast
  moreover have "consumed_until k t d'" if "consumed_until k t d" "\<forall>t' \<in> C. t' \<le> t"
    using keep [of "consumed_until k t"] that consumed_until_step unfolding assms(5,6) by blast
  ultimately show ?thesis by blast
qed


subsection \<open>An example server\<close>

text \<open>
  Without billing, so that a checkout is ready at once: the example account and a checkout of another desktop.
\<close>

definition ex_env :: "(mem_store, mem_bp, unit) auth_env" where
  "ex_env = \<lparr>e_svc = ex_svc\<lparr>v_cfg := ex_cfg\<lparr>a_billingEnabled := False\<rparr>\<rparr>, e_proc = ex_proc,
     e_cfg = \<lparr>sc_ListenAddr = '':8081'', sc_MetricsAddr = '''', sc_TLSCertFile = '''', sc_TLSKeyFile = '''', sc_TLSMinVersion = ''1.3'',
       sc_ShutdownDrain = 0, sc_TrustProxy = False, sc_RateLimitEnabled = True, sc_RateLimitIPPerMin = 60, sc_RateLimitIPBurst = 10,
       sc_RateLimitAccountPerMin = 60, sc_RateLimitAccountBurst = 10\<rparr>,
     e_buckets = \<lparr>NewLimiter = (\<lambda>_ _. ()), bucket_Allow = (\<lambda>_ l. (True, l))\<rparr>, e_jwks = None, e_metricsPage = ''''\<rparr>"

lemma ex_env_ops [simp]: "v_ops (e_svc ex_env) = ms_ops" "p_ops (e_proc ex_env) = ms_ops"
  by (simp_all add: ex_env_def)

definition ex_nonce :: string where "ex_nonce = ''abcdefghijklmnopqrstuvwx''"

definition ex_start_req :: request where
  "ex_start_req = ex_post '''' [(''nonce'', ex_nonce), (''redirect_uri'', ''http://127.0.0.1:4242/cb?x=1'')]"

definition ex_srv0 :: "(mem_store, mem_bp, unit) auth_srv" where
  "ex_srv0 = NewServer (e_cfg ex_env) \<lparr>au_store = ms_New, au_bp = mem_New 60 4\<rparr>"

definition ex_srv1 :: "(mem_store, mem_bp, unit) auth_srv" where
  "ex_srv1 = snd (serve ex_env ''POST'' ''/v1/checkout/start'' ex_rd ex_start_req ex_srv0)"

lemma ex_srv1_run: "auth_run ex_env {drawn (e_svc ex_env) ex_rd} {} ex_srv0 ex_srv1"
  unfolding ex_srv1_def by (rule run_request [OF run_start]) simp

lemma ex_srv1_ok: "ms_ok (au_store (as_state ex_srv1))"
  using ms.auth_run_keeps [OF ex_srv1_run ex_env_ops, of "\<lambda>_. True"] ms_New_ok by (simp add: ex_srv0_def NewServer_def)

definition ex_unpaired_srv :: "(mem_store, mem_bp, unit) auth_srv" where
  "ex_unpaired_srv = snd (serve ex_env ''POST'' ''/v1/pairings/unpair'' ex_rd ex_unpair_req (NewServer (e_cfg ex_env) ex_state))"

lemma ex_unpaired_row: "map_option pr_Status (map_of (m_pairings (au_store (as_state ex_unpaired_srv))) ''p1'') = Some PairingRevoked"
  by code_simp

theorem spent_stays_spent_witness:
  "revoked_pairing ''p1'' (ms_view (au_store (as_state
     (snd (serve ex_env ''POST'' ''/v1/checkout/start'' ex_rd ex_start_req ex_unpaired_srv)))))"
proof -
  have "auth_run ex_env {drawn (e_svc ex_env) ex_rd} {} (NewServer (e_cfg ex_env) ex_state) ex_unpaired_srv"
    unfolding ex_unpaired_srv_def by (rule run_request [OF run_start]) simp
  then have ok: "ms_ok (au_store (as_state ex_unpaired_srv))"
    using ms.auth_run_keeps [OF _ ex_env_ops, of _ _ _ ex_unpaired_srv "\<lambda>_. True"] ex_store_ok by (auto simp: NewServer_def ex_state_def)
  have "auth_run ex_env {drawn (e_svc ex_env) ex_rd} {} ex_unpaired_srv
      (snd (serve ex_env ''POST'' ''/v1/checkout/start'' ex_rd ex_start_req ex_unpaired_srv))"
    by (rule run_request [OF run_start]) simp
  from spent_stays_spent [OF this ex_env_ops ok refl refl, of "''p1''"] ex_unpaired_row show ?thesis
    by (auto simp: revoked_pairing_def ms_view_def)
qed

subsection \<open>The claim code stays on the machine\<close>

context auth_store
begin

lemma return_redirects:
  assumes "v_ops v = ops" and "inv s" and "claims_loopback (view s)"
    and "handleCheckoutReturn v rd r s = ((n, RedirectTo u), s')"
  shows "leads_to_loopback u"
proof -
  obtain c code where "st_GetCheckoutClaim ops s (query_Get r ''nonce'') = Inr c"
    and u: "u = hexEscapeNonASCII (appendQuery (cc_RedirectURI c) ''claim_code'' code)"
    using assms(1,4) by (auto simp: handleCheckoutReturn_def Let_def split: sum.splits if_splits prod.splits option.splits)
  then have "db_checkoutClaims (view s) (query_Get r ''nonce'') = Some c"
    using get_claim [OF assms(2), of "query_Get r ''nonce''"] by simp
  then have "validateLoopbackRedirect (cc_RedirectURI c)" using assms(3) by (auto simp: claims_loopback_def)
  then show ?thesis unfolding u using appendQuery_loopback hexEscape_loopback by blast
qed

end

lemma serve_return:
  assumes "serve e ''GET'' ''/v1/checkout/return'' rd r srv = (Some resp, srv')"
  shows "resp = fst (handleCheckoutReturn (e_svc e) rd r (au_store (as_state srv)))"
  using assms by (auto simp: serve_def route_def routes_def limited_def on_store_def split: if_splits prod.splits)

text \<open>
  C37. A claim code never leaves the desktop's machine. In every state that the auth service reaches from an empty
  store, through any requests, a redirect that the return page of the checkout answers leads to a loopback
  address: its authority is \<^verbatim>\<open>localhost\<close>, a \<^verbatim>\<open>127/8\<close> address or \<^verbatim>\<open>::1\<close>, spelt in characters that no reader of URLs takes
  otherwise, and ends where the path, the query or the fragment begins.
\<close>

theorem claim_code_local:
  assumes "auth_run e N C (NewServer cfg \<lparr>au_store = ms_New, au_bp = b\<rparr>) srv"
    and "v_ops (e_svc e) = ms_ops" and "p_ops (e_proc e) = ms_ops"
    and "serve e ''GET'' ''/v1/checkout/return'' rd r srv = (Some (n, RedirectTo u), srv')"
  shows "leads_to_loopback u"
proof -
  have "ms_ok (au_store (as_state srv)) \<and> claims_loopback (ms_view (au_store (as_state srv)))"
    using ms.auth_run_keeps [OF assms(1-3), of claims_loopback] claims_loopback_step ms_New_ok
    by (simp add: NewServer_def claims_loopback_def ms_view_def ms_New_def)
  moreover have "handleCheckoutReturn (e_svc e) rd r (au_store (as_state srv))
      = ((n, RedirectTo u), snd (handleCheckoutReturn (e_svc e) rd r (au_store (as_state srv))))"
    using serve_return [OF assms(4)] by (metis prod.collapse)
  ultimately show ?thesis using ms.return_redirects [OF assms(2)] by blast
qed


subsection \<open>The account secret is handed out once\<close>

definition claim_found :: "('s, 'b) svc \<Rightarrow> request \<Rightarrow> 's \<Rightarrow> checkout_claim option" where
  "claim_found v r s =
     (case decodeJSON claimReq r of
        None \<Rightarrow> None
      | Some req \<Rightarrow>
          (if field req ''claim_code'' = '''' \<and> field req ''nonce'' = '''' then None
           else case find_claim v (field req ''claim_code'') (field req ''nonce'') s of Inl e \<Rightarrow> None | Inr c \<Rightarrow> Some c))"

lemma handleClaimAccount_found:
  "claim_found v r s = Some c \<Longrightarrow>
   handleClaimAccount v rd r s =
     (if cc_Status c = ClaimConsumed then (writeErr 409 ''claim_consumed'', s)
      else if cc_ExpiresAt c < r_now rd 0 then (writeErr 410 ''claim_expired'', s)
      else if cc_Status c = ClaimPending then ((202, StatusResp ''pending''), s)
      else case st_ConsumeCheckoutClaim (v_ops v) (cc_Nonce c) (r_now rd 1) s of
        (Inl e, s) \<Rightarrow> (if e = ErrConflict then writeErr 409 ''claim_consumed'' else writeErr 500 ''store_error'', s)
      | (Inr consumed, s) \<Rightarrow> hand_out v (r_rand rd 0) consumed s)"
  by (auto simp: claim_found_def handleClaimAccount_def Let_def split: option.splits sum.splits if_splits)

lemma handleClaimAccount_none: "claim_found v r s = None \<Longrightarrow> fst (fst (handleClaimAccount v rd r s)) \<noteq> 200"
  by (auto simp: claim_found_def handleClaimAccount_def Let_def writeErr_def split: option.splits sum.splits if_splits)

context auth_store
begin

lemma claim_found_row:
  assumes "v_ops v = ops" and "inv s" and "claim_found v r s = Some c"
  shows "db_checkoutClaims (view s) (cc_Nonce c) = Some c"
proof -
  obtain req where f: "find_claim v (field req ''claim_code'') (field req ''nonce'') s = Inr c"
    using assms(3) by (auto simp: claim_found_def split: option.splits sum.splits if_splits)
  show ?thesis
  proof (cases "field req ''claim_code'' = ''''")
    case True
    then have "db_checkoutClaims (view s) (field req ''nonce'') = Some c"
      using f get_claim [OF assms(2), of "field req ''nonce''"] assms(1) by (simp add: find_claim_def)
    then show ?thesis using view_ok [OF assms(2)] by (auto simp: db_ok_def)
  next
    case False
    then show ?thesis using f get_claim_code [OF assms(2)] assms(1) by (auto simp: find_claim_def)
  qed
qed

lemma claim_success:
  assumes "v_ops v = ops" and "inv s" and "handleClaimAccount v rd r s = ((200, b), s')"
  obtains c secret where "claim_found v r s = Some c" and "\<not> cc_ExpiresAt c < r_now rd 0" and "inv s'"
    and "consumed_until (cc_Nonce c) (cc_ExpiresAt c) (view s')"
    and "b = ClaimResp (cc_AccountID c) secret (cc_LicenseID c) (cc_SubscriptionID c)"
    and "\<exists>a. db_accounts (view s') (cc_AccountID c) = Some a \<and> (acc_SecretHash a = hashSecret (v_sha256 v) secret \<or> hashSecret (v_sha256 v) secret = '''')"
proof -
  obtain c where c: "claim_found v r s = Some c" using assms(3) handleClaimAccount_none [of v r s rd] by (cases "claim_found v r s") auto
  note row = claim_found_row [OF assms(1,2) c]
  have live: "cc_Status c \<noteq> ClaimConsumed" "\<not> cc_ExpiresAt c < r_now rd 0" "cc_Status c \<noteq> ClaimPending"
    using assms(3) unfolding handleClaimAccount_found [OF c] by (auto simp: writeErr_def split: if_splits)
  then obtain c1 s1 where consume: "st_ConsumeCheckoutClaim ops (cc_Nonce c) (r_now rd 1) s = (Inr c1, s1)"
    and out: "hand_out v (r_rand rd 0) c1 s1 = ((200, b), s')"
    using assms(1,3) unfolding handleClaimAccount_found [OF c] by (auto simp: writeErr_def split: prod.splits sum.splits if_splits)
  have "exec ops (ConsumeCheckoutClaim (cc_Nonce c) (r_now rd 1)) s = (Row c1, s1)" using consume by simp
  from exec_spec [OF assms(2) this] have s1: "inv s1" and c1: "c1 = c\<lparr>cc_Status := ClaimConsumed, cc_ConsumedAt := r_now rd 1\<rparr>"
    and v1: "db_checkoutClaims (view s1) (cc_Nonce c) = Some c1"
    using row by (auto simp: Let_def split: if_splits)
  define secret where "secret = newAccountSecret (cc_AccountID c) (r_rand rd 0)"
  define a where "a = \<lparr>acc_ID = cc_AccountID c, acc_StripeCustomerID = '''', acc_SecretHash = hashSecret (v_sha256 v) secret, acc_CreatedAt = 0\<rparr>"
  have up: "st_UpsertAccount ops a s1 = (None, s')"
    and b: "b = ClaimResp (cc_AccountID c) secret (cc_LicenseID c) (cc_SubscriptionID c)"
    using out assms(1) by (auto simp: hand_out_def c1 secret_def a_def Let_def writeErr_def split: prod.splits option.splits)
  have "exec ops (UpsertAccount a) s1 = (Done, s')" using up by simp
  from write_None [OF s1 this] have s': "inv s'" "view s' = snd (spec (UpsertAccount a) (view s1))" by simp_all
  show ?thesis
  proof (rule that [OF c live(2) s'(1) _ b])
    show "consumed_until (cc_Nonce c) (cc_ExpiresAt c) (view s')"
      using v1 by (simp add: consumed_until_def s'(2) Let_def c1)
    show "\<exists>x. db_accounts (view s') (cc_AccountID c) = Some x \<and>
        (acc_SecretHash x = hashSecret (v_sha256 v) secret \<or> hashSecret (v_sha256 v) secret = '''')"
      by (simp add: s'(2) Let_def a_def merge_account_def split: option.split)
  qed
qed

end

lemma serve_claim:
  assumes "serve e ''POST'' ''/v1/accounts/claim'' rd r srv = (Some (200, b), srv')"
  shows "handleClaimAccount (e_svc e) rd r (au_store (as_state srv)) = ((200, b), au_store (as_state srv'))"
  using assms by (auto simp: serve_def route_def routes_def on_store_def tooManyRequests_def writeErr_def
    split: if_splits prod.splits bool.splits)

text \<open>
  C38. An account secret is handed out exactly once per checkout. When a claim is answered with a secret, the claim
  was ready and not expired, the answer names the account, licence and subscription of the claim, and the account
  now authenticates by that secret's digest. Afterwards, along any run of the service that does not collect the
  claim before it expires, every request for the same claim, by its nonce or by a code, is refused as consumed.
\<close>

theorem account_secret_once:
  assumes "v_ops (e_svc e) = ms_ops" and "p_ops (e_proc e) = ms_ops" and "ms_ok (au_store (as_state srv))"
    and "\<And>x. v_sha256 (e_svc e) x \<noteq> ''''"
    and "serve e ''POST'' ''/v1/accounts/claim'' rd r srv = (Some (200, b), srv1)"
  shows "\<exists>c secret. claim_found (e_svc e) r (au_store (as_state srv)) = Some c \<and> r_now rd 0 \<le> cc_ExpiresAt c \<and>
    b = ClaimResp (cc_AccountID c) secret (cc_LicenseID c) (cc_SubscriptionID c) \<and>
    map_option acc_SecretHash (map_of (m_accounts (au_store (as_state srv1))) (cc_AccountID c)) =
      Some (hashSecret (v_sha256 (e_svc e)) secret) \<and>
    (\<forall>N C srv2 rd' r' c'. auth_run e N C srv1 srv2 \<longrightarrow> (\<forall>t \<in> C. t \<le> cc_ExpiresAt c) \<longrightarrow>
       claim_found (e_svc e) r' (au_store (as_state srv2)) = Some c' \<longrightarrow> cc_Nonce c' = cc_Nonce c \<longrightarrow>
       fst (handleClaimAccount (e_svc e) rd' r' (au_store (as_state srv2))) = (409, ErrorBody ''claim_consumed''))"
proof -
  obtain c secret where c: "claim_found (e_svc e) r (au_store (as_state srv)) = Some c" "\<not> cc_ExpiresAt c < r_now rd 0"
    "ms_ok (au_store (as_state srv1))" "consumed_until (cc_Nonce c) (cc_ExpiresAt c) (ms_view (au_store (as_state srv1)))"
    "b = ClaimResp (cc_AccountID c) secret (cc_LicenseID c) (cc_SubscriptionID c)"
    "\<exists>a. db_accounts (ms_view (au_store (as_state srv1))) (cc_AccountID c) = Some a \<and>
      (acc_SecretHash a = hashSecret (v_sha256 (e_svc e)) secret \<or> hashSecret (v_sha256 (e_svc e)) secret = '''')"
    using ms.claim_success [OF assms(1,3) serve_claim [OF assms(5)]] .
  have "hashSecret (v_sha256 (e_svc e)) secret \<noteq> ''''"
    using assms(4) by (rule hash_nonempty)
  then have "map_option acc_SecretHash (map_of (m_accounts (au_store (as_state srv1))) (cc_AccountID c)) =
      Some (hashSecret (v_sha256 (e_svc e)) secret)" using c(6) by (auto simp: ms_view_def)
  moreover have "fst (handleClaimAccount (e_svc e) rd' r' (au_store (as_state srv2))) = (409, ErrorBody ''claim_consumed'')"
    if "auth_run e N C srv1 srv2" "\<forall>t \<in> C. t \<le> cc_ExpiresAt c"
      "claim_found (e_svc e) r' (au_store (as_state srv2)) = Some c'" "cc_Nonce c' = cc_Nonce c" for N C srv2 rd' r' c'
  proof -
    have "ms_ok (au_store (as_state srv2)) \<and> consumed_until (cc_Nonce c) (cc_ExpiresAt c) (ms_view (au_store (as_state srv2)))"
      using ms.auth_run_keeps [OF that(1) assms(1,2) c(3), of "consumed_until (cc_Nonce c) (cc_ExpiresAt c)"] c(4)
        consumed_until_step [OF _ that(2)] by blast
    moreover from this have "db_checkoutClaims (ms_view (au_store (as_state srv2))) (cc_Nonce c') = Some c'"
      using ms.claim_found_row [OF assms(1) _ that(3)] by blast
    ultimately have "cc_Status c' = ClaimConsumed" using that(4) by (auto simp: consumed_until_def)
    then show ?thesis using handleClaimAccount_found [OF that(3)] by (simp add: writeErr_def)
  qed
  ultimately show ?thesis using c(1,2,5) by (intro exI [of _ c] exI [of _ secret]) auto
qed


definition ex_return_req :: request where "ex_return_req = (ex_post '''' [])\<lparr>rq_query := [(''nonce'', ex_nonce)]\<rparr>"

definition ex_claim :: checkout_claim where
  "ex_claim = \<lparr>cc_Nonce = ex_nonce, cc_StripeSessionID = '''', cc_RedirectURI = ''http://127.0.0.1:4242/cb?x=1'',
     cc_ClaimCodeHash = hashSecret (v_sha256 ex_svc) (NewID ''clm'' (r_rand ex_rd 3)), cc_AccountID = NewID ''acct'' (r_rand ex_rd 0),
     cc_LicenseID = NewKey (r_rand ex_rd 2), cc_SubscriptionID = NewID ''sub'' (r_rand ex_rd 1), cc_Status = ClaimReady,
     cc_CreatedAt = 1000, cc_ExpiresAt = 1000 + 30 * minute, cc_ConsumedAt = 0\<rparr>"

lemma ex_srv1_claims: "m_checkoutClaims (au_store (as_state ex_srv1)) = [(ex_nonce, ex_claim)]"
  by code_simp

lemma ex_srv1_claim [simp]: "ms_GetCheckoutClaim (au_store (as_state ex_srv1)) ex_nonce = Inr ex_claim"
  by (simp add: ms_GetCheckoutClaim_def ex_srv1_claims found_def)

lemma ex_statuses [simp]: "ClaimReady \<noteq> ClaimConsumed" "ClaimReady \<noteq> ClaimPending"
  by (simp_all add: ClaimReady_def ClaimConsumed_def ClaimPending_def)

theorem claim_code_local_witness:
  "\<exists>u. fst (serve ex_env ''GET'' ''/v1/checkout/return'' ex_rd ex_return_req ex_srv1) = Some (302, RedirectTo u) \<and> leads_to_loopback u"
proof -
  let ?u = "hexEscapeNonASCII (appendQuery ''http://127.0.0.1:4242/cb?x=1'' ''claim_code'' (NewID ''clm'' (r_rand ex_rd 0)))"
  have "fst (handleCheckoutReturn (e_svc ex_env) ex_rd ex_return_req (au_store (as_state ex_srv1))) = (302, RedirectTo ?u)"
    by (simp add: Let_def handleCheckoutReturn_def query_Get_def ex_return_req_def ex_claim_def ex_rd_def ms_SetCheckoutClaimCode_def
      ex_srv1_claims minute_def second_def)
  then have "fst (serve ex_env ''GET'' ''/v1/checkout/return'' ex_rd ex_return_req ex_srv1) = Some (302, RedirectTo ?u)"
    by (cases "handleCheckoutReturn (e_svc ex_env) ex_rd ex_return_req (au_store (as_state ex_srv1))")
      (simp add: serve_def route_def routes_def limited_def on_store_def)
  moreover from this obtain srv' where
    "serve ex_env ''GET'' ''/v1/checkout/return'' ex_rd ex_return_req ex_srv1 = (Some (302, RedirectTo ?u), srv')"
    by (metis prod.collapse)
  ultimately show ?thesis using claim_code_local [OF ex_srv1_run [unfolded ex_srv0_def] ex_env_ops] by blast
qed

definition ex_claim_req :: request where "ex_claim_req = ex_post '''' [(''nonce'', ex_nonce)]"

lemma ex_claim_decoded: "\<exists>req. decodeJSON claimReq ex_claim_req = Some req \<and> field req ''claim_code'' = '''' \<and> field req ''nonce'' = ex_nonce"
proof -
  have "(case decodeJSON claimReq ex_claim_req of Some req \<Rightarrow> field req ''claim_code'' = '''' \<and> field req ''nonce'' = ex_nonce | None \<Rightarrow> False)"
    by code_simp
  then show ?thesis by (auto split: option.splits)
qed

lemma ex_claim_lookup:
  "claim_found (e_svc ex_env) ex_claim_req s = (case ms_GetCheckoutClaim s ex_nonce of Inl e \<Rightarrow> None | Inr c \<Rightarrow> Some c)"
  using ex_claim_decoded by (auto simp: claim_found_def find_claim_def ex_nonce_def)

definition ex_srv2 :: "(mem_store, mem_bp, unit) auth_srv" where
  "ex_srv2 = snd (serve ex_env ''POST'' ''/v1/accounts/claim'' ex_rd ex_claim_req ex_srv1)"

lemma ex_not_limited: "\<exists>rl. limit (e_buckets ex_env) t r rl0 = (True, rl)"
  by (auto simp: limit_def Allow_def ex_env_def Let_def split: option.splits)

lemma hand_out_mem:
  "v_ops v = ms_ops \<Longrightarrow> \<exists>b s'. hand_out v rnd c s = ((200, b), s') \<and> m_checkoutClaims s' = m_checkoutClaims s"
  by (simp add: hand_out_def ms_UpsertAccount_def Let_def)

lemma ex_claimed:
  "(\<exists>b. serve ex_env ''POST'' ''/v1/accounts/claim'' ex_rd ex_claim_req ex_srv1 = (Some (200, b), ex_srv2)) \<and>
   ms_GetCheckoutClaim (au_store (as_state ex_srv2)) ex_nonce = Inr (ex_claim\<lparr>cc_Status := ClaimConsumed, cc_ConsumedAt := 1001\<rparr>)"
proof -
  have found: "claim_found (e_svc ex_env) ex_claim_req (au_store (as_state ex_srv1)) = Some ex_claim" by (simp add: ex_claim_lookup)
  have consumed: "ms_ConsumeCheckoutClaim ex_nonce 1001 (au_store (as_state ex_srv1)) =
      (Inr (ex_claim\<lparr>cc_Status := ClaimConsumed, cc_ConsumedAt := 1001\<rparr>),
       au_store (as_state ex_srv1)\<lparr>m_checkoutClaims := [(ex_nonce, ex_claim\<lparr>cc_Status := ClaimConsumed, cc_ConsumedAt := 1001\<rparr>)]\<rparr>)"
    by (simp add: ms_ConsumeCheckoutClaim_def ex_srv1_claims ex_claim_def Let_def)

  have fields: "cc_Status ex_claim = ClaimReady" "cc_Nonce ex_claim = ex_nonce" "\<not> cc_ExpiresAt ex_claim < r_now ex_rd 0" "r_now ex_rd (Suc 0) = 1001"
    by (simp_all add: ex_claim_def ex_rd_def minute_def second_def)
  define x where "x = handleClaimAccount (e_svc ex_env) ex_rd ex_claim_req (au_store (as_state ex_srv1))"
  have x: "x = hand_out (e_svc ex_env) (r_rand ex_rd 0) (ex_claim\<lparr>cc_Status := ClaimConsumed, cc_ConsumedAt := 1001\<rparr>)
      (snd (ms_ConsumeCheckoutClaim ex_nonce 1001 (au_store (as_state ex_srv1))))"
    unfolding x_def handleClaimAccount_found [OF found]
    using fields by (simp add: consumed)
  obtain b s' where b: "x = ((200, b), s')" and s': "m_checkoutClaims s' = [(ex_nonce, ex_claim\<lparr>cc_Status := ClaimConsumed, cc_ConsumedAt := 1001\<rparr>)]"
    using hand_out_mem [OF ex_env_ops(1), of "r_rand ex_rd 0" "ex_claim\<lparr>cc_Status := ClaimConsumed, cc_ConsumedAt := 1001\<rparr>"
      "snd (ms_ConsumeCheckoutClaim ex_nonce 1001 (au_store (as_state ex_srv1)))"] x consumed by auto
  obtain rl where "limit (e_buckets ex_env) (r_wall ex_rd) ex_claim_req (as_rl ex_srv1) = (True, rl)"
    using ex_not_limited by blast
  then have "serve ex_env ''POST'' ''/v1/accounts/claim'' ex_rd ex_claim_req ex_srv1 =
      (Some (200, b), \<lparr>as_state = as_state ex_srv1\<lparr>au_store := s'\<rparr>, as_rl = rl\<rparr>)"
    using b [unfolded x_def] by (simp add: serve_def route_def routes_def limited_def on_store_def)
  then show ?thesis by (simp add: ex_srv2_def ms_GetCheckoutClaim_def found_def s')
qed

theorem account_secret_once_witness:
  "fst (handleClaimAccount (e_svc ex_env) ex_rd ex_claim_req (au_store (as_state ex_srv2))) = (409, ErrorBody ''claim_consumed'')"
proof -
  obtain b where "serve ex_env ''POST'' ''/v1/accounts/claim'' ex_rd ex_claim_req ex_srv1 = (Some (200, b), ex_srv2)"
    using ex_claimed by blast
  moreover have "v_sha256 (e_svc ex_env) x \<noteq> ''''" for x by (simp add: ex_env_def ex_svc_def)
  ultimately obtain c where c: "claim_found (e_svc ex_env) ex_claim_req (au_store (as_state ex_srv1)) = Some c"
    and once: "\<forall>N C srv2 rd' r' c'. auth_run ex_env N C ex_srv2 srv2 \<longrightarrow> (\<forall>t \<in> C. t \<le> cc_ExpiresAt c) \<longrightarrow>
       claim_found (e_svc ex_env) r' (au_store (as_state srv2)) = Some c' \<longrightarrow> cc_Nonce c' = cc_Nonce c \<longrightarrow>
       fst (handleClaimAccount (e_svc ex_env) rd' r' (au_store (as_state srv2))) = (409, ErrorBody ''claim_consumed'')"
    using account_secret_once [OF ex_env_ops ex_srv1_ok, of ex_rd ex_claim_req b ex_srv2] by blast
  have "c = ex_claim" using c by (simp add: ex_claim_lookup)
  then show ?thesis
    using once [rule_format, OF run_start, of "{}" ex_claim_req "ex_claim\<lparr>cc_Status := ClaimConsumed, cc_ConsumedAt := 1001\<rparr>" ex_rd]
      ex_claimed by (simp add: ex_claim_lookup)
qed

end
