(* ===== verification/Env.thy ===== *)
theory Env
  imports License Url
begin

section \<open>Reading the environment\<close>

text \<open>
  What the two configuration packages use of the standard library: \<^verbatim>\<open>strconv.ParseBool\<close> and
  \<^verbatim>\<open>time.ParseDuration\<close> (\<^verbatim>\<open>strconv.Atoi\<close> is in the theory of the licences). Every place of the two packages that
  reports an error has a constructor of its own.
\<close>

type_synonym getenv = "string \<Rightarrow> string"

definition ParseBool :: "string \<Rightarrow> bool option" where
  "ParseBool s =
     (if s \<in> {''1'', ''t'', ''T'', ''true'', ''TRUE'', ''True''} then Some True
      else if s \<in> {''0'', ''f'', ''F'', ''false'', ''FALSE'', ''False''} then Some False
      else None)"

subsection \<open>Floating point\<close>

text \<open>
  The fraction of a duration is computed in \<^verbatim>\<open>float64\<close>. The operands and results are between \<open>10 ^ - 19\<close> and \<open>2 ^ 63\<close>,
  so rounding to 53 significant bits, ties to even, is all of IEEE arithmetic that shows. A number is a fraction of
  two positive integers.
\<close>

fun bit_len :: "int \<Rightarrow> nat" where
  "bit_len n = (if n \<le> 0 then 0 else Suc (bit_len (n div 2)))"

declare bit_len.simps [simp del]

definition round_even :: "int \<Rightarrow> int \<Rightarrow> int" where
  "round_even a b =
     (let q = a div b; r = a mod b in if 2 * r < b then q else if 2 * r > b then q + 1 else q + q mod 2)"

definition scaled :: "int \<Rightarrow> int \<times> int \<Rightarrow> int \<times> int" where
  "scaled e x = (case x of (a, b) \<Rightarrow> if e \<ge> 0 then (a, b * 2 ^ nat e) else (a * 2 ^ nat (- e), b))"

definition float64 :: "int \<times> int \<Rightarrow> int \<times> int" where
  "float64 x =
     (case x of (a, b) \<Rightarrow>
        let e0 = int (bit_len a) - int (bit_len b) - 53;
            e = (case scaled e0 (a, b) of (m, n) \<Rightarrow> if m \<ge> 2 ^ 53 * n then e0 + 1 else e0)
        in case scaled e (a, b) of (m, n) \<Rightarrow> scaled (- e) (round_even m n, 1))"

definition float_mult :: "int \<times> int \<Rightarrow> int \<times> int \<Rightarrow> int \<times> int" where
  "float_mult x y = float64 (fst x * fst y, snd x * snd y)"

definition float_divide :: "int \<times> int \<Rightarrow> int \<times> int \<Rightarrow> int \<times> int" where
  "float_divide x y = float64 (fst x * snd y, snd x * fst y)"

subsection \<open>Durations\<close>

fun leadingInt :: "int \<Rightarrow> string \<Rightarrow> (int \<times> string) option" where
  "leadingInt x [] = Some (x, [])"
| "leadingInt x (c # s) =
     (if \<not> is_digit c then Some (x, c # s)
      else if x > 922337203685477580 then None
      else let x = x * 10 + (of_char c - 48) in if x > 9223372036854775808 then None else leadingInt x s)"

fun leadingFraction :: "int \<Rightarrow> int \<Rightarrow> bool \<Rightarrow> string \<Rightarrow> int \<times> int \<times> string" where
  "leadingFraction x scale overflow [] = (x, scale, [])"
| "leadingFraction x scale overflow (c # s) =
     (if \<not> is_digit c then (x, scale, c # s)
      else if overflow \<or> x > 922337203685477580 then leadingFraction x scale True s
      else let y = x * 10 + (of_char c - 48)
           in if y > 9223372036854775808 then leadingFraction x scale True s else leadingFraction y (scale * 10) False s)"

definition unitMap :: "(string \<times> int) list" where
  "unitMap =
     [(''ns'', 1), (''us'', 1000), ([CHR 0xC2, CHR 0xB5, CHR ''s''], 1000), ([CHR 0xCE, CHR 0xBC, CHR ''s''], 1000),
      (''ms'', 1000000), (''s'', 1000000000), (''m'', 60000000000), (''h'', 3600000000000)]"

definition term_char :: "char \<Rightarrow> bool" where "term_char c \<longleftrightarrow> c = CHR ''.'' \<or> is_digit c"

text \<open>One number with its unit, in nanoseconds, and what follows it.\<close>

definition duration_term :: "string \<Rightarrow> (int \<times> string) option" where
  "duration_term s =
     (if s = [] \<or> \<not> term_char (hd s) then None
      else case leadingInt 0 s of
        None \<Rightarrow> None
      | Some (v, s1) \<Rightarrow>
          (let (f, scale, s2) = (if s1 \<noteq> [] \<and> hd s1 = CHR ''.'' then leadingFraction 0 1 False (tl s1) else (0, 1, s1));
               pre = (s1 \<noteq> s); post = (s1 \<noteq> [] \<and> hd s1 = CHR ''.'' \<and> s2 \<noteq> tl s1);
               u = takeWhile (\<lambda>c. \<not> term_char c) s2; rest = dropWhile (\<lambda>c. \<not> term_char c) s2
           in if \<not> pre \<and> \<not> post then None
              else if u = [] then None
              else case map_of unitMap u of
                None \<Rightarrow> None
              | Some unit \<Rightarrow>
                  (if v > 9223372036854775808 div unit then None
                   else let frac = (if f > 0
                              then (case float_mult (float64 (f, 1)) (float_divide (unit, 1) (scale, 1)) of (m, n) \<Rightarrow> m div n)
                              else 0);
                            v = v * unit + frac
                        in if v > 9223372036854775808 then None else Some (v, rest))))"

lemma leadingInt_length: "leadingInt x s = Some (v, r) \<Longrightarrow> length r \<le> length s"
  by (induction x s arbitrary: v r rule: leadingInt.induct) (force simp: Let_def split: if_splits)+

lemma leadingFraction_length: "leadingFraction x k b s = (f, c, r) \<Longrightarrow> length r \<le> length s"
  by (induction x k b s arbitrary: f c r rule: leadingFraction.induct) (force simp: Let_def split: if_splits)+

lemma duration_term_shorter: "duration_term s = Some (v, r) \<Longrightarrow> length r < length s"
proof -
  assume "duration_term s = Some (v, r)"
  then obtain w s1 f k s2 where s1: "leadingInt 0 s = Some (w, s1)"
    and s2: "(if s1 \<noteq> [] \<and> hd s1 = CHR ''.'' then leadingFraction 0 1 False (tl s1) else (0, 1, s1)) = (f, k, s2)"
    and u: "takeWhile (\<lambda>c. \<not> term_char c) s2 \<noteq> []" and r: "r = dropWhile (\<lambda>c. \<not> term_char c) s2"
    by (auto simp: duration_term_def Let_def split: if_splits option.splits prod.splits)
  have "length s2 \<le> length s1" using s2 leadingFraction_length by (fastforce split: if_splits)
  moreover have "length r < length s2" using u unfolding r
    by (metis length_append length_greater_0_conv less_add_same_cancel2 takeWhile_dropWhile_id)
  ultimately show ?thesis using leadingInt_length [OF s1] by simp
qed

text \<open>The sum of the terms wraps around at 64 bits before it is compared, as in the library.\<close>

function duration_terms :: "int \<Rightarrow> string \<Rightarrow> int option" where
  "duration_terms d s =
     (if s = [] then Some d
      else case duration_term s of
        None \<Rightarrow> None
      | Some (v, r) \<Rightarrow> (let d = (d + v) mod 18446744073709551616 in if d > 9223372036854775808 then None else duration_terms d r))"
  by pat_completeness auto

termination
  by (relation "measure (\<lambda>(d, s). length s)") (auto simp: duration_term_shorter)

declare duration_terms.simps [simp del]

definition ParseDuration :: "string \<Rightarrow> duration option" where
  "ParseDuration orig =
     (let neg = (orig \<noteq> [] \<and> hd orig = CHR ''-''); s = (if orig \<noteq> [] \<and> hd orig \<in> {CHR ''-'', CHR ''+''} then tl orig else orig)
      in if s = ''0'' then Some 0
         else if s = '''' then None
         else case duration_terms 0 s of
           None \<Rightarrow> None
         | Some d \<Rightarrow> (if neg then Some (- d) else if d > max_int64 then None else Some d))"

lemma duration_terms_bound:
  "duration_terms d s = Some n \<Longrightarrow> 0 \<le> d \<and> d \<le> 9223372036854775808 \<Longrightarrow> 0 \<le> n \<and> n \<le> 9223372036854775808"
proof (induction d s rule: duration_terms.induct)
  case (1 d s)
  show ?case
  proof (cases "s = []")
    case True
    then show ?thesis using 1(2,3) by (simp add: duration_terms.simps)
  next
    case False
    then obtain v r where "duration_term s = Some (v, r)" and "\<not> (d + v) mod 18446744073709551616 > 9223372036854775808"
      and "duration_terms ((d + v) mod 18446744073709551616) r = Some n"
      using 1(2) by (subst (asm) duration_terms.simps) (auto simp: Let_def split: option.splits if_splits)
    then show ?thesis using 1(1) [OF False, of "(v, r)" v r "(d + v) mod 18446744073709551616"] by simp
  qed
qed

lemma ParseDuration_bounds: "ParseDuration s = Some d \<Longrightarrow> min_int64 \<le> d \<and> d \<le> max_int64"
  by (auto simp: ParseDuration_def Let_def min_int64_def max_int64_def split: if_splits option.splits dest!: duration_terms_bound)

lemma Atoi_bounds: "Atoi s = Some n \<Longrightarrow> min_int64 \<le> n \<and> n \<le> max_int64"
  by (auto simp: Atoi_def Let_def split: if_splits)

subsection \<open>Errors\<close>

datatype config_error =
  BadValue string
| Required string
| KeySourceRequired
| KeySourcesExclusive
| NoAlgs
| UnsupportedAlg string
| BadJWTAlg string
| StripeNotConfigured
| StripeIncomplete "string list"
| TLSFilesTogether
| BadTLSVersion string
| BadStore string
| BadBackplane string
| NotPositive string
| PairingTTLRange
| SlotTTLTooShort duration duration
| IPLimitNotPositive
| AccountLimitNotPositive
| MetricsAddrMalformed string
| MetricsAddrTaken
| BadLogLevel string
| BadLogFormat string

end
