(* ===== verification/Config.thy ===== *)
theory Config
  imports Env
begin

section \<open>The configuration of the relay\<close>

text \<open>
  Models \<^verbatim>\<open>internal/config/config.go\<close>. The environment is a function from names to values, empty when a variable is
  not set. A helper that fails gives the default and the error, as in the code; loading gives every error found or
  the configuration. \<^verbatim>\<open>2*c.PingInterval\<close> is computed in \<^verbatim>\<open>int64\<close>.
\<close>

definition BackplaneMemory :: string where "BackplaneMemory = ''memory''"
definition BackplaneRedis :: string where "BackplaneRedis = ''redis''"

record config =
  cf_ListenAddr :: string
  cf_MetricsAddr :: string
  cf_InstanceID :: string
  cf_TLSCertFile :: string
  cf_TLSKeyFile :: string
  cf_TLSMinVersion :: string
  cf_TrustProxy :: bool
  cf_JWTIssuer :: string
  cf_JWTAudience :: string
  cf_JWTAlgs :: "string list"
  cf_JWKSURL :: string
  cf_JWTPublicKeyFile :: string
  cf_JWTLeeway :: duration
  cf_MaxMessageBytes :: int
  cf_PingInterval :: duration
  cf_PongTimeout :: duration
  cf_OutQueueSize :: int
  cf_SlotTTL :: duration
  cf_Backplane :: string
  cf_RedisAddr :: string
  cf_RedisPassword :: string
  cf_RedisDB :: int
  cf_RateLimitEnabled :: bool
  cf_RateLimitIPPerMin :: int
  cf_RateLimitIPBurst :: int
  cf_AbuseStrikeThreshold :: int
  cf_AbuseStrikeWindow :: duration
  cf_AbuseBanWindow :: duration
  cf_ShutdownDrain :: duration
  cf_LogLevel :: string
  cf_LogFormat :: string

subsection \<open>Reading a variable\<close>

definition str :: "getenv \<Rightarrow> string \<Rightarrow> string \<Rightarrow> string" where
  "str getenv key def = (let v = getenv key in if v \<noteq> '''' then v else def)"

definition strList :: "getenv \<Rightarrow> string \<Rightarrow> string list \<Rightarrow> string list" where
  "strList getenv key def =
     (let v = getenv key
      in if v = '''' then def
         else filter (\<lambda>p. p \<noteq> '''') (map TrimSpace (split_on CHR '','' v)))"

definition boolean :: "getenv \<Rightarrow> string \<Rightarrow> bool \<Rightarrow> bool \<times> config_error list" where
  "boolean getenv key def =
     (let v = getenv key
      in if v = '''' then (def, [])
         else case ParseBool v of None \<Rightarrow> (def, [BadValue key]) | Some b \<Rightarrow> (b, []))"

definition integer :: "getenv \<Rightarrow> string \<Rightarrow> int \<Rightarrow> int \<times> config_error list" where
  "integer getenv key def =
     (let v = getenv key
      in if v = '''' then (def, [])
         else case Atoi v of None \<Rightarrow> (def, [BadValue key]) | Some n \<Rightarrow> (n, []))"

text \<open>\<^verbatim>\<open>strconv.ParseInt(v, 10, 64)\<close> is what \<^verbatim>\<open>strconv.Atoi\<close> does on a 64-bit platform.\<close>

definition bytesize :: "getenv \<Rightarrow> string \<Rightarrow> int \<Rightarrow> int \<times> config_error list" where
  "bytesize getenv key def =
     (let v = getenv key
      in if v = '''' then (def, [])
         else case Atoi v of None \<Rightarrow> (def, [BadValue key]) | Some n \<Rightarrow> (n, []))"

definition duration :: "getenv \<Rightarrow> string \<Rightarrow> duration \<Rightarrow> duration \<times> config_error list" where
  "duration getenv key def =
     (let v = getenv key
      in if v = '''' then (def, [])
         else case ParseDuration v of None \<Rightarrow> (def, [BadValue key]) | Some d \<Rightarrow> (d, []))"

subsection \<open>Validation\<close>

definition unless :: "bool \<Rightarrow> config_error \<Rightarrow> config_error list" where
  "unless ok e = (if ok then [] else [e])"

definition metrics_addr_errors :: "string \<Rightarrow> string \<Rightarrow> config_error list" where
  "metrics_addr_errors metricsAddr listenAddr =
     (if metricsAddr = '''' then []
      else unless (SplitHostPort metricsAddr \<noteq> None) (MetricsAddrMalformed metricsAddr) @
        unless (metricsAddr \<noteq> listenAddr) MetricsAddrTaken)"

definition config_validate :: "config \<Rightarrow> config_error list" where
  "config_validate c =
     unless (cf_JWTIssuer c \<noteq> '''') (Required ''RELAY_JWT_ISSUER'') @
     unless (\<not> (cf_JWKSURL c = '''' \<and> cf_JWTPublicKeyFile c = '''')) KeySourceRequired @
     unless (\<not> (cf_JWKSURL c \<noteq> '''' \<and> cf_JWTPublicKeyFile c \<noteq> '''')) KeySourcesExclusive @
     unless (cf_JWTAlgs c \<noteq> []) NoAlgs @
     concat (map (\<lambda>a. unless (a \<in> {''ES256'', ''ES384'', ''ES512'', ''EdDSA''}) (UnsupportedAlg a)) (cf_JWTAlgs c)) @
     unless ((cf_TLSCertFile c = '''') = (cf_TLSKeyFile c = '''')) TLSFilesTogether @
     unless (cf_TLSMinVersion c \<in> {''1.2'', ''1.3''}) (BadTLSVersion (cf_TLSMinVersion c)) @
     (if cf_Backplane c = BackplaneMemory then []
      else if cf_Backplane c = BackplaneRedis then unless (cf_RedisAddr c \<noteq> '''') (Required ''RELAY_REDIS_ADDR'')
      else [BadBackplane (cf_Backplane c)]) @
     unless (\<not> cf_MaxMessageBytes c \<le> 0) (NotPositive ''RELAY_MAX_MESSAGE_BYTES'') @
     unless (\<not> cf_OutQueueSize c \<le> 0) (NotPositive ''RELAY_OUT_QUEUE_SIZE'') @
     unless (\<not> cf_PingInterval c \<le> 0) (NotPositive ''RELAY_PING_INTERVAL'') @
     unless (\<not> cf_SlotTTL c \<le> wrap64 (2 * cf_PingInterval c)) (SlotTTLTooShort (cf_SlotTTL c) (cf_PingInterval c)) @
     (if cf_RateLimitEnabled c
      then unless (\<not> (cf_RateLimitIPPerMin c \<le> 0 \<or> cf_RateLimitIPBurst c \<le> 0)) IPLimitNotPositive else []) @
     metrics_addr_errors (cf_MetricsAddr c) (cf_ListenAddr c) @
     unless (cf_LogLevel c \<in> {''debug'', ''info'', ''warn'', ''error''}) (BadLogLevel (cf_LogLevel c)) @
     unless (cf_LogFormat c \<in> {''json'', ''text''}) (BadLogFormat (cf_LogFormat c))"

subsection \<open>Loading\<close>

definition config_values :: "getenv \<Rightarrow> config" where
  "config_values getenv =
     \<lparr>cf_ListenAddr = str getenv ''RELAY_LISTEN_ADDR'' '':8443'',
       cf_MetricsAddr = str getenv ''RELAY_METRICS_ADDR'' '''',
       cf_InstanceID = str getenv ''RELAY_INSTANCE_ID'' '''',
       cf_TLSCertFile = str getenv ''RELAY_TLS_CERT_FILE'' '''',
       cf_TLSKeyFile = str getenv ''RELAY_TLS_KEY_FILE'' '''',
       cf_TLSMinVersion = str getenv ''RELAY_TLS_MIN_VERSION'' ''1.2'',
       cf_TrustProxy = fst (boolean getenv ''RELAY_TRUST_PROXY'' False),
       cf_JWTIssuer = str getenv ''RELAY_JWT_ISSUER'' '''',
       cf_JWTAudience = str getenv ''RELAY_JWT_AUDIENCE'' ''relay'',
       cf_JWTAlgs = strList getenv ''RELAY_JWT_ALGS'' [''ES256'', ''EdDSA''],
       cf_JWKSURL = str getenv ''RELAY_JWKS_URL'' '''',
       cf_JWTPublicKeyFile = str getenv ''RELAY_JWT_PUBLIC_KEY_FILE'' '''',
       cf_JWTLeeway = fst (duration getenv ''RELAY_JWT_LEEWAY'' (30 * second)),
       cf_MaxMessageBytes = fst (bytesize getenv ''RELAY_MAX_MESSAGE_BYTES'' (256 * 1024)),
       cf_PingInterval = fst (duration getenv ''RELAY_PING_INTERVAL'' (25 * second)),
       cf_PongTimeout = fst (duration getenv ''RELAY_PONG_TIMEOUT'' (25 * second)),
       cf_OutQueueSize = fst (integer getenv ''RELAY_OUT_QUEUE_SIZE'' 64),
       cf_SlotTTL = fst (duration getenv ''RELAY_SLOT_TTL'' (60 * second)),
       cf_Backplane = str getenv ''RELAY_BACKPLANE'' BackplaneMemory,
       cf_RedisAddr = str getenv ''RELAY_REDIS_ADDR'' '''',
       cf_RedisPassword = str getenv ''RELAY_REDIS_PASSWORD'' '''',
       cf_RedisDB = fst (integer getenv ''RELAY_REDIS_DB'' 0),
       cf_RateLimitEnabled = fst (boolean getenv ''RELAY_RATELIMIT_ENABLED'' True),
       cf_RateLimitIPPerMin = fst (integer getenv ''RELAY_RATELIMIT_IP_PER_MIN'' 120),
       cf_RateLimitIPBurst = fst (integer getenv ''RELAY_RATELIMIT_IP_BURST'' 60),
       cf_AbuseStrikeThreshold = fst (integer getenv ''RELAY_ABUSE_STRIKE_THRESHOLD'' 10),
       cf_AbuseStrikeWindow = fst (duration getenv ''RELAY_ABUSE_STRIKE_WINDOW'' minute),
       cf_AbuseBanWindow = fst (duration getenv ''RELAY_ABUSE_BAN_WINDOW'' (15 * minute)),
       cf_ShutdownDrain = fst (duration getenv ''RELAY_SHUTDOWN_DRAIN'' (30 * second)),
       cf_LogLevel = str getenv ''RELAY_LOG_LEVEL'' ''info'',
       cf_LogFormat = str getenv ''RELAY_LOG_FORMAT'' ''json''\<rparr>"

definition config_parse_errors :: "getenv \<Rightarrow> config_error list" where
  "config_parse_errors getenv =
     snd (boolean getenv ''RELAY_TRUST_PROXY'' False) @
     snd (boolean getenv ''RELAY_RATELIMIT_ENABLED'' True) @
     snd (duration getenv ''RELAY_JWT_LEEWAY'' (30 * second)) @
     snd (bytesize getenv ''RELAY_MAX_MESSAGE_BYTES'' (256 * 1024)) @
     snd (duration getenv ''RELAY_PING_INTERVAL'' (25 * second)) @
     snd (duration getenv ''RELAY_PONG_TIMEOUT'' (25 * second)) @
     snd (integer getenv ''RELAY_OUT_QUEUE_SIZE'' 64) @
     snd (duration getenv ''RELAY_SLOT_TTL'' (60 * second)) @
     snd (integer getenv ''RELAY_REDIS_DB'' 0) @
     snd (duration getenv ''RELAY_SHUTDOWN_DRAIN'' (30 * second)) @
     snd (integer getenv ''RELAY_RATELIMIT_IP_PER_MIN'' 120) @
     snd (integer getenv ''RELAY_RATELIMIT_IP_BURST'' 60) @
     snd (integer getenv ''RELAY_ABUSE_STRIKE_THRESHOLD'' 10) @
     snd (duration getenv ''RELAY_ABUSE_STRIKE_WINDOW'' minute) @
     snd (duration getenv ''RELAY_ABUSE_BAN_WINDOW'' (15 * minute))"

definition config_loadFrom :: "getenv \<Rightarrow> config_error list + config" where
  "config_loadFrom getenv =
     (let c = config_values getenv; errs = config_parse_errors getenv @ config_validate c
      in if errs \<noteq> [] then Inl errs else Inr c)"

lemma unless_Nil [simp]: "unless ok e = [] \<longleftrightarrow> ok"
  by (simp add: unless_def)

lemma variable_read:
  "snd (boolean g k x) = [] \<longleftrightarrow> g k = '''' \<or> ParseBool (g k) \<noteq> None"
  "snd (integer g k n) = [] \<longleftrightarrow> g k = '''' \<or> Atoi (g k) \<noteq> None"
  "snd (bytesize g k n) = [] \<longleftrightarrow> g k = '''' \<or> Atoi (g k) \<noteq> None"
  "snd (duration g k d) = [] \<longleftrightarrow> g k = '''' \<or> ParseDuration (g k) \<noteq> None"
  by (auto simp: boolean_def integer_def bytesize_def duration_def Let_def split: option.splits)

lemma duration_bounds: "min_int64 \<le> d \<Longrightarrow> d \<le> max_int64 \<Longrightarrow> min_int64 \<le> fst (duration g k d) \<and> fst (duration g k d) \<le> max_int64"
  using ParseDuration_bounds by (auto simp: duration_def Let_def split: option.splits)

lemma config_loaded:
  assumes "config_loadFrom g = Inr c"
  shows "config_validate c = []" and "cf_JWTAudience c \<noteq> ''''"
    and "cf_PingInterval c \<le> max_int64"
    and "cf_SlotTTL c \<le> max_int64"
proof -
  have c: "c = config_values g" and "config_validate c = []"
    using assms by (auto simp: config_loadFrom_def Let_def split: if_splits)
  then show "config_validate c = []" by simp
  show "cf_JWTAudience c \<noteq> ''''" by (simp add: c config_values_def str_def Let_def)
  show "cf_PingInterval c \<le> max_int64" "cf_SlotTTL c \<le> max_int64"
    using duration_bounds [of "25 * second"] duration_bounds [of "60 * second"]
    by (simp_all add: c config_values_def go_defs)
qed

end
