(* ===== verification/Auth_Config.thy ===== *)
theory Auth_Config
  imports Config
begin

section \<open>The configuration of the auth service\<close>

text \<open>
  Models \<^verbatim>\<open>internal/authconfig/config.go\<close>. Its helpers differ from those of the relay in that truth values and
  numbers may be surrounded by white space. \<^verbatim>\<open>validate\<close> also decides whether billing is on, so it gives the
  configuration back.
\<close>

definition StoreMemory :: string where "StoreMemory = ''memory''"
definition StorePostgres :: string where "StorePostgres = ''postgres''"

record auth_config =
  ac_ListenAddr :: string
  ac_MetricsAddr :: string
  ac_InstanceID :: string
  ac_TLSCertFile :: string
  ac_TLSKeyFile :: string
  ac_TLSMinVersion :: string
  ac_Store :: string
  ac_DBDSN :: string
  ac_Backplane :: string
  ac_RedisAddr :: string
  ac_RedisPassword :: string
  ac_RedisDB :: int
  ac_JWTIssuer :: string
  ac_JWTAudience :: string
  ac_JWTAlg :: string
  ac_JWTKID :: string
  ac_SigningKeyFile :: string
  ac_TokenTTL :: duration
  ac_RefreshTTL :: duration
  ac_PairingTokenTTL :: duration
  ac_RelayURL :: string
  ac_PublicURL :: string
  ac_GracePeriod :: duration
  ac_AdminKey :: string
  ac_StripeSecretKey :: string
  ac_StripeWebhookSecret :: string
  ac_StripePriceID :: string
  ac_ReconcileInterval :: duration
  ac_BillingDisabled :: bool
  ac_StripeEnabled :: bool
  ac_ClaimTTL :: duration
  ac_TrustProxy :: bool
  ac_RateLimitEnabled :: bool
  ac_RateLimitIPPerMin :: int
  ac_RateLimitIPBurst :: int
  ac_RateLimitAccountPerMin :: int
  ac_RateLimitAccountBurst :: int
  ac_ShutdownDrain :: duration
  ac_LogLevel :: string
  ac_LogFormat :: string

definition auth_boolean :: "getenv \<Rightarrow> string \<Rightarrow> bool \<Rightarrow> bool \<times> config_error list" where
  "auth_boolean getenv key def =
     (let v = getenv key
      in if v = '''' then (def, [])
         else case ParseBool (TrimSpace v) of None \<Rightarrow> (def, [BadValue key]) | Some b \<Rightarrow> (b, []))"

definition auth_integer :: "getenv \<Rightarrow> string \<Rightarrow> int \<Rightarrow> int \<times> config_error list" where
  "auth_integer getenv key def =
     (let v = getenv key
      in if v = '''' then (def, [])
         else case Atoi (TrimSpace v) of None \<Rightarrow> (def, [BadValue key]) | Some n \<Rightarrow> (n, []))"

definition auth_duration :: "getenv \<Rightarrow> string \<Rightarrow> duration \<Rightarrow> duration \<times> config_error list" where
  "auth_duration getenv key def =
     (let v = getenv key
      in if v = '''' then (def, [])
         else case ParseDuration v of None \<Rightarrow> (def, [BadValue key]) | Some d \<Rightarrow> (d, []))"

subsection \<open>Billing is all or none\<close>

definition stripeVarsSet :: "auth_config \<Rightarrow> nat" where
  "stripeVarsSet c = length (filter (\<lambda>v. v \<noteq> '''') [ac_StripeWebhookSecret c, ac_StripeSecretKey c, ac_StripePriceID c])"

definition missingStripeVars :: "auth_config \<Rightarrow> string list" where
  "missingStripeVars c =
     (if ac_StripeWebhookSecret c = '''' then [''AUTH_STRIPE_WEBHOOK_SECRET''] else []) @
     (if ac_StripeSecretKey c = '''' then [''AUTH_STRIPE_SECRET_KEY''] else []) @
     (if ac_StripePriceID c = '''' then [''AUTH_STRIPE_PRICE_ID''] else [])"

definition stripe_errors :: "auth_config \<Rightarrow> config_error list" where
  "stripe_errors c =
     (if stripeVarsSet c = 3 then unless (ac_PublicURL c \<noteq> '''') (Required ''AUTH_PUBLIC_URL'')
      else if stripeVarsSet c = 0 then unless (ac_BillingDisabled c) StripeNotConfigured
      else [StripeIncomplete (missingStripeVars c)])"

definition auth_validate :: "auth_config \<Rightarrow> config_error list \<times> auth_config" where
  "auth_validate c =
     (unless (ac_JWTIssuer c \<noteq> '''') (Required ''AUTH_JWT_ISSUER'') @
      unless (ac_SigningKeyFile c \<noteq> '''') (Required ''AUTH_JWT_SIGNING_KEY_FILE'') @
      unless (ac_JWTAlg c \<in> {''ES256'', ''EdDSA''}) (BadJWTAlg (ac_JWTAlg c)) @
      stripe_errors c @
      unless ((ac_TLSCertFile c = '''') = (ac_TLSKeyFile c = '''')) TLSFilesTogether @
      unless (ac_TLSMinVersion c \<in> {''1.2'', ''1.3''}) (BadTLSVersion (ac_TLSMinVersion c)) @
      (if ac_Store c = StoreMemory then []
       else if ac_Store c = StorePostgres then unless (ac_DBDSN c \<noteq> '''') (Required ''AUTH_DB_DSN'')
       else [BadStore (ac_Store c)]) @
      (if ac_Backplane c = BackplaneMemory then []
       else if ac_Backplane c = BackplaneRedis then unless (ac_RedisAddr c \<noteq> '''') (Required ''AUTH_REDIS_ADDR'')
       else [BadBackplane (ac_Backplane c)]) @
      unless (\<not> ac_TokenTTL c \<le> 0) (NotPositive ''AUTH_TOKEN_TTL'') @
      unless (\<not> ac_RefreshTTL c \<le> 0) (NotPositive ''AUTH_REFRESH_TTL'') @
      unless (\<not> (ac_PairingTokenTTL c \<le> 0 \<or> ac_PairingTokenTTL c > 5 * minute)) PairingTTLRange @
      (if ac_RateLimitEnabled c
       then unless (\<not> (ac_RateLimitIPPerMin c \<le> 0 \<or> ac_RateLimitIPBurst c \<le> 0)) IPLimitNotPositive @
         unless (\<not> (ac_RateLimitAccountPerMin c \<le> 0 \<or> ac_RateLimitAccountBurst c \<le> 0)) AccountLimitNotPositive
       else []) @
      metrics_addr_errors (ac_MetricsAddr c) (ac_ListenAddr c) @
      unless (ac_LogLevel c \<in> {''debug'', ''info'', ''warn'', ''error''}) (BadLogLevel (ac_LogLevel c)) @
      unless (ac_LogFormat c \<in> {''json'', ''text''}) (BadLogFormat (ac_LogFormat c)),
      c\<lparr>ac_StripeEnabled := (stripeVarsSet c = 3)\<rparr>)"

subsection \<open>Loading\<close>

definition auth_config_values :: "getenv \<Rightarrow> auth_config" where
  "auth_config_values getenv =
     \<lparr>ac_ListenAddr = str getenv ''AUTH_LISTEN_ADDR'' '':8080'',
       ac_MetricsAddr = str getenv ''AUTH_METRICS_ADDR'' '''',
       ac_InstanceID = str getenv ''AUTH_INSTANCE_ID'' '''',
       ac_TLSCertFile = str getenv ''AUTH_TLS_CERT_FILE'' '''',
       ac_TLSKeyFile = str getenv ''AUTH_TLS_KEY_FILE'' '''',
       ac_TLSMinVersion = str getenv ''AUTH_TLS_MIN_VERSION'' ''1.2'',
       ac_Store = str getenv ''AUTH_STORE'' StoreMemory,
       ac_DBDSN = str getenv ''AUTH_DB_DSN'' '''',
       ac_Backplane = str getenv ''AUTH_BACKPLANE'' BackplaneMemory,
       ac_RedisAddr = str getenv ''AUTH_REDIS_ADDR'' '''',
       ac_RedisPassword = str getenv ''AUTH_REDIS_PASSWORD'' '''',
       ac_RedisDB = fst (auth_integer getenv ''AUTH_REDIS_DB'' 0),
       ac_JWTIssuer = str getenv ''AUTH_JWT_ISSUER'' '''',
       ac_JWTAudience = str getenv ''AUTH_JWT_AUDIENCE'' ''relay'',
       ac_JWTAlg = str getenv ''AUTH_JWT_ALG'' ''ES256'',
       ac_JWTKID = str getenv ''AUTH_JWT_KID'' ''auth-1'',
       ac_SigningKeyFile = str getenv ''AUTH_JWT_SIGNING_KEY_FILE'' '''',
       ac_TokenTTL = fst (auth_duration getenv ''AUTH_TOKEN_TTL'' (10 * minute)),
       ac_RefreshTTL = fst (auth_duration getenv ''AUTH_REFRESH_TTL'' (720 * hour)),
       ac_PairingTokenTTL = fst (auth_duration getenv ''AUTH_PAIRING_TOKEN_TTL'' (5 * minute)),
       ac_RelayURL = str getenv ''AUTH_RELAY_URL'' '''',
       ac_PublicURL = str getenv ''AUTH_PUBLIC_URL'' '''',
       ac_GracePeriod = fst (auth_duration getenv ''AUTH_GRACE_PERIOD'' (168 * hour)),
       ac_AdminKey = str getenv ''AUTH_ADMIN_KEY'' '''',
       ac_StripeSecretKey = str getenv ''AUTH_STRIPE_SECRET_KEY'' '''',
       ac_StripeWebhookSecret = str getenv ''AUTH_STRIPE_WEBHOOK_SECRET'' '''',
       ac_StripePriceID = str getenv ''AUTH_STRIPE_PRICE_ID'' '''',
       ac_ReconcileInterval = fst (auth_duration getenv ''AUTH_RECONCILE_INTERVAL'' (24 * hour)),
       ac_BillingDisabled = fst (auth_boolean getenv ''AUTH_BILLING_DISABLED'' False),
       ac_StripeEnabled = False,
       ac_ClaimTTL = fst (auth_duration getenv ''AUTH_CLAIM_TTL'' (30 * minute)),
       ac_TrustProxy = fst (auth_boolean getenv ''AUTH_TRUST_PROXY'' False),
       ac_RateLimitEnabled = fst (auth_boolean getenv ''AUTH_RATELIMIT_ENABLED'' True),
       ac_RateLimitIPPerMin = fst (auth_integer getenv ''AUTH_RATELIMIT_IP_PER_MIN'' 60),
       ac_RateLimitIPBurst = fst (auth_integer getenv ''AUTH_RATELIMIT_IP_BURST'' 20),
       ac_RateLimitAccountPerMin = fst (auth_integer getenv ''AUTH_RATELIMIT_ACCOUNT_PER_MIN'' 30),
       ac_RateLimitAccountBurst = fst (auth_integer getenv ''AUTH_RATELIMIT_ACCOUNT_BURST'' 10),
       ac_ShutdownDrain = fst (auth_duration getenv ''AUTH_SHUTDOWN_DRAIN'' (30 * second)),
       ac_LogLevel = str getenv ''AUTH_LOG_LEVEL'' ''info'',
       ac_LogFormat = str getenv ''AUTH_LOG_FORMAT'' ''json''\<rparr>"

definition auth_config_parse_errors :: "getenv \<Rightarrow> config_error list" where
  "auth_config_parse_errors getenv =
     snd (auth_boolean getenv ''AUTH_TRUST_PROXY'' False) @
     snd (auth_boolean getenv ''AUTH_RATELIMIT_ENABLED'' True) @
     snd (auth_boolean getenv ''AUTH_BILLING_DISABLED'' False) @
     snd (auth_integer getenv ''AUTH_REDIS_DB'' 0) @
     snd (auth_integer getenv ''AUTH_RATELIMIT_IP_PER_MIN'' 60) @
     snd (auth_integer getenv ''AUTH_RATELIMIT_IP_BURST'' 20) @
     snd (auth_integer getenv ''AUTH_RATELIMIT_ACCOUNT_PER_MIN'' 30) @
     snd (auth_integer getenv ''AUTH_RATELIMIT_ACCOUNT_BURST'' 10) @
     snd (auth_duration getenv ''AUTH_TOKEN_TTL'' (10 * minute)) @
     snd (auth_duration getenv ''AUTH_REFRESH_TTL'' (720 * hour)) @
     snd (auth_duration getenv ''AUTH_PAIRING_TOKEN_TTL'' (5 * minute)) @
     snd (auth_duration getenv ''AUTH_GRACE_PERIOD'' (168 * hour)) @
     snd (auth_duration getenv ''AUTH_RECONCILE_INTERVAL'' (24 * hour)) @
     snd (auth_duration getenv ''AUTH_CLAIM_TTL'' (30 * minute)) @
     snd (auth_duration getenv ''AUTH_SHUTDOWN_DRAIN'' (30 * second))"

definition auth_loadFrom :: "getenv \<Rightarrow> config_error list + auth_config" where
  "auth_loadFrom getenv =
     (case auth_validate (auth_config_values getenv) of
        (ve, c) \<Rightarrow>
          let errs = auth_config_parse_errors getenv @ ve
          in if errs \<noteq> [] then Inl errs else Inr c)"

lemma auth_loaded:
  assumes "auth_loadFrom g = Inr c"
  shows "fst (auth_validate c) = []" and "ac_StripeEnabled c \<longleftrightarrow> stripeVarsSet c = 3"
    and "auth_config_parse_errors g = []" and "\<exists>b. c = (auth_config_values g)\<lparr>ac_StripeEnabled := b\<rparr>"
proof -
  have c: "c = (auth_config_values g)\<lparr>ac_StripeEnabled := stripeVarsSet (auth_config_values g) = 3\<rparr>"
    and v: "fst (auth_validate (auth_config_values g)) = []" and e: "auth_config_parse_errors g = []"
    using assms by (auto simp: auth_loadFrom_def Let_def auth_validate_def split: if_splits)
  have same: "stripeVarsSet (x\<lparr>ac_StripeEnabled := b\<rparr>) = stripeVarsSet x"
    "missingStripeVars (x\<lparr>ac_StripeEnabled := b\<rparr>) = missingStripeVars x" for x b
    by (simp_all add: stripeVarsSet_def missingStripeVars_def)
  then have "fst (auth_validate (x\<lparr>ac_StripeEnabled := b\<rparr>)) = fst (auth_validate x)" for x b
    by (simp add: auth_validate_def stripe_errors_def)
  then show "fst (auth_validate c) = []" "auth_config_parse_errors g = []" using v e by (simp_all add: c)
  show "ac_StripeEnabled c \<longleftrightarrow> stripeVarsSet c = 3" by (simp add: c same)
  show "\<exists>b. c = (auth_config_values g)\<lparr>ac_StripeEnabled := b\<rparr>" using c by blast
qed

end
