(* ===== verification/Json_Text.thy ===== *)
theory Json_Text
  imports Json
begin

section \<open>Writing JSON and reading whole documents\<close>

text \<open>
  \<^verbatim>\<open>json.Marshal\<close> of strings and of values built from them, and \<^verbatim>\<open>json.Unmarshal\<close>, which reads one value and accepts
  only white space after it. A string is written with the escapes of \<^verbatim>\<open>encoding/json\<close>: the HTML characters and the
  two line separators of Unicode are escaped, and a byte that starts no valid UTF-8 sequence is written as the
  replacement character.
\<close>

subsection \<open>Strings\<close>

definition hex_char :: "nat \<Rightarrow> char" where
  "hex_char n = (''0123456789abcdef'' ! (n mod 16))"

definition html_safe :: "char \<Rightarrow> bool" where
  "html_safe c \<longleftrightarrow> byte_in 0x20 0x7F c \<and> c \<notin> {CHR 0x22, CHR ''&'', CHR ''<'', CHR ''>'', CHR 0x5C}"

definition ascii_escape :: "char \<Rightarrow> string" where
  "ascii_escape c =
     (if html_safe c then [c]
      else if c = CHR 0x22 \<or> c = CHR 0x5C then [CHR 0x5C, c]
      else if c = CHR 8 then [CHR 0x5C, CHR ''b'']
      else if c = CHR 12 then [CHR 0x5C, CHR ''f'']
      else if c = CHR 10 then [CHR 0x5C, CHR ''n'']
      else if c = CHR 13 then [CHR 0x5C, CHR ''r'']
      else if c = CHR 9 then [CHR 0x5C, CHR ''t'']
      else [CHR 0x5C, CHR ''u'', CHR ''0'', CHR ''0'', hex_char (of_char c div 16), hex_char (of_char c)])"

definition line_separator :: string where "line_separator = [CHR 0xE2, CHR 0x80, CHR 0xA8]"
definition paragraph_separator :: string where "paragraph_separator = [CHR 0xE2, CHR 0x80, CHR 0xA9]"

text \<open>What is written for the first character of a string, and how many bytes it took.\<close>

definition escape_unit :: "string \<Rightarrow> string \<times> nat" where
  "escape_unit s =
     (if byte_in 0 0x7F (hd s) then (ascii_escape (hd s), 1)
      else case rune_len s of
        0 \<Rightarrow> (CHR 0x5C # ''ufffd'', 1)
      | n \<Rightarrow>
          (if take n s = line_separator then (CHR 0x5C # ''u2028'', n)
           else if take n s = paragraph_separator then (CHR 0x5C # ''u2029'', n)
           else (take n s, n)))"

function json_escape :: "string \<Rightarrow> string" where
  "json_escape s = (if s = [] then [] else case escape_unit s of (t, n) \<Rightarrow> t @ json_escape (drop (max 1 n) s))"
  by pat_completeness auto
termination by (relation "measure length") auto

declare json_escape.simps [simp del]

definition marshal_string :: "string \<Rightarrow> string" where
  "marshal_string s = CHR 0x22 # json_escape s @ [CHR 0x22]"

function valid_utf8 :: "string \<Rightarrow> bool" where
  "valid_utf8 s = (if s = [] then True else rune_len s \<noteq> 0 \<and> valid_utf8 (drop (max 1 (rune_len s)) s))"
  by pat_completeness auto
termination by (relation "measure length") auto

declare valid_utf8.simps [simp del]

subsection \<open>A string reads back as it was written\<close>

lemma byte_char: "byte_in lo hi c \<longleftrightarrow> lo \<le> int (of_char c) \<and> int (of_char c) \<le> hi"
  by (simp add: byte_in_def of_nat_of_char [of c, where 'a = int])

lemma rune_len_prefix: "rune_len s = n \<Longrightarrow> 0 < n \<Longrightarrow> rune_len (take n s @ r) = n \<and> n \<le> length s"
  by (cases s rule: rune_len.cases) (auto split: if_splits list.splits)

lemma rune_len_one: "rune_len s = 1 \<Longrightarrow> byte_in 0 0x7F (hd s)"
  by (cases s) (simp_all split: if_splits list.splits)

definition ascii_table :: "char list" where "ascii_table = map char_of [0..<128 :: nat]"

lemma in_ascii_table: "byte_in 0 0x7F c \<Longrightarrow> c \<in> set ascii_table"
proof -
  assume "byte_in 0 0x7F c"
  then have "(of_char c :: nat) < 128" by (simp add: byte_char)
  moreover have "c = char_of (of_char c :: nat)" by simp
  ultimately show ?thesis unfolding ascii_table_def by (metis atLeastLessThan_iff imageI set_map set_upt zero_le)
qed

lemma ascii_escape_table:
  "list_all (\<lambda>c. ascii_escape c = [c] \<and> c \<noteq> CHR 0x22 \<and> c \<noteq> CHR 0x5C \<and> \<not> byte_in 0 31 c \<or>
     (\<exists>e \<in> set (map fst simple_escapes). ascii_escape c = [CHR 0x5C, e] \<and> e \<noteq> CHR ''u'' \<and> map_of simple_escapes e = Some c) \<or>
     take 2 (ascii_escape c) = [CHR 0x5C, CHR ''u''] \<and> length (ascii_escape c) = 6 \<and>
       hex4 (drop 2 (ascii_escape c)) = Some (of_char c)) ascii_table"
  by code_simp

lemma ascii_escape_cases:
  assumes "byte_in 0 0x7F c"
  obtains (plain) "ascii_escape c = [c]" "c \<noteq> CHR 0x22" "c \<noteq> CHR 0x5C" "\<not> byte_in 0 31 c"
    | (simple) e where "ascii_escape c = [CHR 0x5C, e]" "e \<noteq> CHR ''u''" "map_of simple_escapes e = Some c"
    | (unicode) a b x y where "ascii_escape c = [CHR 0x5C, CHR ''u'', a, b, x, y]" "hex4 [a, b, x, y] = Some (of_char c)"
proof -
  have "ascii_escape c = [c] \<and> c \<noteq> CHR 0x22 \<and> c \<noteq> CHR 0x5C \<and> \<not> byte_in 0 31 c \<or>
     (\<exists>e \<in> set (map fst simple_escapes). ascii_escape c = [CHR 0x5C, e] \<and> e \<noteq> CHR ''u'' \<and> map_of simple_escapes e = Some c) \<or>
     take 2 (ascii_escape c) = [CHR 0x5C, CHR ''u''] \<and> length (ascii_escape c) = 6 \<and>
       hex4 (drop 2 (ascii_escape c)) = Some (of_char c)"
    using ascii_escape_table in_ascii_table [OF assms] unfolding list_all_iff by blast
  then consider (1) "ascii_escape c = [c] \<and> c \<noteq> CHR 0x22 \<and> c \<noteq> CHR 0x5C \<and> \<not> byte_in 0 31 c"
    | (2) e where "ascii_escape c = [CHR 0x5C, e] \<and> e \<noteq> CHR ''u'' \<and> map_of simple_escapes e = Some c"
    | (3) "take 2 (ascii_escape c) = [CHR 0x5C, CHR ''u'']" "length (ascii_escape c) = 6" "hex4 (drop 2 (ascii_escape c)) = Some (of_char c)"
    by blast
  then show ?thesis
  proof cases
    case 3
    then obtain l where "ascii_escape c = CHR 0x5C # CHR ''u'' # l" "length l = 4"
      by (cases "ascii_escape c"; cases "tl (ascii_escape c)") auto
    then show ?thesis using 3(3) unicode by (auto simp: numeral_eq_Suc length_Suc_conv)
  qed (use plain simple in auto)
qed

lemma unit_of_ascii:
  assumes "byte_in 0 0x7F c"
  shows "unit_of (ascii_escape c @ r) = Some ([c], length (ascii_escape c))" and "ascii_escape c \<noteq> []"
    and "hd (ascii_escape c) \<noteq> CHR 0x22"
proof -
  have small: "(of_char c :: nat) < 0x80" using assms by (simp add: byte_char)
  show "unit_of (ascii_escape c @ r) = Some ([c], length (ascii_escape c))"
    using assms
  proof (cases rule: ascii_escape_cases)
    case plain
    then show ?thesis using assms by (simp add: unit_of_def)
  next
    case (unicode a b x y)
    then show ?thesis using small by (simp add: unit_of_def encode_rune_def)
  qed (simp add: unit_of_def)
  show "ascii_escape c \<noteq> []" "hd (ascii_escape c) \<noteq> CHR 0x22"
    using assms by (cases rule: ascii_escape_cases; simp)+
qed

lemma unit_of_rune:
  assumes "rune_len s = n" and "1 < n"
  shows "unit_of (take n s @ r) = Some (take n s, n)" and "hd (take n s) \<noteq> CHR 0x22" and "take n s \<noteq> []"
proof -
  obtain c u where s: "s = c # u" "\<not> byte_in 0 0x7F c" using assms by (cases s) (auto split: if_splits)
  then have "c \<noteq> CHR 0x5C" "c \<noteq> CHR 0x22" "\<not> byte_in 0 31 c" by (auto simp: byte_char)
  moreover obtain m where n: "n = Suc m" using assms(2) by (cases n) auto
  moreover have "rune_len (c # take m u @ r) = Suc m" using rune_len_prefix [OF assms(1), of r] assms(2) s n by simp
  ultimately show "unit_of (take n s @ r) = Some (take n s, n)" "hd (take n s) \<noteq> CHR 0x22" "take n s \<noteq> []"
    using s rune_len_prefix [OF assms(1), of r] by (simp_all add: unit_of_def)
qed

lemma unit_of_separator:
  "unit_of (CHR 0x5C # ''u2028'' @ r) = Some (line_separator, 6)"
  "unit_of (CHR 0x5C # ''u2029'' @ r) = Some (paragraph_separator, 6)"
proof -
  have "hex4 ''2028'' = Some 0x2028" "hex4 ''2029'' = Some 0x2029"
    by (simp_all add: hex_digit_def byte_in_def)
  moreover have "encode_rune 0x2028 = line_separator" "encode_rune 0x2029 = paragraph_separator"
    by (simp_all add: encode_rune_def line_separator_def paragraph_separator_def char_of_def bit_Suc_0_iff)
  ultimately show "unit_of (CHR 0x5C # ''u2028'' @ r) = Some (line_separator, 6)"
    "unit_of (CHR 0x5C # ''u2029'' @ r) = Some (paragraph_separator, 6)"
    by (simp_all add: unit_of_def)
qed

lemma unit_of_escape:
  assumes "s \<noteq> []" and "rune_len s \<noteq> 0"
  obtains t where "escape_unit s = (t, rune_len s)" and "unit_of (t @ r) = Some (take (rune_len s) s, length t)"
    and "t \<noteq> []" and "hd t \<noteq> CHR 0x22"
proof (cases "byte_in 0 0x7F (hd s)")
  case True
  then have one: "rune_len s = 1" using assms by (cases s) auto
  then have "take (rune_len s) s = [hd s]" using assms(1) by (cases s) (simp_all del: rune_len.simps)
  then show ?thesis using that [of "ascii_escape (hd s)"] True one unit_of_ascii [OF True] by (simp add: escape_unit_def)
next
  case False
  then have n: "1 < rune_len s" using rune_len_one [of s] assms by fastforce
  note rune = unit_of_rune [OF refl n]
  have len: "length (take (rune_len s) s) = rune_len s" using rune_len_prefix [OF refl] n by simp
  consider (l) "take (rune_len s) s = line_separator" | (p) "take (rune_len s) s = paragraph_separator"
    | (o) "take (rune_len s) s \<noteq> line_separator" "take (rune_len s) s \<noteq> paragraph_separator" by blast
  then show ?thesis
  proof cases
    case l
    then show ?thesis using that [of "CHR 0x5C # ''u2028''"] unit_of_separator(1) [of r] False n
      by (cases "rune_len s") (simp_all add: escape_unit_def)
  next
    case p
    then show ?thesis using that [of "CHR 0x5C # ''u2029''"] unit_of_separator(2) [of r] False n
      by (cases "rune_len s") (simp_all add: escape_unit_def line_separator_def paragraph_separator_def)
  next
    case o
    then show ?thesis using that [of "take (rune_len s) s"] rune len False n
      by (cases "rune_len s") (simp_all add: escape_unit_def)
  qed
qed

lemma string_lit_unit:
  assumes "unit_of (t @ u) = Some (x, length t)" and "t \<noteq> []" and "hd t \<noteq> CHR 0x22"
  shows "string_lit (t @ u) = map_option (\<lambda>(y, r). (x @ y, r)) (string_lit u)"
  using assms by (cases t) (simp_all add: string_lit_Cons max_def)

theorem string_roundtrip: "valid_utf8 s \<Longrightarrow> string_lit (json_escape s @ CHR 0x22 # r) = Some (s, r)"
proof (induction "length s" arbitrary: s rule: less_induct)
  case less
  show ?case
  proof (cases "s = []")
    case True
    then show ?thesis by (simp add: json_escape.simps string_lit_Cons)
  next
    case False
    let ?n = "rune_len s"
    have n: "?n \<noteq> 0" "valid_utf8 (drop ?n s)" using less.prems False by (simp_all add: valid_utf8.simps [of s] max_def split: if_splits)
    obtain t where t: "escape_unit s = (t, ?n)"
      "unit_of (t @ json_escape (drop ?n s) @ CHR 0x22 # r) = Some (take ?n s, length t)" "t \<noteq> []" "hd t \<noteq> CHR 0x22"
      using unit_of_escape [OF False n(1)] .
    have "json_escape s = t @ json_escape (drop ?n s)"
      using False t(1) n(1) by (subst json_escape.simps) (simp add: max_def)
    moreover have "string_lit (json_escape (drop ?n s) @ CHR 0x22 # r) = Some (drop ?n s, r)"
      using less.hyps [OF _ n(2)] False n(1) by simp
    ultimately show ?thesis using string_lit_unit [OF t(2-4)] by simp
  qed
qed


subsection \<open>Whole documents\<close>

function read_doc :: "mode \<Rightarrow> frame list \<Rightarrow> string \<Rightarrow> (json \<times> string) option" where
  "read_doc m st s =
     (case next_tok s of
        None \<Rightarrow> None
      | Some (t, r) \<Rightarrow>
          (case step_tok t m st of
             Stuck \<Rightarrow> None
           | Finished v \<Rightarrow> Some (v, r)
           | More m' st' \<Rightarrow> read_doc m' st' r))"
  by pat_completeness auto
termination by (relation "measure (\<lambda>(m, st, s). length s)") (auto dest: next_tok_shorter)

declare read_doc.simps [simp del]

definition json_Unmarshal :: "bytes \<Rightarrow> json option" where
  "json_Unmarshal data =
     (case read_doc MVal [] data of
        Some (v, r) \<Rightarrow> (if list_all is_space r then Some v else None)
      | None \<Rightarrow> None)"

lemma read_value_doc: "read_value m st s = map_option fst (read_doc m st s)"
proof (induction m st s rule: read_doc.induct)
  case (1 m st s)
  then show ?case
    by (subst read_value.simps, subst read_doc.simps) (auto split: option.splits progress.splits)
qed

lemma read_doc_step:
  "next_tok s = Some (t, r) \<Longrightarrow> step_tok t m st = More m' st' \<Longrightarrow> read_doc m st s = read_doc m' st' r"
  "next_tok s = Some (t, r) \<Longrightarrow> step_tok t m st = Finished v \<Longrightarrow> read_doc m st s = Some (v, r)"
  by (subst read_doc.simps, simp)+

lemma next_tok_simps [simp]:
  "next_tok (CHR ''{'' # r) = Some (LBrace, r)" "next_tok (CHR ''}'' # r) = Some (RBrace, r)"
  "next_tok (CHR ''['' # r) = Some (LBrack, r)" "next_tok (CHR '']'' # r) = Some (RBrack, r)"
  "next_tok (CHR '':'' # r) = Some (Colon, r)" "next_tok (CHR '','' # r) = Some (Comma, r)"
  "next_tok (CHR 0x22 # r) = map_option (\<lambda>(t, r'). (Lit (JStr t), r')) (string_lit r)"
  by (simp_all add: next_tok_def tok_at_def is_space_def)

lemma next_tok_string [simp]: "valid_utf8 s \<Longrightarrow> next_tok (marshal_string s @ r) = Some (Lit (JStr s), r)"
  by (simp add: marshal_string_def string_roundtrip)

text \<open>A map of strings is written with its keys in order; an empty one as \<^verbatim>\<open>{}\<close>.\<close>

fun marshal_members :: "(string \<times> string) list \<Rightarrow> string" where
  "marshal_members [] = ''''"
| "marshal_members [(k, v)] = marshal_string k @ '':'' @ marshal_string v"
| "marshal_members ((k, v) # kvs) = marshal_string k @ '':'' @ marshal_string v @ '','' @ marshal_members kvs"

definition marshal_map :: "(string \<times> string) list \<Rightarrow> string" where
  "marshal_map m = ''{'' @ marshal_members (sort_key fst m) @ ''}''"

lemma read_member:
  assumes "valid_utf8 k" and "valid_utf8 v" and "m = MKey \<or> m = MFirstKey"
  shows "read_doc m (FObj kvs p # st) (marshal_string k @ CHR '':'' # marshal_string v @ r) =
    read_doc MAfter (FObj (kvs @ [(k, JStr v)]) None # st) r"
proof -
  have "read_doc m (FObj kvs p # st) (marshal_string k @ CHR '':'' # marshal_string v @ r) =
      read_doc MColon (FObj kvs (Some k) # st) (CHR '':'' # marshal_string v @ r)"
    using assms by (intro read_doc_step(1)) auto
  also have "\<dots> = read_doc MVal (FObj kvs (Some k) # st) (marshal_string v @ r)"
    by (rule read_doc_step(1) [of _ Colon]) simp_all
  also have "\<dots> = read_doc MAfter (FObj (kvs @ [(k, JStr v)]) None # st) r"
    using assms by (intro read_doc_step(1)) auto
  finally show ?thesis .
qed

lemma read_members:
  assumes "\<forall>(k, v) \<in> set m. valid_utf8 k \<and> valid_utf8 v" and "m \<noteq> []" and "md = MKey \<or> md = MFirstKey"
  shows "read_doc md (FObj kvs p # st) (marshal_members m @ r) =
    read_doc MAfter (FObj (kvs @ map (\<lambda>(k, v). (k, JStr v)) m) None # st) r"
  using assms
proof (induction m arbitrary: kvs p md rule: marshal_members.induct)
  case (2 k v)
  then show ?case using read_member [of k v md kvs p st r] by simp
next
  case (3 k v kv kvs')
  have "read_doc md (FObj kvs p # st) (marshal_members ((k, v) # kv # kvs') @ r) =
      read_doc MAfter (FObj (kvs @ [(k, JStr v)]) None # st) (CHR '','' # marshal_members (kv # kvs') @ r)"
    using 3 read_member [of k v md kvs p st "CHR '','' # marshal_members (kv # kvs') @ r"] by simp
  also have "\<dots> = read_doc MKey (FObj (kvs @ [(k, JStr v)]) None # st) (marshal_members (kv # kvs') @ r)"
    by (rule read_doc_step(1) [of _ Comma]) simp_all
  also have "\<dots> = read_doc MAfter (FObj ((kvs @ [(k, JStr v)]) @ map (\<lambda>(k, v). (k, JStr v)) (kv # kvs')) None # st) r"
    by (rule 3(1)) (use 3(2) in auto)
  finally show ?case by simp
qed simp

text \<open>A written map reads back, wherever a value may stand.\<close>

lemma read_map:
  assumes "\<forall>(k, v) \<in> set m. valid_utf8 k \<and> valid_utf8 v" and "m \<noteq> []" and "length st < maxNestingDepth"
    and "md = MVal \<or> md = MFirst"
    and "deliver (JObj (map (\<lambda>(k, v). (k, JStr v)) (sort_key fst m))) st = More md' st'"
  shows "read_doc md st (marshal_map m @ r) = read_doc md' st' r"
proof -
  have "read_doc md st (marshal_map m @ r) = read_doc MFirstKey (FObj [] None # st) (marshal_members (sort_key fst m) @ CHR ''}'' # r)"
    unfolding marshal_map_def using assms(3,4) by (intro read_doc_step(1) [of _ LBrace]) (auto simp: push_def)
  also have "\<dots> = read_doc MAfter (FObj (map (\<lambda>(k, v). (k, JStr v)) (sort_key fst m)) None # st) (CHR ''}'' # r)"
    using read_members [of "sort_key fst m" MFirstKey "[]" None st "CHR ''}'' # r"] assms(1,2)
      by (metis append_Nil length_0_conv length_sort set_sort)
  also have "\<dots> = read_doc md' st' r" using assms(5) by (intro read_doc_step(1) [of _ RBrace]) simp_all
  finally show ?thesis .
qed

end
