(* ===== verification/Spec2Isabelle.thy ===== *)
theory Spec2Isabelle
  imports Relay_Server E2EE Auth_Runs Auth_Config Json_Text
begin

text \<open>
  A verification development of the secure gateway.
\<close>

end
